(* ===== verification/Prelude.thy ===== *)
theory Prelude
  imports Main "HOL-Library.Word" "HOL-Library.Multiset"
begin

text \<open>
  Shared vocabulary of the development: machine integers, panics and error results, the
  parts of the Rust standard library the program uses (vectors with a panicking
  \<open>remove\<close>, \<open>BTreeMap\<close> and \<open>BTreeSet\<close> as lists in key order, checked
  addition) and runs of a step function that may panic.
\<close>

section \<open>Machine integers\<close>

unbundle bit_operations_syntax

type_synonym u8 = "8 word"
type_synonym u16 = "16 word"
type_synonym i16 = "16 word"
type_synonym u32 = "32 word"
type_synonym i32 = "32 word"
type_synonym u128 = "128 word"

text \<open>The largest \<open>usize\<close> of a 64-bit target; sizes and counts are natural numbers.\<close>

definition usize_max :: nat where
  "usize_max = 2 ^ 64 - 1"

text \<open>
  \<open>u16::checked_add(1)\<close> and \<open>u32::checked_add(1)\<close>: \<open>None\<close> at the largest value.
\<close>

definition checked_succ :: "'a::len word \<Rightarrow> 'a word option" where
  "checked_succ n = (if n = - 1 then None else Some (n + 1))"

lemma unat_succ: "n \<noteq> - 1 \<Longrightarrow> unat (n + 1) = Suc (unat (n :: 'a::len word))"
  by (metis add.commute add.inverse_inverse eq_neg_iff_add_eq_0 unatSuc)

lemma checked_succ_Some:
  "checked_succ n = Some m \<longleftrightarrow> n \<noteq> - 1 \<and> m = n + 1"
  by (auto simp: checked_succ_def)

lemma checked_succ_None: "checked_succ n = None \<longleftrightarrow> n = - 1"
  by (simp add: checked_succ_def)

section \<open>Panics and error results\<close>

text \<open>
  What stops a task: an index out of range, a failed assertion, an \<open>unwrap\<close> or
  \<open>expect\<close> on the wrong constructor, a \<open>todo!()\<close>, \<open>panic!\<close> or
  \<open>unimplemented!\<close>.
\<close>

datatype panic =
    Index_Out_Of_Bounds
  | Assertion_Failed
  | Unwrap_Failed
  | Expect_Failed string
  | Todo string
  | Explicit_Panic string

text \<open>\<open>Result\<close> is a sum with the error on the left; \<open>?\<close> and \<open>and_then\<close> are one function.\<close>

fun and_then :: "'e + 'a \<Rightarrow> ('a \<Rightarrow> 'e + 'b) \<Rightarrow> 'e + 'b" where
  "and_then (Inl e) f = Inl e"
| "and_then (Inr x) f = f x"

named_theorems result_iff

lemma and_then_Inr [result_iff]: "and_then r f = Inr y \<longleftrightarrow> (\<exists>x. r = Inr x \<and> f x = Inr y)"
  by (cases r) auto

lemma and_then_Inl [result_iff]:
  "and_then r f = Inl e \<longleftrightarrow> r = Inl e \<or> (\<exists>x. r = Inr x \<and> f x = Inl e)"
  by (cases r) auto

fun ok :: "'e + 'a \<Rightarrow> 'a option" where
  "ok (Inl e) = None"
| "ok (Inr x) = Some x"

lemma ok_and_then: "ok (and_then r f) = Option.bind (ok r) (\<lambda>x. ok (f x))"
  by (cases r) auto

lemma ok_Some [result_iff]: "ok r = Some x \<longleftrightarrow> r = Inr x"
  by (cases r) auto

lemma ok_None [result_iff]: "ok r = None \<longleftrightarrow> isl r"
  by (cases r) auto

text \<open>Collecting an iterator of results into a result: the first error wins.\<close>

fun collect_results :: "('e + 'a) list \<Rightarrow> 'e + 'a list" where
  "collect_results [] = Inr []"
| "collect_results (r # rs) = and_then r (\<lambda>x. and_then (collect_results rs) (\<lambda>xs. Inr (x # xs)))"

lemma collect_results_Inr [result_iff]: "collect_results rs = Inr xs \<longleftrightarrow> rs = List.map Inr xs"
  by (induction rs arbitrary: xs) (auto simp: result_iff Cons_eq_map_conv)

definition map_error :: "('e \<Rightarrow> 'f) \<Rightarrow> 'e + 'a \<Rightarrow> 'f + 'a" where
  "map_error f r = map_sum f (\<lambda>x. x) r"

lemma map_error_simps [simp]: "map_error f (Inl e) = Inl (f e)" "map_error f (Inr x) = Inr x"
  by (simp_all add: map_error_def)

lemma map_error_Inr [result_iff]: "map_error f r = Inr x \<longleftrightarrow> r = Inr x"
  by (cases r) auto

lemma map_error_Inl [result_iff]: "map_error f r = Inl e \<longleftrightarrow> (\<exists>e'. r = Inl e' \<and> e = f e')"
  by (cases r) auto

text \<open>A result an operation of the outside world may replace by an error.\<close>

definition unless_error :: "'e option \<Rightarrow> 'a \<Rightarrow> 'e + 'a" where
  "unless_error e x = (case e of Some e \<Rightarrow> Inl e | None \<Rightarrow> Inr x)"

lemma unless_error_simps [simp]: "unless_error None x = Inr x" "unless_error (Some e) x = Inl e"
  by (simp_all add: unless_error_def)

lemma unless_error_Inr [result_iff]: "unless_error e x = Inr y \<longleftrightarrow> e = None \<and> y = x"
  by (cases e) auto

text \<open>
  An action that makes calls to the outside and may stop early: the calls made so far, in
  order, with an error or a value.
\<close>

type_synonym ('o, 'e, 'a) action = "'o list \<times> ('e + 'a)"

fun bind_action :: "('o, 'e, 'a) action \<Rightarrow> ('a \<Rightarrow> ('o, 'e, 'b) action) \<Rightarrow> ('o, 'e, 'b) action" where
  "bind_action (os, Inl e) f = (os, Inl e)"
| "bind_action (os, Inr x) f = (os @ fst (f x), snd (f x))"

definition done_with :: "'a \<Rightarrow> ('o, 'e, 'a) action" where
  "done_with x = ([], Inr x)"

definition stop_with :: "'e \<Rightarrow> ('o, 'e, 'a) action" where
  "stop_with e = ([], Inl e)"

named_theorems action_simps

lemma bind_done [action_simps]: "bind_action (done_with x) f = f x"
  by (simp add: done_with_def)

lemma bind_stop [action_simps]: "bind_action (stop_with e) f = stop_with e"
  by (simp add: stop_with_def)

lemma done_with_simps [action_simps]: "fst (done_with x) = []" "snd (done_with x) = Inr x"
  by (simp_all add: done_with_def)

lemma stop_with_simps [action_simps]: "fst (stop_with e) = []" "snd (stop_with e) = Inl e"
  by (simp_all add: stop_with_def)

lemma snd_bind_Inr:
  "snd (bind_action a f) = Inr y \<longleftrightarrow> (\<exists>x. snd a = Inr x \<and> snd (f x) = Inr y)"
  by (cases a, cases "snd a") auto

section \<open>Vectors\<close>

text \<open>\<open>Vec::remove\<close> panics when the index is out of range.\<close>

definition vec_remove :: "nat \<Rightarrow> 'a list \<Rightarrow> panic + 'a \<times> 'a list" where
  "vec_remove i xs =
     (if i < length xs then Inr (xs ! i, take i xs @ drop (Suc i) xs)
      else Inl Index_Out_Of_Bounds)"

lemma mset_remove_nth:
  "i < length xs \<Longrightarrow> add_mset (xs ! i) (mset (take i xs @ drop (Suc i) xs)) = mset xs"
  by (metis id_take_nth_drop mset.simps(2) mset_append union_mset_add_mset_right)

lemma set_remove_nth: "set (take i xs @ drop (Suc i) xs) \<subseteq> set xs"
  by (auto dest: in_set_takeD in_set_dropD)

lemma vec_remove_mset:
  "vec_remove i xs = Inr (x, ys) \<Longrightarrow> add_mset x (mset ys) = mset xs"
  by (auto simp: vec_remove_def mset_remove_nth simp del: mset_append split: if_splits)

section \<open>Ordered maps and sets\<close>

text \<open>
  A \<open>BTreeMap\<close> is an association list with its keys in strictly ascending order, the
  order in which the map is iterated; a \<open>BTreeSet\<close> a strictly ascending list.
\<close>

type_synonym ('k, 'v) btree_map = "('k \<times> 'v) list"

definition bt_ok :: "('k::linorder, 'v) btree_map \<Rightarrow> bool" where
  "bt_ok m \<longleftrightarrow> sorted_wrt (<) (List.map fst m)"

fun bt_insert :: "'k::linorder \<Rightarrow> 'v \<Rightarrow> ('k, 'v) btree_map \<Rightarrow> ('k, 'v) btree_map" where
  "bt_insert k v [] = [(k, v)]"
| "bt_insert k v ((k', v') # m) =
     (if k < k' then (k, v) # (k', v') # m
      else if k = k' then (k, v) # m
      else (k', v') # bt_insert k v m)"

definition bt_get :: "('k, 'v) btree_map \<Rightarrow> 'k \<Rightarrow> 'v option" where
  "bt_get m k = map_of m k"

definition bt_keys :: "('k, 'v) btree_map \<Rightarrow> 'k list" where
  "bt_keys m = List.map fst m"

definition bt_values :: "('k, 'v) btree_map \<Rightarrow> 'v list" where
  "bt_values m = List.map snd m"

lemma set_bt_insert_keys: "set (bt_keys (bt_insert k v m)) = insert k (set (bt_keys m))"
  by (induction k v m rule: bt_insert.induct) (auto simp: bt_keys_def)

lemma bt_ok_Nil [simp]: "bt_ok []"
  by (simp add: bt_ok_def)

lemma bt_ok_insert: "bt_ok m \<Longrightarrow> bt_ok (bt_insert k v m)"
proof (induction k v m rule: bt_insert.induct)
  case (2 k v k' v' m)
  have "set (List.map fst (bt_insert k v m)) = insert k (set (List.map fst m))"
    using set_bt_insert_keys [of k v m] by (simp add: bt_keys_def)
  with 2 show ?case by (auto simp: bt_ok_def)
qed (simp add: bt_ok_def)

lemma bt_get_insert:
  "bt_ok m \<Longrightarrow> bt_get (bt_insert k v m) x = (if x = k then Some v else bt_get m x)"
  by (induction k v m rule: bt_insert.induct) (auto simp: bt_ok_def bt_get_def)

lemma bt_get_None: "bt_get m k = None \<longleftrightarrow> k \<notin> set (bt_keys m)"
  by (simp add: bt_get_def bt_keys_def map_of_eq_None_iff)

lemma bt_get_Some_key: "bt_get m k = Some v \<Longrightarrow> k \<in> set (bt_keys m)"
  by (metis bt_get_None option.distinct(1))

lemma bt_get_Some_value: "bt_get m k = Some v \<Longrightarrow> v \<in> set (bt_values m)"
  by (force simp: bt_get_def bt_values_def dest: map_of_SomeD)

lemma bt_ok_distinct: "bt_ok m \<Longrightarrow> distinct (bt_keys m)"
  by (simp add: bt_ok_def bt_keys_def strict_sorted_iff)

lemma bt_get_mem: "bt_ok m \<Longrightarrow> (k, v) \<in> set m \<longleftrightarrow> bt_get m k = Some v"
  using bt_ok_distinct [of m] by (simp add: bt_get_def bt_keys_def)

text \<open>The interface of an ordered map, as its clients use it.\<close>

locale ordered_map =
  fixes empty :: "'m"
    and insert_at :: "'k::linorder \<Rightarrow> 'v \<Rightarrow> 'm \<Rightarrow> 'm"
    and get :: "'m \<Rightarrow> 'k \<Rightarrow> 'v option"
    and entries :: "'m \<Rightarrow> ('k \<times> 'v) list"
    and invar :: "'m \<Rightarrow> bool"
  assumes invar_empty: "invar empty"
    and invar_insert: "invar m \<Longrightarrow> invar (insert_at k v m)"
    and get_empty: "get empty k = None"
    and get_insert: "invar m \<Longrightarrow> get (insert_at k v m) x = (if x = k then Some v else get m x)"
    and entries_get: "invar m \<Longrightarrow> (k, v) \<in> set (entries m) \<longleftrightarrow> get m k = Some v"
    and entries_sorted: "invar m \<Longrightarrow> sorted_wrt (<) (List.map fst (entries m))"
begin

lemma invar_fold: "invar m \<Longrightarrow> invar (fold (\<lambda>(k, v). insert_at k v) kvs m)"
  by (induction kvs arbitrary: m) (auto simp: invar_insert)

lemma get_fold_notin:
  "invar m \<Longrightarrow> k \<notin> fst ` set kvs \<Longrightarrow> get (fold (\<lambda>(k, v). insert_at k v) kvs m) k = get m k"
  by (induction kvs arbitrary: m) (auto simp: invar_insert get_insert)

lemma get_fold:
  "invar m \<Longrightarrow> distinct (List.map fst kvs) \<Longrightarrow>
   get (fold (\<lambda>(k, v). insert_at k v) kvs m) k =
     (case map_of kvs k of Some v \<Rightarrow> Some v | None \<Rightarrow> get m k)"
proof (induction kvs arbitrary: m)
  case (Cons kv kvs)
  obtain k' v' where kv: "kv = (k', v')" by force
  with Cons.prems have m': "invar (insert_at k' v' m)" and d: "distinct (List.map fst kvs)"
    and k': "k' \<notin> fst ` set kvs"
    by (simp_all add: invar_insert)
  show ?case
  proof (cases "k = k'")
    case True
    then show ?thesis
      using get_fold_notin [OF m' k'] Cons.prems kv by (simp add: get_insert)
  next
    case False
    then show ?thesis
      using Cons.IH [OF m' d] Cons.prems kv by (simp add: get_insert split: option.splits)
  qed
qed simp

lemma entries_distinct: "invar m \<Longrightarrow> distinct (List.map fst (entries m))"
  using entries_sorted [of m] by (simp add: strict_sorted_iff)

lemma entries_ext:
  assumes "invar m" "invar n" "\<And>k. get m k = get n k"
  shows "entries m = entries n"
proof -
  have eq: "set (entries m) = set (entries n)"
    using assms by (force simp: entries_get)
  have m: "sorted (List.map fst (entries m))" "distinct (List.map fst (entries m))"
    and n: "sorted (List.map fst (entries n))" "distinct (List.map fst (entries n))"
    using entries_sorted [OF assms(1)] entries_sorted [OF assms(2)]
    by (simp_all add: strict_sorted_iff)
  have "inj_on fst (set (entries m) \<union> set (entries n))"
    using m(2) eq by (simp add: distinct_map)
  then show ?thesis
    using m n eq by (rule map_sorted_distinct_set_unique)
qed

end

interpretation bt: ordered_map "[]" bt_insert bt_get "\<lambda>m. m" bt_ok
  by unfold_locales
     (simp_all add: bt_ok_insert bt_get_insert bt_get_mem, simp_all add: bt_get_def bt_ok_def)

text \<open>\<open>BTreeSet\<close>: insertion reports whether the element is new.\<close>

fun bs_add :: "'k::linorder \<Rightarrow> 'k list \<Rightarrow> 'k list" where
  "bs_add k [] = [k]"
| "bs_add k (x # xs) =
     (if k < x then k # x # xs else if k = x then x # xs else x # bs_add k xs)"

definition bs_insert :: "'k::linorder \<Rightarrow> 'k list \<Rightarrow> bool \<times> 'k list" where
  "bs_insert k xs = (k \<notin> set xs, bs_add k xs)"

definition bs_remove :: "'k \<Rightarrow> 'k list \<Rightarrow> 'k list" where
  "bs_remove k xs = List.filter (\<lambda>x. x \<noteq> k) xs"

definition bs_collect :: "'k::linorder list \<Rightarrow> 'k list" where
  "bs_collect xs = fold bs_add xs []"

lemma set_bs_add [simp]: "set (bs_add k xs) = insert k (set xs)"
  by (induction k xs rule: bs_add.induct) auto

lemma set_bs_remove [simp]: "set (bs_remove k xs) = set xs - {k}"
  by (auto simp: bs_remove_def)

lemma set_fold_bs_add: "set (fold bs_add xs ys) = set xs \<union> set ys"
  by (induction xs arbitrary: ys) auto

lemma set_bs_collect [simp]: "set (bs_collect xs) = set xs"
  by (simp add: bs_collect_def set_fold_bs_add)

lemma sorted_bs_add: "sorted_wrt (<) xs \<Longrightarrow> sorted_wrt (<) (bs_add k xs)"
  by (induction k xs rule: bs_add.induct) auto

lemma sorted_bs_collect: "sorted_wrt (<) (bs_collect xs)"
proof -
  have "sorted_wrt (<) ys \<Longrightarrow> sorted_wrt (<) (fold bs_add xs ys)" for ys
    by (induction xs arbitrary: ys) (auto simp: sorted_bs_add)
  then show ?thesis by (simp add: bs_collect_def)
qed

lemma sorted_bs_remove: "sorted_wrt (<) xs \<Longrightarrow> sorted_wrt (<) (bs_remove k xs)"
  by (simp add: bs_remove_def sorted_wrt_filter)

section \<open>Runs of a step function that may fail\<close>

fun run_steps :: "('s \<Rightarrow> 'e \<Rightarrow> 'p + 's \<times> 'o list) \<Rightarrow> 's \<Rightarrow> 'e list \<Rightarrow> 'p + 's \<times> 'o list" where
  "run_steps step s [] = Inr (s, [])"
| "run_steps step s (e # es) =
     and_then (step s e) (\<lambda>(s', os).
       and_then (run_steps step s' es) (\<lambda>(s'', os'). Inr (s'', os @ os')))"

text \<open>
  A component whose steps may panic: an invariant that every completed step keeps, and a
  relation between the outputs of a step and the two states, lifted to runs.
\<close>

locale stepping =
  fixes step :: "'s \<Rightarrow> 'e \<Rightarrow> 'p + 's \<times> 'o list"
    and inv :: "'s \<Rightarrow> bool"
    and env :: "'e \<Rightarrow> bool"
  assumes inv_step: "inv s \<Longrightarrow> env e \<Longrightarrow> step s e = Inr (s', os) \<Longrightarrow> inv s'"
begin

lemma inv_run: "inv s \<Longrightarrow> \<forall>e \<in> set es. env e \<Longrightarrow> run_steps step s es = Inr (s', os) \<Longrightarrow> inv s'"
proof (induction es arbitrary: s os)
  case (Cons e es)
  then obtain s1 os1 os2 where "step s e = Inr (s1, os1)"
    and "run_steps step s1 es = Inr (s', os2)"
    by (auto simp: result_iff)
  with Cons show ?case using inv_step [of s e s1 os1] by auto
qed simp

lemma no_panic_run:
  assumes safe: "\<And>s e. inv s \<Longrightarrow> env e \<Longrightarrow> \<not> isl (step s e)"
  shows "inv s \<Longrightarrow> \<forall>e \<in> set es. env e \<Longrightarrow> \<exists>s' os. run_steps step s es = Inr (s', os) \<and> inv s'"
proof (induction es arbitrary: s)
  case (Cons e es)
  from Cons.prems have env: "env e" and rest: "\<forall>e \<in> set es. env e" by auto
  obtain s1 os1 where s1: "step s e = Inr (s1, os1)"
    using safe [OF Cons.prems(1) env] by (cases "step s e") auto
  from Cons.IH [OF inv_step [OF Cons.prems(1) env s1] rest] s1 show ?case by auto
qed simp

lemma outputs_run:
  assumes out: "\<And>s e s' os. inv s \<Longrightarrow> env e \<Longrightarrow> step s e = Inr (s', os) \<Longrightarrow> \<forall>x \<in> set os. P x"
  shows "inv s \<Longrightarrow> \<forall>e \<in> set es. env e \<Longrightarrow> run_steps step s es = Inr (s', os) \<Longrightarrow> \<forall>x \<in> set os. P x"
proof (induction es arbitrary: s os)
  case (Cons e es)
  then obtain s1 os1 os2 where "step s e = Inr (s1, os1)"
    and "run_steps step s1 es = Inr (s', os2)" and "os = os1 @ os2"
    by (auto simp: result_iff)
  with Cons show ?case using out [of s e s1 os1] inv_step [of s e s1 os1] by auto
qed simp

end

text \<open>A property of states that every step of a relation keeps holds in all that follow.\<close>

locale kept =
  fixes step :: "'s \<Rightarrow> 's \<Rightarrow> bool"
    and inv :: "'s \<Rightarrow> bool"
  assumes keeps: "inv s \<Longrightarrow> step s s' \<Longrightarrow> inv s'"
begin

lemma for_ever: "inv s \<Longrightarrow> step\<^sup>*\<^sup>* s s' \<Longrightarrow> inv s'"
  by (rotate_tac, induction rule: rtranclp_induct) (auto intro: keeps)

end

end
