(* ===== verification/Wire.thy ===== *)
theory Wire
  imports Prelude
begin

text \<open>
  Bytes and the two crates the mesh protocol code reads and writes them with. \<open>nom\<close> and
  \<open>bytes\<close> are not part of the repository: the operations the program calls are the fields
  of a record, an argument of every definition that uses them, and \<open>nom_ok\<close> and
  \<open>bytes_ok\<close> state what their documentation promises.
\<close>

section \<open>Splitting and joining integers\<close>

definition lo8 :: "u16 \<Rightarrow> u8" where
  "lo8 w = ucast w"

definition hi8 :: "u16 \<Rightarrow> u8" where
  "hi8 w = ucast (drop_bit 8 w)"

definition join16 :: "u8 \<Rightarrow> u8 \<Rightarrow> u16" where
  "join16 hi lo = push_bit 8 (ucast hi) OR ucast lo"

definition byte32 :: "nat \<Rightarrow> u32 \<Rightarrow> u8" where
  "byte32 i w = ucast (drop_bit (8 * i) w)"

definition join32 :: "u8 \<Rightarrow> u8 \<Rightarrow> u8 \<Rightarrow> u8 \<Rightarrow> u32" where
  "join32 b3 b2 b1 b0 =
     push_bit 24 (ucast b3) OR push_bit 16 (ucast b2) OR push_bit 8 (ucast b1) OR ucast b0"

lemma join16_split [simp]: "join16 (hi8 w) (lo8 w) = w"
  by (rule bit_word_eqI) (auto simp: join16_def hi8_def lo8_def bit_simps)

lemma lo8_join16 [simp]: "lo8 (join16 hi lo) = lo"
  by (rule bit_word_eqI) (auto simp: join16_def lo8_def bit_simps)

lemma hi8_join16 [simp]: "hi8 (join16 hi lo) = hi"
  by (rule bit_word_eqI) (auto simp: join16_def hi8_def bit_simps dest: bit_imp_le_length)

lemma join16_inject [simp]: "join16 a b = join16 c d \<longleftrightarrow> a = c \<and> b = d"
  by (metis hi8_join16 lo8_join16)

lemma all_less_8: "(\<forall>n<8. P (n::nat)) \<longleftrightarrow> P 0 \<and> P 1 \<and> P 2 \<and> P 3 \<and> P 4 \<and> P 5 \<and> P 6 \<and> P 7"
  by (auto simp: numeral_eq_Suc All_less_Suc)

lemma u8_eq_bits: "a = b \<longleftrightarrow> (\<forall>n<8. bit (a::u8) n = bit b n)"
  using bit_word_eqI [of a b] by auto

lemma join32_split: "join32 (byte32 3 w) (byte32 2 w) (byte32 1 w) (byte32 0 w) = w"
proof (rule bit_word_eqI)
  fix n
  assume "n < LENGTH(32)"
  then have "n < 32" by simp
  then consider "n < 8" | "8 \<le> n" "n < 16" | "16 \<le> n" "n < 24" | "24 \<le> n" "n < 32"
    by linarith
  then show "bit (join32 (byte32 3 w) (byte32 2 w) (byte32 1 w) (byte32 0 w)) n = bit w n"
    by cases (auto simp: join32_def byte32_def bit_simps)
qed

lemma byte32_join32 [simp]:
  "byte32 0 (join32 b3 b2 b1 b0) = b0"
  "byte32 (Suc 0) (join32 b3 b2 b1 b0) = b1"
  "byte32 2 (join32 b3 b2 b1 b0) = b2"
  "byte32 3 (join32 b3 b2 b1 b0) = b3"
  by (rule bit_word_eqI, force simp: join32_def byte32_def bit_simps dest: bit_imp_le_length)+

lemma unat_push_or:
  fixes hi lo :: u8
  assumes "n \<le> 8" and "unat lo < 2 ^ n"
  shows "unat (push_bit n (ucast hi) OR ucast lo :: u16) = unat hi * 2 ^ n + unat lo"
proof -
  have lo: "\<not> bit lo m" if "n \<le> m" for m
  proof
    assume "bit lo m"
    then have "bit (unat lo) m" by (simp add: bit_simps)
    moreover have "take_bit n (unat lo) = unat lo" using assms(2) by (simp add: take_bit_nat_eq_self)
    ultimately show False using that by (metis bit_take_bit_iff not_le)
  qed
  have hi: "unat hi * 2 ^ n < 2 ^ 16"
  proof -
    have "(2::nat) ^ n \<le> 2 ^ 8" using assms(1) by (rule power_increasing) simp
    then have "unat hi * 2 ^ n \<le> unat hi * 2 ^ 8" by (rule mult_le_mono2)
    also have "\<dots> < 2 ^ 8 * 2 ^ 8" using unsigned_less [of hi, where ?'a = nat] by simp
    finally show ?thesis by simp
  qed
  have "push_bit n (unat hi) OR unat lo = push_bit n (unat hi) + unat lo"
    by (rule disjunctive_add_eq_or [symmetric], rule bit_eqI) (auto simp: bit_simps lo)
  moreover have "unat (push_bit n (ucast hi) :: u16) = push_bit n (unat hi)"
  proof -
    have "unat (push_bit n (ucast hi) :: u16) = take_bit 16 (push_bit n (take_bit 16 (unat hi)))"
      by (simp only: unsigned_push_bit_eq unsigned_ucast_eq len_num0 len_num1 len_bit0 len_bit1) simp
    also have "take_bit 16 (unat hi) = unat hi"
      using unsigned_less [of hi, where ?'a = nat] by (simp add: take_bit_nat_eq_self)
    finally show ?thesis using hi by (simp add: push_bit_eq_mult take_bit_nat_eq_self)
  qed
  moreover have "unat (ucast lo :: u16) = unat lo"
    using unsigned_less [of lo, where ?'a = nat] by (simp add: unsigned_ucast_eq take_bit_nat_eq_self)
  ultimately show ?thesis by (simp add: unsigned_or_eq push_bit_eq_mult)
qed

lemma unat_join16: "unat (join16 hi lo) = 256 * unat hi + unat lo"
  using unat_push_or [of 8 lo hi] unsigned_less [of lo, where ?'a = nat]
  by (simp add: join16_def mult.commute)

section \<open>The \<open>nom\<close> parsers\<close>

text \<open>
  A \<open>nom\<close> parser returns the rest of the input with the value, or an error. The
  number parsers are those of \<open>nom::number::complete\<close>; \<open>nom_failure_count\<close> is
  \<open>Err::Failure(Error::new(buf, ErrorKind::Count))\<close>. The error type stays open.
\<close>

type_synonym ('e, 'a) iresult = "'e + u8 list \<times> 'a"

record 'e nom =
  nom_u8 :: "u8 list \<Rightarrow> ('e, u8) iresult"
  nom_peek :: "(u8 list \<Rightarrow> ('e, u8) iresult) \<Rightarrow> u8 list \<Rightarrow> ('e, u8) iresult"
  nom_be_u16 :: "u8 list \<Rightarrow> ('e, u16) iresult"
  nom_le_u16 :: "u8 list \<Rightarrow> ('e, u16) iresult"
  nom_le_i16 :: "u8 list \<Rightarrow> ('e, i16) iresult"
  nom_le_u32 :: "u8 list \<Rightarrow> ('e, u32) iresult"
  nom_take :: "nat \<Rightarrow> u8 list \<Rightarrow> ('e, u8 list) iresult"
  nom_failure_count :: "u8 list \<Rightarrow> 'e"

text \<open>
  The documented behaviour: a number parser takes its bytes from the front of the input
  in the order its name says and fails when there are too few; \<open>take\<close> splits at the
  given length or fails; \<open>peek\<close> runs a parser without consuming.
\<close>

definition nom_ok :: "'e nom \<Rightarrow> bool" where
  "nom_ok N \<longleftrightarrow>
     isl (nom_u8 N []) \<and> (\<forall>b r. nom_u8 N (b # r) = Inr (r, b)) \<and>
     (\<forall>p buf. nom_peek N p buf = and_then (p buf) (\<lambda>(_, x). Inr (buf, x))) \<and>
     (\<forall>buf. length buf < 2 \<longrightarrow>
        isl (nom_be_u16 N buf) \<and> isl (nom_le_u16 N buf) \<and> isl (nom_le_i16 N buf)) \<and>
     (\<forall>a b r. nom_be_u16 N (a # b # r) = Inr (r, join16 a b)) \<and>
     (\<forall>a b r. nom_le_u16 N (a # b # r) = Inr (r, join16 b a)) \<and>
     (\<forall>a b r. nom_le_i16 N (a # b # r) = Inr (r, join16 b a)) \<and>
     (\<forall>buf. length buf < 4 \<longrightarrow> isl (nom_le_u32 N buf)) \<and>
     (\<forall>a b c d r. nom_le_u32 N (a # b # c # d # r) = Inr (r, join32 d c b a)) \<and>
     (\<forall>n buf. length buf < n \<longrightarrow> isl (nom_take N n buf)) \<and>
     (\<forall>n buf. n \<le> length buf \<longrightarrow> nom_take N n buf = Inr (drop n buf, take n buf))"

named_theorems nom_simps

lemma nom_u8 [nom_simps]:
  "nom_ok N \<Longrightarrow> ok (nom_u8 N buf) = (case buf of [] \<Rightarrow> None | b # r \<Rightarrow> Some (r, b))"
  by (auto simp: nom_ok_def result_iff split: list.splits)

lemma nom_peek [nom_simps]:
  "nom_ok N \<Longrightarrow> ok (nom_peek N p buf) = map_option (\<lambda>(_, x). (buf, x)) (ok (p buf))"
  by (cases "p buf") (auto simp: nom_ok_def)

lemma nom_16 [nom_simps]:
  assumes "nom_ok N"
  shows "ok (nom_be_u16 N buf) = (case buf of a # b # r \<Rightarrow> Some (r, join16 a b) | _ \<Rightarrow> None)"
    and "ok (nom_le_u16 N buf) = (case buf of a # b # r \<Rightarrow> Some (r, join16 b a) | _ \<Rightarrow> None)"
    and "ok (nom_le_i16 N buf) = (case buf of a # b # r \<Rightarrow> Some (r, join16 b a) | _ \<Rightarrow> None)"
  using assms by (auto simp: nom_ok_def result_iff split: list.splits)

lemma nom_le_u32 [nom_simps]:
  "nom_ok N \<Longrightarrow> ok (nom_le_u32 N buf) =
     (case buf of a # b # c # d # r \<Rightarrow> Some (r, join32 d c b a) | _ \<Rightarrow> None)"
  by (auto simp: nom_ok_def result_iff split: list.splits)

lemma nom_take [nom_simps]:
  "nom_ok N \<Longrightarrow> ok (nom_take N n buf) =
     (if n \<le> length buf then Some (drop n buf, take n buf) else None)"
  by (auto simp: nom_ok_def result_iff not_le)

text \<open>A concrete library with this behaviour, so that the contract is not empty.\<close>

definition nom_number :: "nat \<Rightarrow> (u8 list \<Rightarrow> 'a) \<Rightarrow> u8 list \<Rightarrow> (u8 list, 'a) iresult" where
  "nom_number n f buf =
     (if length buf < n then Inl buf else Inr (drop n buf, f (take n buf)))"

definition nom_reference :: "u8 list nom" where
  "nom_reference = \<lparr>
     nom_u8 = nom_number 1 hd,
     nom_peek = (\<lambda>p buf. and_then (p buf) (\<lambda>(_, x). Inr (buf, x))),
     nom_be_u16 = nom_number 2 (\<lambda>bs. join16 (bs ! 0) (bs ! 1)),
     nom_le_u16 = nom_number 2 (\<lambda>bs. join16 (bs ! 1) (bs ! 0)),
     nom_le_i16 = nom_number 2 (\<lambda>bs. join16 (bs ! 1) (bs ! 0)),
     nom_le_u32 = nom_number 4 (\<lambda>bs. join32 (bs ! 3) (bs ! 2) (bs ! 1) (bs ! 0)),
     nom_take = (\<lambda>n. nom_number n (\<lambda>bs. bs)),
     nom_failure_count = (\<lambda>buf. buf)\<rparr>"

lemma nom_reference_ok: "nom_ok nom_reference"
  by (auto simp: nom_ok_def nom_reference_def nom_number_def)

section \<open>The \<open>BufMut\<close> writers\<close>

text \<open>Writers of \<open>bytes::BufMut\<close> on a \<open>Vec<u8>\<close>: they append, big-endian unless named \<open>_le\<close>.\<close>

record bytes_lib =
  put_u8 :: "u8 \<Rightarrow> u8 list \<Rightarrow> u8 list"
  put_u16 :: "u16 \<Rightarrow> u8 list \<Rightarrow> u8 list"
  put_u16_le :: "u16 \<Rightarrow> u8 list \<Rightarrow> u8 list"

definition bytes_ok :: "bytes_lib \<Rightarrow> bool" where
  "bytes_ok B \<longleftrightarrow>
     (\<forall>n buf. put_u8 B n buf = buf @ [n]) \<and>
     (\<forall>n buf. put_u16 B n buf = buf @ [hi8 n, lo8 n]) \<and>
     (\<forall>n buf. put_u16_le B n buf = buf @ [lo8 n, hi8 n])"

lemma bytes_puts:
  assumes "bytes_ok B"
  shows "put_u8 B b buf = buf @ [b]"
    and "put_u16 B n buf = buf @ [hi8 n, lo8 n]"
    and "put_u16_le B n buf = buf @ [lo8 n, hi8 n]"
  using assms by (simp_all add: bytes_ok_def)

definition bytes_reference :: bytes_lib where
  "bytes_reference = \<lparr>
     put_u8 = (\<lambda>n buf. buf @ [n]),
     put_u16 = (\<lambda>n buf. buf @ [hi8 n, lo8 n]),
     put_u16_le = (\<lambda>n buf. buf @ [lo8 n, hi8 n])\<rparr>"

lemma bytes_reference_ok: "bytes_ok bytes_reference"
  by (simp add: bytes_ok_def bytes_reference_def)

end
