(* ===== verification/Proto.thy ===== *)
theory Proto
  imports Wire
begin

text \<open>
  The mesh protocol layer, \<open>src/mesh/proto/\<close>: opcodes and messages (\<open>mod.rs\<close>), the
  parsers (\<open>parse.rs\<close>), the writers (\<open>put.rs\<close>) and the packet traits
  (\<open>messages.rs\<close>). A Rust trait is a locale: its required functions are fixed, what its
  callers rely on is assumed, and the default methods' properties are proved inside.
\<close>

section \<open>Addresses and indices\<close>

datatype mesh_addr = MeshAddr (as_u16: u16)

instantiation mesh_addr :: linorder
begin

definition less_eq_mesh_addr :: "mesh_addr \<Rightarrow> mesh_addr \<Rightarrow> bool" where
  "less_eq_mesh_addr a b \<longleftrightarrow> as_u16 a \<le> as_u16 b"

definition less_mesh_addr :: "mesh_addr \<Rightarrow> mesh_addr \<Rightarrow> bool" where
  "less_mesh_addr a b \<longleftrightarrow> as_u16 a < as_u16 b"

instance
  by standard (auto simp: less_eq_mesh_addr_def less_mesh_addr_def mesh_addr.expand)

end

datatype net_index = NetIndex (net_index_val: u16)

datatype app_index = AppIndex (app_index_val: u16)

definition COMPANY_ID :: u16 where
  "COMPANY_ID = 0x05f1"

definition MAIN_APP_INDEX :: app_index where
  "MAIN_APP_INDEX = AppIndex 0"

definition MAIN_NET_INDEX :: net_index where
  "MAIN_NET_INDEX = NetIndex 0"

section \<open>Opcodes, messages, statuses and model identifiers\<close>

datatype opcode = Sig1 u8 | Sig2 u16 | Vendor u8 u16

definition new_vendor :: "u8 \<Rightarrow> u16 \<Rightarrow> opcode" where
  "new_vendor op v = Vendor (0xc0 OR op) v"

record message =
  msg_opcode :: opcode
  msg_payload :: "u8 list"

datatype proto_error = Error_Empty | Error_Malformed

datatype status =
    Success | InvalidAddress | InvalidModel | InvalidAppKeyIndex | InvalidNetKeyIndex
  | InsufficientResources | KeyIndexAlreadyStored | InvalidPublishParameters
  | NotASubscribeModel | StorageFailure | FeatureNotSupported | CannotUpdate | CannotRemove
  | CannotBind | TemporarilyUnableToChangeState | CannotSet | UnspecifiedError
  | InvalidBinding | RFU

text \<open>The derived \<open>FromPrimitive\<close>: the variant with this discriminant, the default otherwise.\<close>

definition status_table :: "(u8 \<times> status) list" where
  "status_table =
     [(0x00, Success), (0x01, InvalidAddress), (0x02, InvalidModel),
      (0x03, InvalidAppKeyIndex), (0x04, InvalidNetKeyIndex),
      (0x05, InsufficientResources), (0x06, KeyIndexAlreadyStored),
      (0x07, InvalidPublishParameters), (0x08, NotASubscribeModel),
      (0x09, StorageFailure), (0x0A, FeatureNotSupported), (0x0B, CannotUpdate),
      (0x0C, CannotRemove), (0x0D, CannotBind), (0x0E, TemporarilyUnableToChangeState),
      (0x0F, CannotSet), (0x10, UnspecifiedError), (0x11, InvalidBinding)]"

definition status_from :: "u8 \<Rightarrow> status" where
  "status_from n = (case map_of status_table n of Some s \<Rightarrow> s | None \<Rightarrow> RFU)"

fun status_is_ok :: "status \<Rightarrow> bool" where
  "status_is_ok Success = True"
| "status_is_ok _ = False"

datatype model_identifier =
    Model_Sig u16
  | Model_Vendor u16 u16

lemma status_is_ok_from: "status_is_ok (status_from n) \<longleftrightarrow> n = 0"
  by (simp add: status_from_def status_table_def)

section \<open>\<open>parse.rs\<close>\<close>

definition parse_all :: "u8 list \<Rightarrow> (u8 list \<Rightarrow> ('e, 'a) iresult) \<Rightarrow> 'a option" where
  "parse_all buf parser =
     (case parser buf of Inr ([], ret) \<Rightarrow> Some ret | _ \<Rightarrow> None)"

definition parse_status :: "'e nom \<Rightarrow> u8 list \<Rightarrow> ('e, status) iresult" where
  "parse_status N buf = and_then (nom_u8 N buf) (\<lambda>(buf, n). Inr (buf, status_from n))"

definition parse_model_identifier :: "'e nom \<Rightarrow> u8 list \<Rightarrow> ('e, model_identifier) iresult" where
  "parse_model_identifier N buf =
     (if length buf = 4 then
        and_then (nom_le_u16 N buf) (\<lambda>(buf, company_id).
        and_then (nom_le_u16 N buf) (\<lambda>(buf, model_id).
        Inr (buf, Model_Vendor company_id model_id)))
      else if length buf = 2 then
        and_then (nom_le_u16 N buf) (\<lambda>(buf, sig_id). Inr (buf, Model_Sig sig_id))
      else Inl (nom_failure_count N buf))"

definition parse_mesh_addr :: "'e nom \<Rightarrow> u8 list \<Rightarrow> ('e, mesh_addr) iresult" where
  "parse_mesh_addr N buf = and_then (nom_le_u16 N buf) (\<lambda>(buf, addr). Inr (buf, MeshAddr addr))"

definition unpack_key_index :: "'e nom \<Rightarrow> u8 list \<Rightarrow> ('e, u16 \<times> u16) iresult" where
  "unpack_key_index N buf =
     and_then (nom_take N 3 buf) (\<lambda>(buf, keys).
       let a = push_bit 4 (ucast (keys ! 1 AND 0xf0)) OR ucast (keys ! 0);
           b = push_bit 4 (ucast (keys ! 2)) OR ucast (keys ! 1 AND 0x0f)
       in Inr (buf, (a, b)))"

definition parse_opcode :: "'e nom \<Rightarrow> u8 list \<Rightarrow> ('e, opcode) iresult" where
  "parse_opcode N buf =
     and_then (nom_peek N (nom_u8 N) buf) (\<lambda>(buf, first).
       if first AND 0xc0 = 0xc0 then
         and_then (nom_u8 N buf) (\<lambda>(buf, code).
         and_then (nom_le_u16 N buf) (\<lambda>(buf, vendor). Inr (buf, Vendor code vendor)))
       else if first AND 0x80 = 0x80 then
         and_then (nom_be_u16 N buf) (\<lambda>(buf, opcode). Inr (buf, Sig2 opcode))
       else
         and_then (nom_u8 N buf) (\<lambda>(buf, opcode). Inr (buf, Sig1 opcode)))"

definition parse_message :: "'e nom \<Rightarrow> u8 list \<Rightarrow> proto_error + message" where
  "parse_message N buf =
     (case parse_opcode N buf of
        Inl _ \<Rightarrow> Inl Error_Malformed
      | Inr (payload, opcode) \<Rightarrow> Inr \<lparr>msg_opcode = opcode, msg_payload = payload\<rparr>)"

section \<open>\<open>put.rs\<close> and \<open>encode\<close>\<close>

fun put_model_id :: "bytes_lib \<Rightarrow> model_identifier \<Rightarrow> u8 list \<Rightarrow> u8 list" where
  "put_model_id B (Model_Sig sig_id) buf = put_u16 B sig_id buf"
| "put_model_id B (Model_Vendor company_id model_id) buf =
     put_u16_le B model_id (put_u16_le B company_id buf)"

definition MESH_PACKET_MAX_SIZE :: nat where
  "MESH_PACKET_MAX_SIZE = 380"

fun put_opcode :: "bytes_lib \<Rightarrow> opcode \<Rightarrow> u8 list \<Rightarrow> u8 list" where
  "put_opcode B (Sig1 n) ret = ret @ [n]"
| "put_opcode B (Sig2 n) ret = put_u16 B n ret"
| "put_opcode B (Vendor code vendor) ret = put_u16_le B vendor (put_u8 B code ret)"

definition encode :: "bytes_lib \<Rightarrow> opcode \<Rightarrow> (u8 list \<Rightarrow> u8 list) \<Rightarrow> panic + u8 list" where
  "encode B opcode put_payload =
     (let ret = put_payload (put_opcode B opcode [])
      in if length ret < MESH_PACKET_MAX_SIZE then Inr ret else Inl Assertion_Failed)"

section \<open>The opcode on the wire\<close>

text \<open>
  The bytes of an opcode, and the opcodes whose first byte says their own form: what
  \<open>parse_opcode\<close> inverts.
\<close>

fun opcode_bytes :: "opcode \<Rightarrow> u8 list" where
  "opcode_bytes (Sig1 n) = [n]"
| "opcode_bytes (Sig2 n) = [hi8 n, lo8 n]"
| "opcode_bytes (Vendor code vendor) = [code, lo8 vendor, hi8 vendor]"

fun canonical_opcode :: "opcode \<Rightarrow> bool" where
  "canonical_opcode (Sig1 n) \<longleftrightarrow> n AND 0x80 = 0"
| "canonical_opcode (Sig2 n) \<longleftrightarrow> hi8 n AND 0xc0 = 0x80"
| "canonical_opcode (Vendor code _) \<longleftrightarrow> code AND 0xc0 = 0xc0"

lemma put_opcode_bytes: "bytes_ok B \<Longrightarrow> put_opcode B op buf = buf @ opcode_bytes op"
  by (cases op) (simp_all add: bytes_puts)

lemma opcode_bits:
  fixes f :: u8
  shows "f AND 0xc0 = 0xc0 \<longleftrightarrow> bit f 7 \<and> bit f 6"
    and "f AND 0x80 = 0x80 \<longleftrightarrow> bit f 7"
    and "f AND 0x80 = 0 \<longleftrightarrow> \<not> bit f 7"
    and "f AND 0xc0 = 0x80 \<longleftrightarrow> bit f 7 \<and> \<not> bit f 6"
  by (auto simp: u8_eq_bits all_less_8 bit_and_iff)

lemma canonical_new_vendor: "canonical_opcode (new_vendor op v)"
  by (simp add: new_vendor_def opcode_bits bit_or_iff)

text \<open>Under the contract of \<open>nom\<close>, each parser as a plain case distinction on the bytes.\<close>

named_theorems parse_simps

lemma ok_parse_status [parse_simps]:
  "nom_ok N \<Longrightarrow> ok (parse_status N buf) =
     (case buf of [] \<Rightarrow> None | b # r \<Rightarrow> Some (r, status_from b))"
  by (simp add: parse_status_def ok_and_then nom_simps split: list.split)

lemma ok_parse_mesh_addr [parse_simps]:
  "nom_ok N \<Longrightarrow> ok (parse_mesh_addr N buf) =
     (case buf of a # b # r \<Rightarrow> Some (r, MeshAddr (join16 b a)) | _ \<Rightarrow> None)"
  by (simp add: parse_mesh_addr_def ok_and_then nom_simps split: list.split)

lemma ok_parse_model_identifier [parse_simps]:
  "nom_ok N \<Longrightarrow> ok (parse_model_identifier N buf) =
     (case buf of
        [a, b, c, d] \<Rightarrow> Some ([], Model_Vendor (join16 b a) (join16 d c))
      | [a, b] \<Rightarrow> Some ([], Model_Sig (join16 b a))
      | _ \<Rightarrow> None)"
  by (auto simp: parse_model_identifier_def ok_and_then nom_simps split: list.splits)

lemma ok_unpack_key_index [parse_simps]:
  "nom_ok N \<Longrightarrow> ok (unpack_key_index N buf) =
     (case buf of
        k0 # k1 # k2 # r \<Rightarrow>
          Some (r, push_bit 4 (ucast (k1 AND 0xf0)) OR ucast k0,
                   push_bit 4 (ucast k2) OR ucast (k1 AND 0x0f))
      | _ \<Rightarrow> None)"
  by (auto simp: unpack_key_index_def ok_and_then nom_simps Let_def numeral_3_eq_3
        split: list.splits)

lemma ok_parse_opcode [parse_simps]:
  "nom_ok N \<Longrightarrow> ok (parse_opcode N buf) =
     (case buf of
        [] \<Rightarrow> None
      | f # r \<Rightarrow>
          if f AND 0xc0 = 0xc0 then
            (case r of a # b # r' \<Rightarrow> Some (r', Vendor f (join16 b a)) | _ \<Rightarrow> None)
          else if f AND 0x80 = 0x80 then
            (case r of a # r' \<Rightarrow> Some (r', Sig2 (join16 f a)) | _ \<Rightarrow> None)
          else Some (r, Sig1 f))"
  by (auto simp: parse_opcode_def ok_and_then nom_simps split: list.splits)

lemma ok_parse_message:
  "ok (parse_message N buf) =
     map_option (\<lambda>(r, op). \<lparr>msg_opcode = op, msg_payload = r\<rparr>) (ok (parse_opcode N buf))"
  by (auto simp: parse_message_def split: sum.split)

lemma parse_all_Some: "parse_all buf p = Some v \<longleftrightarrow> ok (p buf) = Some ([], v)"
  by (auto simp: parse_all_def result_iff split: sum.splits list.splits)

lemma parse_opcode_iff:
  assumes "nom_ok N"
  shows "ok (parse_opcode N buf) = Some (r, op) \<longleftrightarrow>
           canonical_opcode op \<and> buf = opcode_bytes op @ r"
  using assms
  by (cases op) (auto simp: parse_simps opcode_bits split: list.splits if_splits)

lemma parse_message_iff:
  assumes "nom_ok N"
  shows "parse_message N buf = Inr m \<longleftrightarrow>
           canonical_opcode (msg_opcode m) \<and> buf = opcode_bytes (msg_opcode m) @ msg_payload m"
proof -
  have "parse_message N buf = Inr m \<longleftrightarrow>
          ok (parse_opcode N buf) = Some (msg_payload m, msg_opcode m)"
    by (subst ok_Some [symmetric], cases m) (auto simp: ok_parse_message)
  then show ?thesis by (simp add: parse_opcode_iff [OF assms])
qed

section \<open>The packet traits\<close>

text \<open>\<open>Packet\<close>: a packet type has an opcode, one that the opcode parser can read back.\<close>

locale packet =
  fixes packet_opcode :: opcode
  assumes canonical: "canonical_opcode packet_opcode"

text \<open>
  \<open>ToPacket\<close>: the payload writer appends the payload's bytes, and leaves room for the
  longest opcode (three bytes) under the packet size limit.
\<close>

locale to_packet = packet +
  fixes put_payload :: "bytes_lib \<Rightarrow> 'p \<Rightarrow> u8 list \<Rightarrow> u8 list"
    and payload_bytes :: "'p \<Rightarrow> u8 list"
  assumes put_appends: "bytes_ok B \<Longrightarrow> put_payload B p buf = buf @ payload_bytes p"
    and payload_short: "length (payload_bytes p) + 3 < MESH_PACKET_MAX_SIZE"
begin

lemma encode_bytes:
  assumes "bytes_ok B"
  shows "encode B packet_opcode (put_payload B p) = Inr (opcode_bytes packet_opcode @ payload_bytes p)"
proof -
  have "length (opcode_bytes packet_opcode) \<le> 3" by (cases packet_opcode) auto
  with payload_short [of p] show ?thesis
    using assms by (simp add: encode_def put_opcode_bytes put_appends)
qed

lemma encode_parses:
  assumes "bytes_ok B" "nom_ok N" "encode B packet_opcode (put_payload B p) = Inr buf"
  shows "parse_message N buf = Inr \<lparr>msg_opcode = packet_opcode, msg_payload = payload_bytes p\<rparr>"
  using assms by (auto simp: encode_bytes parse_message_iff canonical)

end

text \<open>
  \<open>ParsePacket\<close>: the payload parser accepts exactly the byte strings that are a payload
  of the value it returns.
\<close>

locale parse_packet = packet +
  fixes parse_payload :: "'e nom \<Rightarrow> u8 list \<Rightarrow> 'p option"
    and is_payload :: "'p \<Rightarrow> u8 list \<Rightarrow> bool"
  assumes parse_iff: "nom_ok N \<Longrightarrow> parse_payload N buf = Some p \<longleftrightarrow> is_payload p buf"
begin

lemma payload_unique:
  assumes "nom_ok (N :: 'e nom)" "is_payload p buf" "is_payload q buf"
  shows "p = q"
  using assms parse_iff [of N buf] by (metis option.inject)

lemma parse_from_message:
  assumes "nom_ok N" "is_payload p buf"
  shows "\<exists>m. parse_message N (opcode_bytes packet_opcode @ buf) = Inr m \<and>
             msg_opcode m = packet_opcode \<and> parse_payload N (msg_payload m) = Some p"
  using assms canonical
  by (intro exI [of _ "\<lparr>msg_opcode = packet_opcode, msg_payload = buf\<rparr>"])
     (simp add: parse_message_iff parse_iff)

end

end
