(* ===== verification/Packets.thy ===== *)
theory Packets
  imports Proto
begin

text \<open>
  The packets of \<open>src/mesh/proto/sig.rs\<close> and \<open>src/mesh/proto/vendor.rs\<close>, each an
  instance of the packet traits of \<open>Proto\<close>, and the wire format of their payloads.
\<close>

section \<open>Foundation model packets, \<open>sig.rs\<close>\<close>

record config_model_app_bind =
  bind_element_address :: mesh_addr
  bind_app_key_index :: u16
  bind_model_identifier :: model_identifier

definition ConfigModelAppBind_opcode :: opcode where
  "ConfigModelAppBind_opcode = Sig2 0x803d"

definition ConfigModelAppBind_put_payload ::
    "bytes_lib \<Rightarrow> config_model_app_bind \<Rightarrow> u8 list \<Rightarrow> u8 list" where
  "ConfigModelAppBind_put_payload B self buf =
     (let buf = put_u16_le B (as_u16 (bind_element_address self)) buf;
          buf = put_u16_le B (bind_app_key_index self) buf
      in put_model_id B (bind_model_identifier self) buf)"

definition ConfigModelAppBind_encode :: "bytes_lib \<Rightarrow> config_model_app_bind \<Rightarrow> panic + u8 list" where
  "ConfigModelAppBind_encode B self =
     encode B ConfigModelAppBind_opcode (ConfigModelAppBind_put_payload B self)"

record config_model_app_status =
  mas_status :: status
  mas_element_address :: mesh_addr
  mas_app_key_index :: u16
  mas_model_identifier :: model_identifier

definition ConfigModelAppStatus_opcode :: opcode where
  "ConfigModelAppStatus_opcode = Sig2 0x803e"

definition ConfigModelAppStatus_parse_payload ::
    "'e nom \<Rightarrow> u8 list \<Rightarrow> config_model_app_status option" where
  "ConfigModelAppStatus_parse_payload N buf =
     parse_all buf (\<lambda>buf.
       and_then (parse_status N buf) (\<lambda>(buf, status).
       and_then (parse_mesh_addr N buf) (\<lambda>(buf, element_address).
       and_then (nom_le_u16 N buf) (\<lambda>(buf, app_key_index).
       and_then (parse_model_identifier N buf) (\<lambda>(buf, model_identifier).
       Inr (buf,
         \<lparr>mas_status = status, mas_element_address = element_address,
          mas_app_key_index = app_key_index, mas_model_identifier = model_identifier\<rparr>))))))"

record config_app_key_status =
  aks_status :: status
  aks_net_key_index :: u16
  aks_app_key_index :: u16

definition ConfigAppKeyStatus_opcode :: opcode where
  "ConfigAppKeyStatus_opcode = Sig2 0x8003"

definition ConfigAppKeyStatus_parse_payload ::
    "'e nom \<Rightarrow> u8 list \<Rightarrow> config_app_key_status option" where
  "ConfigAppKeyStatus_parse_payload N buf =
     parse_all buf (\<lambda>buf.
       and_then (parse_status N buf) (\<lambda>(buf, status).
       and_then (unpack_key_index N buf) (\<lambda>(buf, (net_key_index, app_key_index)).
       Inr (buf,
         \<lparr>aks_status = status, aks_net_key_index = net_key_index,
          aks_app_key_index = app_key_index\<rparr>))))"

section \<open>Vendor packets, \<open>vendor.rs\<close>\<close>

datatype ble_ws_read_sensor = BleWsReadSensor

definition BleWsReadSensor_opcode :: opcode where
  "BleWsReadSensor_opcode = new_vendor 0x00 COMPANY_ID"

definition BleWsReadSensor_put_payload ::
    "bytes_lib \<Rightarrow> ble_ws_read_sensor \<Rightarrow> u8 list \<Rightarrow> u8 list" where
  "BleWsReadSensor_put_payload B self buf = buf"

definition BleWsReadSensor_encode :: "bytes_lib \<Rightarrow> panic + u8 list" where
  "BleWsReadSensor_encode B =
     encode B BleWsReadSensor_opcode (BleWsReadSensor_put_payload B BleWsReadSensor)"

record ble_ws_sensor_values =
  bws_temperature :: i16
  bws_humidity :: u16
  bws_pressure :: u32

definition BleWsSensorValues_opcode :: opcode where
  "BleWsSensorValues_opcode = new_vendor 0x01 COMPANY_ID"

definition BleWsSensorValues_parse_payload ::
    "'e nom \<Rightarrow> u8 list \<Rightarrow> ble_ws_sensor_values option" where
  "BleWsSensorValues_parse_payload N buf =
     parse_all buf (\<lambda>buf.
       and_then (nom_le_i16 N buf) (\<lambda>(buf, temperature).
       and_then (nom_le_u16 N buf) (\<lambda>(buf, humidity).
       and_then (nom_le_u32 N buf) (\<lambda>(buf, pressure).
       Inr (buf,
         \<lparr>bws_temperature = temperature, bws_humidity = humidity,
          bws_pressure = pressure\<rparr>)))))"

section \<open>Wire formats\<close>

fun model_id_bytes :: "model_identifier \<Rightarrow> u8 list" where
  "model_id_bytes (Model_Sig n) = [hi8 n, lo8 n]"
| "model_id_bytes (Model_Vendor c m) = [lo8 c, hi8 c, lo8 m, hi8 m]"

fun model_id_read :: "model_identifier \<Rightarrow> u8 list" where
  "model_id_read (Model_Sig n) = [lo8 n, hi8 n]"
| "model_id_read (Model_Vendor c m) = [lo8 c, hi8 c, lo8 m, hi8 m]"

definition app_bind_bytes :: "config_model_app_bind \<Rightarrow> u8 list" where
  "app_bind_bytes p =
     [lo8 (as_u16 (bind_element_address p)), hi8 (as_u16 (bind_element_address p)),
      lo8 (bind_app_key_index p), hi8 (bind_app_key_index p)]
     @ model_id_bytes (bind_model_identifier p)"

definition app_status_payload :: "config_model_app_status \<Rightarrow> u8 list \<Rightarrow> bool" where
  "app_status_payload p buf \<longleftrightarrow>
     (case buf of
        [] \<Rightarrow> False
      | s # rest \<Rightarrow>
          mas_status p = status_from s \<and>
          rest = [lo8 (as_u16 (mas_element_address p)), hi8 (as_u16 (mas_element_address p)),
                  lo8 (mas_app_key_index p), hi8 (mas_app_key_index p)]
                 @ model_id_read (mas_model_identifier p))"

text \<open>Two twelve-bit indices in three bytes, in arithmetic instead of shifts and masks.\<close>

definition key_index_payload :: "u16 \<Rightarrow> u16 \<Rightarrow> u8 \<Rightarrow> u8 \<Rightarrow> u8 \<Rightarrow> bool" where
  "key_index_payload a b k0 k1 k2 \<longleftrightarrow>
     unat a = unat k0 + 256 * (unat k1 div 16) \<and>
     unat b = unat k1 mod 16 + 16 * unat k2"

definition app_key_status_payload :: "config_app_key_status \<Rightarrow> u8 list \<Rightarrow> bool" where
  "app_key_status_payload p buf \<longleftrightarrow>
     (case buf of
        [s, k0, k1, k2] \<Rightarrow>
          aks_status p = status_from s \<and>
          key_index_payload (aks_net_key_index p) (aks_app_key_index p) k0 k1 k2
      | _ \<Rightarrow> False)"

definition sensor_values_bytes :: "ble_ws_sensor_values \<Rightarrow> u8 list" where
  "sensor_values_bytes p =
     [lo8 (bws_temperature p), hi8 (bws_temperature p),
      lo8 (bws_humidity p), hi8 (bws_humidity p),
      byte32 0 (bws_pressure p), byte32 1 (bws_pressure p),
      byte32 2 (bws_pressure p), byte32 3 (bws_pressure p)]"

lemma put_model_id_appends:
  "bytes_ok B \<Longrightarrow> put_model_id B mid buf = buf @ model_id_bytes mid"
  by (cases mid) (simp_all add: bytes_puts)

lemma length_model_id_bytes: "length (model_id_bytes mid) \<le> 4"
  by (cases mid) simp_all

lemma app_bind_put_appends:
  "bytes_ok B \<Longrightarrow> ConfigModelAppBind_put_payload B p buf = buf @ app_bind_bytes p"
  by (simp add: ConfigModelAppBind_put_payload_def app_bind_bytes_def bytes_puts
      put_model_id_appends)

lemma ok_model_id_read:
  "nom_ok N \<Longrightarrow> ok (parse_model_identifier N buf) = Some (r, mid) \<longleftrightarrow> r = [] \<and> buf = model_id_read mid"
  by (cases mid) (auto simp: parse_simps split: list.splits)

lemma app_status_parse_iff:
  assumes "nom_ok N"
  shows "ConfigModelAppStatus_parse_payload N buf = Some p \<longleftrightarrow> app_status_payload p buf"
  using assms
  by (cases p, cases "mas_element_address p", cases "mas_model_identifier p")
     (auto simp: ConfigModelAppStatus_parse_payload_def parse_all_Some ok_and_then parse_simps
        nom_simps app_status_payload_def bind_eq_Some_conv ok_model_id_read
        split: list.splits)

lemma unat_nibbles:
  fixes k0 k1 k2 :: u8
  shows "unat (push_bit 4 (ucast (k1 AND 0xf0)) OR ucast k0 :: u16) = unat k0 + 256 * (unat k1 div 16)"
    and "unat (push_bit 4 (ucast k2) OR ucast (k1 AND 0x0f) :: u16) = unat k1 mod 16 + 16 * unat k2"
proof -
  have m: "k1 AND 0xf0 = push_bit 4 (drop_bit 4 k1)"
    by (auto simp: u8_eq_bits all_less_8 bit_and_iff bit_simps)
  have "push_bit 4 (ucast (k1 AND 0xf0)) OR ucast k0 = join16 (drop_bit 4 k1) k0"
    by (rule bit_word_eqI) (auto simp: m join16_def bit_simps dest: bit_imp_le_length [of k1])
  then show "unat (push_bit 4 (ucast (k1 AND 0xf0)) OR ucast k0 :: u16) = unat k0 + 256 * (unat k1 div 16)"
    by (simp add: unat_join16 unsigned_drop_bit_eq drop_bit_eq_div unat_div)
  have l: "unat (k1 AND 0x0f) = unat k1 mod 16"
  proof -
    have "unat k1 AND 15 = unat k1 AND mask 4" by (simp add: mask_eq_exp_minus_1)
    also have "\<dots> = unat k1 mod 16"
      by (simp add: take_bit_eq_mod flip: take_bit_eq_mask)
    finally show ?thesis by (simp add: unsigned_and_eq)
  qed
  show "unat (push_bit 4 (ucast k2) OR ucast (k1 AND 0x0f) :: u16) = unat k1 mod 16 + 16 * unat k2"
    using unat_push_or [of 4 "k1 AND 0x0f" k2] by (simp add: l)
qed
lemma nibbles_eq:
  fixes k0 k1 k2 :: u8
  shows "push_bit 4 (ucast (k1 AND 0xf0)) OR ucast k0 = a \<longleftrightarrow>
           unat (a :: u16) = unat k0 + 256 * (unat k1 div 16)"
    and "push_bit 4 (ucast k2) OR ucast (k1 AND 0x0f) = b \<longleftrightarrow>
           unat (b :: u16) = unat k1 mod 16 + 16 * unat k2"
  by (auto simp flip: unat_nibbles simp: word_unat_eq_iff)

lemma app_key_status_parse_iff:
  assumes "nom_ok N"
  shows "ConfigAppKeyStatus_parse_payload N buf = Some p \<longleftrightarrow> app_key_status_payload p buf"
  using assms
  by (cases p)
     (auto simp: ConfigAppKeyStatus_parse_payload_def parse_all_Some ok_and_then parse_simps
        app_key_status_payload_def key_index_payload_def bind_eq_Some_conv nibbles_eq
        split: list.splits)

lemma sensor_values_parse_iff:
  assumes "nom_ok N"
  shows "BleWsSensorValues_parse_payload N buf = Some p \<longleftrightarrow> buf = sensor_values_bytes p"
  using assms
  by (cases p)
     (auto simp: BleWsSensorValues_parse_payload_def parse_all_Some ok_and_then nom_simps
        sensor_values_bytes_def bind_eq_Some_conv join32_split [simplified] split: list.splits)

lemmas opcode_defs = ConfigModelAppBind_opcode_def ConfigModelAppStatus_opcode_def
  ConfigAppKeyStatus_opcode_def BleWsReadSensor_opcode_def BleWsSensorValues_opcode_def

lemma packet_opcodes_canonical:
  "canonical_opcode ConfigModelAppBind_opcode"
  "canonical_opcode ConfigModelAppStatus_opcode"
  "canonical_opcode ConfigAppKeyStatus_opcode"
  "canonical_opcode BleWsReadSensor_opcode"
  "canonical_opcode BleWsSensorValues_opcode"
  by (simp_all add: opcode_defs canonical_new_vendor hi8_def)

interpretation app_bind: to_packet ConfigModelAppBind_opcode ConfigModelAppBind_put_payload app_bind_bytes
proof unfold_locales
  fix p
  show "length (app_bind_bytes p) + 3 < MESH_PACKET_MAX_SIZE"
    using length_model_id_bytes [of "bind_model_identifier p"]
    by (simp add: app_bind_bytes_def MESH_PACKET_MAX_SIZE_def)
qed (simp_all add: packet_opcodes_canonical app_bind_put_appends)

interpretation read_sensor: to_packet BleWsReadSensor_opcode BleWsReadSensor_put_payload "\<lambda>_. []"
  by unfold_locales
     (simp_all add: packet_opcodes_canonical BleWsReadSensor_put_payload_def MESH_PACKET_MAX_SIZE_def)

interpretation app_status: parse_packet ConfigModelAppStatus_opcode
    ConfigModelAppStatus_parse_payload app_status_payload
  by unfold_locales (simp_all add: packet_opcodes_canonical app_status_parse_iff)

interpretation app_key_status: parse_packet ConfigAppKeyStatus_opcode
    ConfigAppKeyStatus_parse_payload app_key_status_payload
  by unfold_locales (simp_all add: packet_opcodes_canonical app_key_status_parse_iff)

interpretation sensor_values: parse_packet BleWsSensorValues_opcode
    BleWsSensorValues_parse_payload "\<lambda>p buf. buf = sensor_values_bytes p"
  by unfold_locales (simp_all add: packet_opcodes_canonical sensor_values_parse_iff)

section \<open>Properties of the protocol layer\<close>

text \<open>
  C19: Parsing a message is lossless and exact: a buffer parses as a message precisely when it is
  the bytes of an opcode whose leading bits announce its own form, followed by the payload.
\<close>

theorem message_parse_exact:
  assumes "nom_ok N"
  shows "parse_message N buf = Inr m \<longleftrightarrow>
           canonical_opcode (msg_opcode m) \<and> buf = opcode_bytes (msg_opcode m) @ msg_payload m"
  using assms by (rule parse_message_iff)

theorem message_parse_exact_witness:
  "parse_message nom_reference [0xc1, 0xf1, 0x05, 7]
     = Inr \<lparr>msg_opcode = BleWsSensorValues_opcode, msg_payload = [7]\<rparr>"
  using message_parse_exact [OF nom_reference_ok, of "[0xc1, 0xf1, 0x05, 7]"
      "\<lparr>msg_opcode = BleWsSensorValues_opcode, msg_payload = [7]\<rparr>"]
  by (simp add: packet_opcodes_canonical,
      simp add: BleWsSensorValues_opcode_def new_vendor_def COMPANY_ID_def lo8_def hi8_def)

text \<open>
  A buffer is refused exactly when it is too short for the opcode form its first byte
  announces, the empty buffer included, and the error is always \<open>Malformed\<close>:
  \<open>Error::Empty\<close> is never returned.
\<close>

lemma message_parse_error:
  assumes "nom_ok N"
  shows "parse_message N buf = Inl e \<longleftrightarrow>
           e = Error_Malformed \<and>
           length buf < (if buf = [] then 1
                         else if hd buf AND 0xc0 = 0xc0 then 3
                         else if hd buf AND 0x80 = 0x80 then 2 else 1)"
proof -
  have "parse_message N buf = Inl e \<longleftrightarrow> e = Error_Malformed \<and> ok (parse_opcode N buf) = None"
    by (cases "parse_opcode N buf") (auto simp: parse_message_def)
  also have "ok (parse_opcode N buf) = None \<longleftrightarrow>
      length buf < (if buf = [] then 1 else if hd buf AND 0xc0 = 0xc0 then 3
                    else if hd buf AND 0x80 = 0x80 then 2 else 1)"
    using assms by (auto simp: ok_parse_opcode split: list.split)
  finally show ?thesis .
qed

text \<open>
  C37: Encoding never fails the size assertion, and what is encoded parses back: a request to
  bind a model to an application key is read as opcode 0x803d with the payload that was
  written, and the sensor read request is the three bytes c0 f1 05.
\<close>

theorem encoded_packets_parse:
  assumes "bytes_ok B" and "nom_ok N"
  shows "(\<exists>buf. ConfigModelAppBind_encode B p = Inr buf \<and>
            parse_message N buf =
              Inr \<lparr>msg_opcode = ConfigModelAppBind_opcode, msg_payload = app_bind_bytes p\<rparr>) \<and>
         BleWsReadSensor_encode B = Inr [0xc0, 0xf1, 0x05] \<and>
         parse_message N [0xc0, 0xf1, 0x05] =
           Inr \<lparr>msg_opcode = BleWsReadSensor_opcode, msg_payload = []\<rparr>"
proof (intro conjI)
  have bind: "ConfigModelAppBind_encode B p = Inr (opcode_bytes ConfigModelAppBind_opcode @ app_bind_bytes p)"
    unfolding ConfigModelAppBind_encode_def by (rule app_bind.encode_bytes [OF assms(1)])
  from app_bind.encode_parses [OF assms bind [unfolded ConfigModelAppBind_encode_def]] bind
  show "\<exists>buf. ConfigModelAppBind_encode B p = Inr buf \<and>
          parse_message N buf =
            Inr \<lparr>msg_opcode = ConfigModelAppBind_opcode, msg_payload = app_bind_bytes p\<rparr>"
    by blast
  have bytes: "opcode_bytes BleWsReadSensor_opcode = [0xc0, 0xf1, 0x05]"
    by (simp add: BleWsReadSensor_opcode_def new_vendor_def COMPANY_ID_def lo8_def hi8_def)
  show read: "BleWsReadSensor_encode B = Inr [0xc0, 0xf1, 0x05]"
    using read_sensor.encode_bytes [OF assms(1)] by (simp add: BleWsReadSensor_encode_def bytes)
  show "parse_message N [0xc0, 0xf1, 0x05] =
          Inr \<lparr>msg_opcode = BleWsReadSensor_opcode, msg_payload = []\<rparr>"
    using read_sensor.encode_parses [OF assms read [unfolded BleWsReadSensor_encode_def]] by simp
qed

theorem encoded_packets_parse_witness:
  "BleWsReadSensor_encode bytes_reference = Inr [0xc0, 0xf1, 0x05]"
  using encoded_packets_parse [OF bytes_reference_ok nom_reference_ok] by blast

text \<open>
  A sensor report is accepted exactly when it is the eight little-endian bytes of its
  temperature, humidity and pressure: nothing shorter, longer or ambiguous.
\<close>

lemma sensor_values_exact:
  assumes "nom_ok N"
  shows "BleWsSensorValues_parse_payload N buf = Some p \<longleftrightarrow> buf = sensor_values_bytes p"
  using assms by (rule sensor_values.parse_iff)

text \<open>
  An application key status is accepted exactly when it is four bytes long. Its first index
  is the first index byte with the high nibble of the middle byte above it, its second the low
  nibble of the middle byte with the last byte above it: both are twelve-bit numbers.
\<close>

lemma app_key_status_decodes:
  assumes "nom_ok N"
  shows "(ConfigAppKeyStatus_parse_payload N buf = Some p \<longleftrightarrow>
            (\<exists>s k0 k1 k2. buf = [s, k0, k1, k2] \<and> aks_status p = status_from s \<and>
               unat (aks_net_key_index p) = unat k0 + 256 * (unat k1 div 16) \<and>
               unat (aks_app_key_index p) = unat k1 mod 16 + 16 * unat k2)) \<and>
         ((\<exists>q. ConfigAppKeyStatus_parse_payload N buf = Some q) \<longleftrightarrow> length buf = 4)"
proof
  have iff: "ConfigAppKeyStatus_parse_payload N b = Some q \<longleftrightarrow> app_key_status_payload q b" for b q
    using assms by (rule app_key_status.parse_iff)
  have four: "app_key_status_payload q buf \<longleftrightarrow>
      (\<exists>s k0 k1 k2. buf = [s, k0, k1, k2] \<and> aks_status q = status_from s \<and>
         key_index_payload (aks_net_key_index q) (aks_app_key_index q) k0 k1 k2)" for q
    by (simp add: app_key_status_payload_def split: list.split)
  show "ConfigAppKeyStatus_parse_payload N buf = Some p \<longleftrightarrow>
          (\<exists>s k0 k1 k2. buf = [s, k0, k1, k2] \<and> aks_status p = status_from s \<and>
             unat (aks_net_key_index p) = unat k0 + 256 * (unat k1 div 16) \<and>
             unat (aks_app_key_index p) = unat k1 mod 16 + 16 * unat k2)"
    by (simp add: iff four key_index_payload_def)
  have total: "\<exists>q. ConfigAppKeyStatus_parse_payload N [t, i0, i1, i2] = Some q" for t i0 i1 i2
    using assms
    by (simp add: ConfigAppKeyStatus_parse_payload_def parse_all_Some ok_and_then parse_simps)
  have "length buf = 4 \<longleftrightarrow> (\<exists>t i0 i1 i2. buf = [t, i0, i1, i2])"
    by (auto simp: numeral_eq_Suc length_Suc_conv)
  then show "(\<exists>q. ConfigAppKeyStatus_parse_payload N buf = Some q) \<longleftrightarrow> length buf = 4"
  proof -
    assume len: "length buf = 4 \<longleftrightarrow> (\<exists>t i0 i1 i2. buf = [t, i0, i1, i2])"
    have "length buf = 4" if "ConfigAppKeyStatus_parse_payload N buf = Some q" for q
      using that unfolding iff four len by blast
    moreover have "\<exists>q. ConfigAppKeyStatus_parse_payload N buf = Some q" if "length buf = 4"
      using that total unfolding len by auto
    ultimately show ?thesis by blast
  qed
qed

text \<open>
  C38: A vendor model identifier survives being written and read back; a SIG model identifier
  comes back with its two bytes swapped, because it is written big-endian and read
  little-endian.
\<close>

theorem model_identifier_written_and_read:
  assumes "bytes_ok B" and "nom_ok N"
  shows "ok (parse_model_identifier N (put_model_id B mid [])) =
           Some ([], case mid of
                       Model_Vendor c m \<Rightarrow> Model_Vendor c m
                     | Model_Sig n \<Rightarrow> Model_Sig (join16 (lo8 n) (hi8 n)))"
  using assms by (cases mid) (simp_all add: bytes_puts ok_parse_model_identifier)

theorem model_identifier_written_and_read_witness:
  "ok (parse_model_identifier nom_reference (put_model_id bytes_reference (Model_Sig 0x1100) []))
     = Some ([], Model_Sig 0x0011)"
  using model_identifier_written_and_read [OF bytes_reference_ok nom_reference_ok, of "Model_Sig 0x1100"]
  by (simp add: lo8_def hi8_def join16_def)

end
