(* ===== verification/Message_Queue.thy ===== *)
theory Message_Queue
  imports Packets
begin

text \<open>
  The message queue, \<open>src/mesh/message_queue.rs\<close>: filters, stored messages, waiting
  subscribers and the task that serves both channels, as a step function that may panic.
  Channel ends are values of a type \<open>'c\<close>; whether a send finds its receiver alive is an
  argument of the step that sends. What is sent is the step's output.
\<close>

section \<open>Messages\<close>

datatype message_meta =
    Meta_Device mesh_addr net_index
  | Meta_Normal mesh_addr app_index

datatype message_kind = Kind_Device | Kind_Normal

text \<open>\<open>'t\<close> is \<open>ble_ws_api::data::Timestamp\<close>; the current time is an argument.\<close>

record 't generic_message =
  gm_source_addr :: mesh_addr
  gm_received :: 't
  gm_kind :: message_kind
  gm_content :: message
  gm_index :: u16

fun GenericMessage_new :: "'t \<Rightarrow> message \<Rightarrow> message_meta \<Rightarrow> 't generic_message" where
  "GenericMessage_new now msg (Meta_Device source_addr net_index) =
     \<lparr>gm_source_addr = source_addr, gm_received = now, gm_kind = Kind_Device,
      gm_content = msg, gm_index = net_index_val net_index\<rparr>"
| "GenericMessage_new now msg (Meta_Normal source_addr app_index) =
     \<lparr>gm_source_addr = source_addr, gm_received = now, gm_kind = Kind_Normal,
      gm_content = msg, gm_index = app_index_val app_index\<rparr>"

section \<open>Filters\<close>

record generic_filter =
  gf_source_addr :: "mesh_addr option"
  gf_index :: "u16 option"
  gf_opcode :: "opcode option"
  gf_kind :: message_kind

text \<open>A field of a filter that is present and differs from the message's rejects it.\<close>

fun rejects :: "'a option \<Rightarrow> 'a \<Rightarrow> bool" where
  "rejects (Some a) b = (a \<noteq> b)"
| "rejects None b = False"

definition is_match :: "generic_filter \<Rightarrow> 't generic_message \<Rightarrow> bool" where
  "is_match f m =
     (if gm_kind m = gf_kind f then
        if rejects (gf_source_addr f) (gm_source_addr m) then False
        else if rejects (gf_opcode f) (msg_opcode (gm_content m)) then False
        else if rejects (gf_index f) (gm_index m) then False
        else True
      else False)"

record dev_filter =
  df_source_addr :: "mesh_addr option"
  df_net_index :: "net_index option"
  df_opcode :: "opcode option"

definition DevFilter_default :: dev_filter where
  "DevFilter_default = \<lparr>df_source_addr = None, df_net_index = None, df_opcode = None\<rparr>"

definition DevFilter_source_addr :: "mesh_addr \<Rightarrow> dev_filter \<Rightarrow> dev_filter" where
  "DevFilter_source_addr a f = f\<lparr>df_source_addr := Some a\<rparr>"

definition DevFilter_net_index :: "net_index \<Rightarrow> dev_filter \<Rightarrow> dev_filter" where
  "DevFilter_net_index i f = f\<lparr>df_net_index := Some i\<rparr>"

definition DevFilter_opcode :: "opcode \<Rightarrow> dev_filter \<Rightarrow> dev_filter" where
  "DevFilter_opcode op f = f\<lparr>df_opcode := Some op\<rparr>"

definition generic_of_dev :: "dev_filter \<Rightarrow> generic_filter" where
  "generic_of_dev f =
     \<lparr>gf_source_addr = df_source_addr f, gf_index = map_option net_index_val (df_net_index f),
      gf_opcode = df_opcode f, gf_kind = Kind_Device\<rparr>"

record app_filter =
  af_source_addr :: "mesh_addr option"
  af_app_index :: "app_index option"
  af_opcode :: "opcode option"

definition Filter_default :: app_filter where
  "Filter_default = \<lparr>af_source_addr = None, af_app_index = None, af_opcode = None\<rparr>"

definition Filter_source_addr :: "mesh_addr \<Rightarrow> app_filter \<Rightarrow> app_filter" where
  "Filter_source_addr a f = f\<lparr>af_source_addr := Some a\<rparr>"

definition Filter_app_index :: "app_index \<Rightarrow> app_filter \<Rightarrow> app_filter" where
  "Filter_app_index i f = f\<lparr>af_app_index := Some i\<rparr>"

definition Filter_opcode :: "opcode \<Rightarrow> app_filter \<Rightarrow> app_filter" where
  "Filter_opcode op f = f\<lparr>af_opcode := Some op\<rparr>"

definition generic_of_filter :: "app_filter \<Rightarrow> generic_filter" where
  "generic_of_filter f =
     \<lparr>gf_source_addr = af_source_addr f, gf_index = map_option app_index_val (af_app_index f),
      gf_opcode = af_opcode f, gf_kind = Kind_Normal\<rparr>"

text \<open>The indices an iterator over the matching messages yields, in order.\<close>

fun iter_filter_from :: "nat \<Rightarrow> generic_filter \<Rightarrow> 't generic_message list \<Rightarrow> nat list" where
  "iter_filter_from i f [] = []"
| "iter_filter_from i f (m # ms) =
     (if is_match f m then i # iter_filter_from (Suc i) f ms else iter_filter_from (Suc i) f ms)"

definition iter_filter :: "generic_filter \<Rightarrow> 't generic_message list \<Rightarrow> nat list" where
  "iter_filter f ms = iter_filter_from 0 f ms"

section \<open>The slot maps\<close>

datatype 'c subscriber = Oneshot "'c option" | Stream 'c

text \<open>
  \<open>slotmap\<close> is not part of the repository. The operations the queue uses on its
  \<open>DenseSlotMap\<close> of filters and its \<open>SecondaryMap\<close> of subscribers are the fields of
  a record. \<open>slots_paired m s\<close> says that the keys stored in \<open>s\<close> were all issued by
  \<open>m\<close> or an earlier state of it, which is how a secondary map is meant to be used.
\<close>

record ('k, 'm, 's, 'c) slots =
  filters_new :: 'm
  filters_insert :: "'m \<Rightarrow> generic_filter \<Rightarrow> 'k \<times> 'm"
  filters_iter :: "'m \<Rightarrow> ('k \<times> generic_filter) list"
  filters_remove :: "'m \<Rightarrow> 'k \<Rightarrow> 'm"
  subs_new :: 's
  subs_insert :: "'s \<Rightarrow> 'k \<Rightarrow> 'c subscriber \<Rightarrow> 's"
  subs_get :: "'s \<Rightarrow> 'k \<Rightarrow> 'c subscriber option"
  subs_remove :: "'s \<Rightarrow> 'k \<Rightarrow> 's"
  slots_paired :: "'m \<Rightarrow> 's \<Rightarrow> bool"

text \<open>
  The documented behaviour: inserting issues a key that is not in the map, iteration visits
  every entry once in no particular order, and a secondary map keeps the last value stored
  under each live key.
\<close>

definition slots_ok :: "('k, 'm, 's, 'c) slots \<Rightarrow> bool" where
  "slots_ok L \<longleftrightarrow>
     slots_paired L (filters_new L) (subs_new L) \<and> filters_iter L (filters_new L) = [] \<and>
     (\<forall>m s. slots_paired L m s \<longrightarrow> distinct (List.map fst (filters_iter L m))) \<and>
     (\<forall>m s f k m'. slots_paired L m s \<longrightarrow> filters_insert L m f = (k, m') \<longrightarrow>
        slots_paired L m' s \<and> k \<notin> fst ` set (filters_iter L m) \<and>
        set (filters_iter L m') = insert (k, f) (set (filters_iter L m))) \<and>
     (\<forall>m s k. slots_paired L m s \<longrightarrow>
        slots_paired L (filters_remove L m k) s \<and>
        set (filters_iter L (filters_remove L m k)) = {e \<in> set (filters_iter L m). fst e \<noteq> k}) \<and>
     (\<forall>m s k v. slots_paired L m s \<longrightarrow> k \<in> fst ` set (filters_iter L m) \<longrightarrow>
        slots_paired L m (subs_insert L s k v) \<and> subs_get L (subs_insert L s k v) k = Some v \<and>
        (\<forall>k' \<in> fst ` set (filters_iter L m). k' \<noteq> k \<longrightarrow>
           subs_get L (subs_insert L s k v) k' = subs_get L s k')) \<and>
     (\<forall>m s k. slots_paired L m s \<longrightarrow>
        slots_paired L m (subs_remove L s k) \<and>
        (\<forall>k'. k' \<noteq> k \<longrightarrow> subs_get L (subs_remove L s k) k' = subs_get L s k'))"

section \<open>The queue's state and its task\<close>

record ('m, 's, 't) queue_state =
  qs_messages :: "'t generic_message list"
  qs_filters :: 'm
  qs_subscribers :: 's

definition queue_default :: "('k, 'm, 's, 'c) slots \<Rightarrow> ('m, 's, 't) queue_state" where
  "queue_default L =
     \<lparr>qs_messages = [], qs_filters = filters_new L, qs_subscribers = subs_new L\<rparr>"

type_synonym ('c, 't) outputs = "('c \<times> 't generic_message) list"

type_synonym ('c, 't) send_result = "'c \<Rightarrow> 't generic_message \<Rightarrow> bool"

definition try_pull_one ::
    "('c, 't) send_result \<Rightarrow> 'c option \<Rightarrow> generic_filter \<Rightarrow> ('m, 's, 't) queue_state \<Rightarrow>
     panic + bool \<times> 'c option \<times> ('m, 's, 't) queue_state \<times> ('c, 't) outputs" where
  "try_pull_one send_ok tx_cell flt st =
     (case iter_filter flt (qs_messages st) of
        [] \<Rightarrow> Inr (False, tx_cell, st, [])
      | index # _ \<Rightarrow>
          and_then (vec_remove index (qs_messages st)) (\<lambda>(msg, messages).
            case tx_cell of
              None \<Rightarrow> Inl Unwrap_Failed
            | Some tx \<Rightarrow>
                if send_ok tx msg
                then Inr (True, None, st\<lparr>qs_messages := messages\<rparr>, [(tx, msg)])
                else Inr (False, None, st\<lparr>qs_messages := messages @ [msg]\<rparr>, [])))"

fun pull_indexes ::
    "('c, 't) send_result \<Rightarrow> 'c \<Rightarrow> nat list \<Rightarrow> 't generic_message list \<Rightarrow>
     panic + 't generic_message list \<times> ('c, 't) outputs" where
  "pull_indexes send_ok tx [] messages = Inr (messages, [])"
| "pull_indexes send_ok tx (index # indexes) messages =
     and_then (vec_remove index messages) (\<lambda>(msg, messages).
       if send_ok tx msg
       then and_then (pull_indexes send_ok tx indexes messages) (\<lambda>(messages, outs).
              Inr (messages, (tx, msg) # outs))
       else Inl (Todo ''Retry logic in try_pull_many''))"

definition try_pull_many ::
    "('c, 't) send_result \<Rightarrow> 'c \<Rightarrow> generic_filter \<Rightarrow> ('m, 's, 't) queue_state \<Rightarrow>
     panic + ('m, 's, 't) queue_state \<times> ('c, 't) outputs" where
  "try_pull_many send_ok tx flt st =
     (let indexes = iter_filter flt (qs_messages st)
      in and_then (pull_indexes send_ok tx indexes (qs_messages st)) (\<lambda>(messages, outs).
           Inr (st\<lparr>qs_messages := messages\<rparr>, outs)))"

definition add_subscriber ::
    "('k, 'm, 's, 'c) slots \<Rightarrow> generic_filter \<Rightarrow> 'c subscriber \<Rightarrow>
     ('m, 's, 't) queue_state \<Rightarrow> ('m, 's, 't) queue_state" where
  "add_subscriber L flt sub st =
     (let (key, filters) = filters_insert L (qs_filters st) flt
      in st\<lparr>qs_filters := filters, qs_subscribers := subs_insert L (qs_subscribers st) key sub\<rparr>)"

definition match_filter ::
    "('k, 'm, 's, 'c) slots \<Rightarrow> ('m, 's, 't) queue_state \<Rightarrow> 't generic_message \<Rightarrow> 'k option" where
  "match_filter L st msg =
     map_option fst (List.find (\<lambda>(_, flt). is_match flt msg) (filters_iter L (qs_filters st)))"

definition remove_subscriber ::
    "('k, 'm, 's, 'c) slots \<Rightarrow> 'k \<Rightarrow> ('m, 's, 't) queue_state \<Rightarrow> ('m, 's, 't) queue_state" where
  "remove_subscriber L index st =
     st\<lparr>qs_subscribers := subs_remove L (qs_subscribers st) index,
        qs_filters := filters_remove L (qs_filters st) index\<rparr>"

text \<open>
  One turn of the task's \<open>select!\<close>: a subscription or a message, with the results of
  the sends it makes.
\<close>

datatype ('c, 't) queue_event =
    Subscribe (sends: "('c, 't) send_result") generic_filter "'c subscriber"
  | Incoming (sends: "('c, 't) send_result") "'t generic_message"

fun queue_step ::
    "('k, 'm, 's, 'c) slots \<Rightarrow> ('m, 's, 't) queue_state \<Rightarrow> ('c, 't) queue_event \<Rightarrow>
     panic + ('m, 's, 't) queue_state \<times> ('c, 't) outputs" where
  "queue_step L st (Subscribe send_ok flt chan) =
     (case chan of
        Oneshot tx \<Rightarrow>
          and_then (try_pull_one send_ok tx flt st) (\<lambda>(pulled, tx, st, outs).
            if pulled then Inr (st, outs)
            else Inr (add_subscriber L flt (Oneshot tx) st, outs))
      | Stream tx \<Rightarrow>
          and_then (try_pull_many send_ok tx flt st) (\<lambda>(st, outs).
            Inr (add_subscriber L flt (Stream tx) st, outs)))"
| "queue_step L st (Incoming send_ok msg) =
     (case match_filter L st msg of
        None \<Rightarrow> Inr (st\<lparr>qs_messages := qs_messages st @ [msg]\<rparr>, [])
      | Some index \<Rightarrow>
          (case subs_get L (qs_subscribers st) index of
             None \<Rightarrow> Inl (Expect_Failed ''Inconsistent state'')
           | Some (Oneshot None) \<Rightarrow> Inl (Expect_Failed ''Reusing oneshot tx'')
           | Some (Oneshot (Some tx)) \<Rightarrow>
               if send_ok tx msg then Inr (remove_subscriber L index st, [(tx, msg)])
               else Inl (Todo ''Closed tx, need to implement retry logic looping over filters'')
           | Some (Stream tx) \<Rightarrow>
               if send_ok tx msg then Inr (st, [(tx, msg)])
               else Inl (Todo ''Closed tx, need to implement retry logic looping over filters'')))"

section \<open>The clients' side\<close>

text \<open>
  \<open>push_msg\<close> panics when the task is gone; \<open>pull_msg\<close> narrows the filter to the
  packet's opcode, waits for one message and parses its payload; \<open>subscribe\<close> registers
  a stream.
\<close>

definition push_msg ::
    "bool \<Rightarrow> ('c, 't) send_result \<Rightarrow> 't \<Rightarrow> message \<Rightarrow> message_meta \<Rightarrow> panic + ('c, 't) queue_event" where
  "push_msg task_alive send_ok now msg meta =
     (if task_alive then Inr (Incoming send_ok (GenericMessage_new now msg meta))
      else Inl Unwrap_Failed)"

definition pull_msg_request ::
    "bool \<Rightarrow> ('c, 't) send_result \<Rightarrow> opcode \<Rightarrow> generic_filter \<Rightarrow> 'c \<Rightarrow> panic + ('c, 't) queue_event" where
  "pull_msg_request task_alive send_ok opcode flt tx =
     (if task_alive
      then Inr (Subscribe send_ok (flt\<lparr>gf_opcode := Some opcode\<rparr>) (Oneshot (Some tx)))
      else Inl (Expect_Failed ''Message queue crashed''))"

definition pull_msg_reply ::
    "(u8 list \<Rightarrow> 'p option) \<Rightarrow> 't generic_message option \<Rightarrow> panic + (mesh_addr \<times> 'p) option" where
  "pull_msg_reply parse_payload received =
     (case received of
        None \<Rightarrow> Inl Unwrap_Failed
      | Some msg \<Rightarrow>
          Inr (map_option (\<lambda>ret. (gm_source_addr msg, ret))
                 (parse_payload (msg_payload (gm_content msg)))))"

definition subscribe_request ::
    "bool \<Rightarrow> ('c, 't) send_result \<Rightarrow> generic_filter \<Rightarrow> 'c \<Rightarrow> panic + ('c, 't) queue_event" where
  "subscribe_request task_alive send_ok flt tx =
     (if task_alive then Inr (Subscribe send_ok flt (Stream tx))
      else Inl (Expect_Failed ''Message queue crashed''))"

end
