(* ===== verification/Sensor.thy ===== *)
theory Sensor
  imports Packets Message_Queue
begin

text \<open>
  Sensor values and states (\<open>src/sensor.rs\<close>) and the conversion of a received report
  (\<open>convert_msg_to_values\<close> in \<open>src/mesh/mod.rs\<close>). The measurement types of the
  \<open>ble-ws-api\<close> crate are not part of the repository: their conversions are the fields of
  a record.
\<close>

record ('tm, 'c, 'p, 'h) api =
  timestamp_from :: "u32 \<Rightarrow> 'tm"
  timestamp_as_u32 :: "'tm \<Rightarrow> u32"
  celsius_try_from :: "i16 \<Rightarrow> 'c option"
  celsius_as_i16 :: "'c \<Rightarrow> i16"
  pascal_from :: "u32 \<Rightarrow> 'p"
  pascal_as_u32 :: "'p \<Rightarrow> u32"
  humidity_try_from :: "u16 \<Rightarrow> 'h option"
  humidity_as_u16 :: "'h \<Rightarrow> u16"

text \<open>The conversions out of a measurement give back the number it was made from.\<close>

definition api_ok :: "('tm, 'c, 'p, 'h) api \<Rightarrow> bool" where
  "api_ok A \<longleftrightarrow>
     (\<forall>n. timestamp_as_u32 A (timestamp_from A n) = n) \<and>
     (\<forall>n c. celsius_try_from A n = Some c \<longrightarrow> celsius_as_i16 A c = n) \<and>
     (\<forall>n. pascal_as_u32 A (pascal_from A n) = n) \<and>
     (\<forall>n h. humidity_try_from A n = Some h \<longrightarrow> humidity_as_u16 A h = n)"

text \<open>A concrete instance: numbers themselves, temperatures and humidities in a range.\<close>

definition api_reference :: "(u32, i16, u32, u16) api" where
  "api_reference = \<lparr>
     timestamp_from = (\<lambda>n. n), timestamp_as_u32 = (\<lambda>n. n),
     celsius_try_from = (\<lambda>n. if - 27315 \<le> sint n then Some n else None), celsius_as_i16 = (\<lambda>n. n),
     pascal_from = (\<lambda>n. n), pascal_as_u32 = (\<lambda>n. n),
     humidity_try_from = (\<lambda>n. if n \<le> 10000 then Some n else None), humidity_as_u16 = (\<lambda>n. n)\<rparr>"

lemma api_reference_ok: "api_ok api_reference"
  by (auto simp: api_ok_def api_reference_def split: if_splits)

section \<open>\<open>sensor.rs\<close>\<close>

record ('tm, 'c, 'p, 'h) sensor_values =
  sv_timestamp :: 'tm
  sv_temperature :: 'c
  sv_pressure :: 'p
  sv_humidity :: 'h

datatype 'v sensor_state = Connected 'v | Unconnected

record raw_sensor_values =
  raw_temperature :: i16
  raw_humidity :: u16
  raw_pressure :: u32

definition raw_from :: "('tm, 'c, 'p, 'h) api \<Rightarrow> ('tm, 'c, 'p, 'h) sensor_values \<Rightarrow> raw_sensor_values" where
  "raw_from A values =
     \<lparr>raw_temperature = celsius_as_i16 A (sv_temperature values),
      raw_humidity = humidity_as_u16 A (sv_humidity values),
      raw_pressure = pascal_as_u32 A (sv_pressure values)\<rparr>"

section \<open>Received reports\<close>

datatype conversion_error = Invalid_Payload | Invalid_Temperature | Invalid_Humidity

definition convert_msg_to_values ::
    "'e nom \<Rightarrow> ('tm, 'c, 'p, 'h) api \<Rightarrow> 'tm generic_message \<Rightarrow>
     conversion_error + ('tm, 'c, 'p, 'h) sensor_values" where
  "convert_msg_to_values N A msg =
     (case BleWsSensorValues_parse_payload N (msg_payload (gm_content msg)) of
        None \<Rightarrow> Inl Invalid_Payload
      | Some p \<Rightarrow>
          (case celsius_try_from A (bws_temperature p) of
             None \<Rightarrow> Inl Invalid_Temperature
           | Some temperature \<Rightarrow>
               (case humidity_try_from A (bws_humidity p) of
                  None \<Rightarrow> Inl Invalid_Humidity
                | Some humidity \<Rightarrow>
                    Inr \<lparr>sv_timestamp = gm_received msg, sv_temperature = temperature,
                         sv_pressure = pascal_from A (bws_pressure p),
                         sv_humidity = humidity\<rparr>)))"

text \<open>
  C32: A report is stored as it was measured: when a message converts, the numbers that reach the
  database are exactly the eight payload bytes of the message, and its time is the time the
  message was received.
\<close>

theorem converted_report_is_payload:
  assumes "nom_ok N" and "api_ok A" and "convert_msg_to_values N A msg = Inr values"
  shows "msg_payload (gm_content msg) =
           sensor_values_bytes
             \<lparr>bws_temperature = raw_temperature (raw_from A values),
              bws_humidity = raw_humidity (raw_from A values),
              bws_pressure = raw_pressure (raw_from A values)\<rparr> \<and>
         sv_timestamp values = gm_received msg"
proof -
  obtain p where p: "BleWsSensorValues_parse_payload N (msg_payload (gm_content msg)) = Some p"
    and c: "celsius_try_from A (bws_temperature p) = Some (sv_temperature values)"
    and h: "humidity_try_from A (bws_humidity p) = Some (sv_humidity values)"
    and v: "sv_pressure values = pascal_from A (bws_pressure p)" "sv_timestamp values = gm_received msg"
    using assms(3) by (auto simp: convert_msg_to_values_def split: option.splits)
  have "raw_temperature (raw_from A values) = bws_temperature p"
    "raw_humidity (raw_from A values) = bws_humidity p"
    "raw_pressure (raw_from A values) = bws_pressure p"
    using assms(2) c h v by (auto simp: raw_from_def api_ok_def)
  then show ?thesis
    using p v(2) sensor_values.parse_iff [OF assms(1)] by (simp add: sensor_values_bytes_def)
qed

theorem converted_report_is_payload_witness:
  "let p = \<lparr>bws_temperature = 2000, bws_humidity = 5000, bws_pressure = 1000000\<rparr>;
       msg = GenericMessage_new (7 :: u32)
         \<lparr>msg_opcode = BleWsSensorValues_opcode, msg_payload = sensor_values_bytes p\<rparr>
         (Meta_Normal (MeshAddr 5) MAIN_APP_INDEX)
   in \<exists>values. convert_msg_to_values nom_reference api_reference msg = Inr values \<and>
        sv_timestamp values = 7"
proof -
  let ?p = "\<lparr>bws_temperature = 2000, bws_humidity = 5000, bws_pressure = 1000000\<rparr>"
  let ?msg = "GenericMessage_new (7 :: u32)
         \<lparr>msg_opcode = BleWsSensorValues_opcode, msg_payload = sensor_values_bytes ?p\<rparr>
         (Meta_Normal (MeshAddr 5) MAIN_APP_INDEX)"
  have "BleWsSensorValues_parse_payload nom_reference (sensor_values_bytes ?p) = Some ?p"
    by (simp add: sensor_values.parse_iff [OF nom_reference_ok])
  then obtain vals where v: "convert_msg_to_values nom_reference api_reference ?msg = Inr vals"
    by (simp add: convert_msg_to_values_def api_reference_def)
  from converted_report_is_payload [OF nom_reference_ok api_reference_ok v] v
  show ?thesis by auto
qed

end
