(* ===== verification/Collector.thy ===== *)
theory Collector
  imports Sensor
begin

text \<open>
  The collection task spawned by \<open>LoopCtx::run\<close> (\<open>src/mesh/mod.rs\<close>): after each
  trigger it gathers one report per connected device until all have reported or the batch
  timeout fires, and sends the batch on. The inputs of its \<open>select!\<close> are a list.
\<close>

datatype 't collect_input = Batch_Timeout | Sensor_Message "'t generic_message"

type_synonym ('u, 'v) batch = "('u, 'v sensor_state) btree_map"

text \<open>The inner loop. \<open>None\<close>: the inputs are used up and it is still waiting.\<close>

fun collect ::
    "'e nom \<Rightarrow> ('t, 'c, 'p, 'h) api \<Rightarrow> (mesh_addr, 'u::linorder) btree_map \<Rightarrow>
     ('u, ('t, 'c, 'p, 'h) sensor_values) batch \<Rightarrow> 'u list \<Rightarrow> 't collect_input list \<Rightarrow>
     (panic + ('u, ('t, 'c, 'p, 'h) sensor_values) batch \<times> 'u list) option" where
  "collect N A connected batch timedout [] = None"
| "collect N A connected batch timedout (Batch_Timeout # inputs) = Some (Inr (batch, timedout))"
| "collect N A connected batch timedout (Sensor_Message msg # inputs) =
     (case bt_get connected (gm_source_addr msg) of
        None \<Rightarrow> Some (Inl (Expect_Failed ''Race condition in getting uuids from connected''))
      | Some dev \<Rightarrow>
          (case convert_msg_to_values N A msg of
             Inr values \<Rightarrow>
               (let timedout = bs_remove dev timedout;
                    batch = bt_insert dev (Connected values) batch
                in if timedout = [] then Some (Inr (batch, timedout))
                   else collect N A connected batch timedout inputs)
           | Inl e \<Rightarrow> collect N A connected batch timedout inputs))"

definition finish_batch :: "('u::linorder, 'v) batch \<Rightarrow> 'u list \<Rightarrow> ('u, 'v) batch" where
  "finish_batch batch timedout =
     fold (\<lambda>dev batch. if dev \<in> set (bt_keys batch) then batch else bt_insert dev Unconnected batch)
       timedout batch"

definition collect_round ::
    "'e nom \<Rightarrow> ('t, 'c, 'p, 'h) api \<Rightarrow> (mesh_addr, 'u::linorder) btree_map \<Rightarrow> 't collect_input list \<Rightarrow>
     (panic + ('u, ('t, 'c, 'p, 'h) sensor_values) batch) option" where
  "collect_round N A connected inputs =
     (let batch = []; timedout = bs_collect (bt_values connected)
      in map_option (map_sum (\<lambda>p. p) (\<lambda>(batch, timedout). finish_batch batch timedout))
           (collect N A connected batch timedout inputs))"

text \<open>
  The task: one round per trigger, with the nodes connected then, until a batch finds no
  receiver.
\<close>

fun collector_task ::
    "'e nom \<Rightarrow> ('t, 'c, 'p, 'h) api \<Rightarrow>
     ((mesh_addr, 'u::linorder) btree_map \<times> 't collect_input list \<times> bool) list \<Rightarrow>
     panic + ('u, ('t, 'c, 'p, 'h) sensor_values) batch list" where
  "collector_task N A [] = Inr []"
| "collector_task N A ((connected, inputs, receiver_alive) # rounds) =
     (case collect_round N A connected inputs of
        None \<Rightarrow> Inr []
      | Some (Inl p) \<Rightarrow> Inl p
      | Some (Inr batch) \<Rightarrow>
          if receiver_alive
          then and_then (collector_task N A rounds) (\<lambda>batches. Inr (batch # batches))
          else Inr [])"

section \<open>What a round collects\<close>

text \<open>The valid reports among messages from connected nodes, in order.\<close>

fun reports ::
    "'e nom \<Rightarrow> ('t, 'c, 'p, 'h) api \<Rightarrow> (mesh_addr, 'u) btree_map \<Rightarrow> 't collect_input list \<Rightarrow>
     ('u \<times> ('t, 'c, 'p, 'h) sensor_values) list" where
  "reports N A C [] = []"
| "reports N A C (Batch_Timeout # is) = reports N A C is"
| "reports N A C (Sensor_Message m # is) =
     (case (bt_get C (gm_source_addr m), convert_msg_to_values N A m) of
        (Some dev, Inr v) \<Rightarrow> (dev, v) # reports N A C is
      | _ \<Rightarrow> reports N A C is)"

lemma reports_append: "reports N A C (is @ js) = reports N A C is @ reports N A C js"
  by (induction N A C "is" rule: reports.induct) (auto split: option.split sum.split)

text \<open>The batch and the devices still missing, after some reports.\<close>

definition collecting ::
    "('u::linorder, 'v) batch \<Rightarrow> 'u list \<Rightarrow> 'u set \<Rightarrow> ('u \<times> 'v) list \<Rightarrow> bool" where
  "collecting batch timedout V rs \<longleftrightarrow>
     bt_ok batch \<and> set timedout = V - fst ` set rs \<and> fst ` set rs \<subseteq> V \<and>
     (\<forall>dev. bt_get batch dev = map_option Connected (map_of (rev rs) dev))"

lemma collecting_report:
  assumes "collecting batch timedout V rs" and "dev \<in> V"
  shows "collecting (bt_insert dev (Connected v) batch) (bs_remove dev timedout) V (rs @ [(dev, v)])"
  using assms by (auto simp: collecting_def bt_ok_insert bt_get_insert)

lemma collect_Inr:
  assumes "collecting batch timedout (set (bt_values C)) rs"
    and "collect N A C batch timedout inputs = Some (Inr (batch', timedout'))"
  shows "\<exists>pre post. inputs = pre @ post \<and> Batch_Timeout \<notin> set pre \<and>
           ((\<exists>p. post = Batch_Timeout # p) \<or> timedout' = []) \<and>
           collecting batch' timedout' (set (bt_values C)) (rs @ reports N A C pre)"
  using assms
proof (induction N A C batch timedout inputs arbitrary: rs rule: collect.induct)
  case (2 N A C batch timedout inputs)
  then show ?case by (intro exI [of _ "[]"] exI [of _ "Batch_Timeout # inputs"]) auto
next
  case (3 N A C batch timedout msg inputs)
  obtain dev where dev: "bt_get C (gm_source_addr msg) = Some dev"
    using "3.prems"(2) by (auto split: option.splits)
  then have V: "dev \<in> set (bt_values C)" by (rule bt_get_Some_value)
  show ?case
  proof (cases "convert_msg_to_values N A msg")
    case (Inl e)
    then have "collect N A C batch timedout inputs = Some (Inr (batch', timedout'))"
      using "3.prems"(2) dev by simp
    with "3.IH"(1) [OF dev Inl "3.prems"(1)] obtain pre post where
      "inputs = pre @ post" "Batch_Timeout \<notin> set pre"
      "(\<exists>p. post = Batch_Timeout # p) \<or> timedout' = []"
      "collecting batch' timedout' (set (bt_values C)) (rs @ reports N A C pre)"
      by blast
    then show ?thesis
      by (intro exI [of _ "Sensor_Message msg # pre"] exI [of _ post]) (auto simp: dev Inl)
  next
    case (Inr v)
    let ?batch = "bt_insert dev (Connected v) batch" and ?timedout = "bs_remove dev timedout"
    have col: "collecting ?batch ?timedout (set (bt_values C)) (rs @ [(dev, v)])"
      using "3.prems"(1) V by (rule collecting_report)
    show ?thesis
    proof (cases "?timedout = []")
      case True
      then have "batch' = ?batch" "timedout' = ?timedout"
        using "3.prems"(2) dev Inr by simp_all
      with col True show ?thesis
        by (intro exI [of _ "[Sensor_Message msg]"] exI [of _ inputs]) (auto simp: dev Inr)
    next
      case False
      then have "collect N A C ?batch ?timedout inputs = Some (Inr (batch', timedout'))"
        using "3.prems"(2) dev Inr by simp
      with "3.IH"(2) [OF dev Inr refl refl False col] obtain pre post where
        "inputs = pre @ post" "Batch_Timeout \<notin> set pre"
        "(\<exists>p. post = Batch_Timeout # p) \<or> timedout' = []"
        "collecting batch' timedout' (set (bt_values C)) ((rs @ [(dev, v)]) @ reports N A C pre)"
        by blast
      then show ?thesis
        by (intro exI [of _ "Sensor_Message msg # pre"] exI [of _ post]) (auto simp: dev Inr)
    qed
  qed
qed simp

lemma collecting_init: "collecting [] (bs_collect (bt_values C)) (set (bt_values C)) []"
  by (simp add: collecting_def bt_get_def)

lemma finish_batch_get:
  assumes "bt_ok batch"
  shows "bt_ok (finish_batch batch timedout) \<and>
         bt_get (finish_batch batch timedout) dev =
           (case bt_get batch dev of
              Some s \<Rightarrow> Some s | None \<Rightarrow> if dev \<in> set timedout then Some Unconnected else None)"
  using assms
proof (induction timedout arbitrary: batch)
  case Nil
  then show ?case by (simp add: finish_batch_def split: option.split)
next
  case (Cons x xs)
  have step: "finish_batch batch (x # xs) =
      finish_batch (if x \<in> set (bt_keys batch) then batch else bt_insert x Unconnected batch) xs"
    by (simp add: finish_batch_def)
  show ?case
    using Cons.IH [of "if x \<in> set (bt_keys batch) then batch else bt_insert x Unconnected batch"]
      Cons.prems
    by (auto simp: step bt_ok_insert bt_get_insert bt_get_None dest: bt_get_Some_key
        split: option.splits)
qed

lemma collect_unknown:
  assumes "collecting batch timedout (set (bt_values C)) rs"
    and "Batch_Timeout \<notin> set pre"
    and "\<forall>m. Sensor_Message m \<in> set pre \<longrightarrow> bt_get C (gm_source_addr m) \<noteq> None"
    and "\<not> set (bt_values C) \<subseteq> fst ` set (rs @ reports N A C pre)"
    and "bt_get C (gm_source_addr msg) = None"
  shows "collect N A C batch timedout (pre @ Sensor_Message msg # post) =
           Some (Inl (Expect_Failed ''Race condition in getting uuids from connected''))"
  using assms
proof (induction N A C batch timedout pre arbitrary: rs rule: collect.induct)
  case (3 N A C batch timedout m inputs)
  then obtain dev where dev: "bt_get C (gm_source_addr m) = Some dev" by auto
  then have V: "dev \<in> set (bt_values C)" by (rule bt_get_Some_value)
  show ?case
  proof (cases "convert_msg_to_values N A m")
    case (Inl e)
    then show ?thesis using "3.IH"(1) [OF dev Inl "3.prems"(1)] "3.prems" dev by simp
  next
    case (Inr v)
    have col: "collecting (bt_insert dev (Connected v) batch) (bs_remove dev timedout)
                 (set (bt_values C)) (rs @ [(dev, v)])"
      using "3.prems"(1) V by (rule collecting_report)
    have "\<not> set (bt_values C) \<subseteq> fst ` set (rs @ [(dev, v)])"
      using "3.prems"(4) dev Inr by auto
    then have "bs_remove dev timedout \<noteq> []"
      using col by (auto simp: collecting_def simp flip: set_empty)
    then show ?thesis
      using "3.IH"(2) [OF dev Inr refl refl _ col] "3.prems" dev Inr by simp
  qed
qed simp_all

section \<open>Properties of the collection task\<close>

text \<open>A sensor report from a node, for the witnesses.\<close>

definition sample_values :: ble_ws_sensor_values where
  "sample_values = \<lparr>bws_temperature = 2000, bws_humidity = 5000, bws_pressure = 1000000\<rparr>"

definition sample_report :: "u16 \<Rightarrow> u32 generic_message" where
  "sample_report addr =
     GenericMessage_new 7
       \<lparr>msg_opcode = BleWsSensorValues_opcode, msg_payload = sensor_values_bytes sample_values\<rparr>
       (Meta_Normal (MeshAddr addr) MAIN_APP_INDEX)"

lemma sample_report_addr [simp]: "gm_source_addr (sample_report addr) = MeshAddr addr"
  by (simp add: sample_report_def)

lemma sample_report_converts:
  "convert_msg_to_values nom_reference api_reference (sample_report addr) =
     Inr \<lparr>sv_timestamp = 7, sv_temperature = 2000, sv_pressure = 1000000, sv_humidity = 5000\<rparr>"
proof -
  have "BleWsSensorValues_parse_payload nom_reference (sensor_values_bytes sample_values) = Some sample_values"
    by (simp add: sensor_values.parse_iff [OF nom_reference_ok])
  then show ?thesis
    by (simp add: convert_msg_to_values_def sample_report_def)
       (simp add: sample_values_def api_reference_def)
qed

text \<open>
  C17: A batch is complete and truthful. It has an entry for every connected device and for no
  other; a device that sent valid reports before the batch ended is recorded with the last of
  them, every other device as unconnected; and the batch ended because of the timeout or
  because every connected device had reported.
\<close>

theorem batch_is_complete:
  assumes "collect_round N A C inputs = Some (Inr batch)"
  shows "\<exists>pre post. inputs = pre @ post \<and> Batch_Timeout \<notin> set pre \<and>
           ((\<exists>later. post = Batch_Timeout # later) \<or>
            set (bt_values C) = fst ` set (reports N A C pre)) \<and>
           bt_ok batch \<and>
           (\<forall>dev. bt_get batch dev =
              (if dev \<in> set (bt_values C)
               then Some (case map_of (rev (reports N A C pre)) dev of
                            Some v \<Rightarrow> Connected v | None \<Rightarrow> Unconnected)
               else None))"
proof -
  let ?V = "set (bt_values C)"
  obtain r where r: "collect N A C [] (bs_collect (bt_values C)) inputs = Some r"
    and fin: "map_sum (\<lambda>p. p) (\<lambda>(batch, timedout). finish_batch batch timedout) r = Inr batch"
    using assms by (auto simp: collect_round_def Let_def)
  then obtain b t where col: "collect N A C [] (bs_collect (bt_values C)) inputs = Some (Inr (b, t))"
    and batch: "batch = finish_batch b t"
    by (cases r) auto
  obtain pre post where io: "inputs = pre @ post" "Batch_Timeout \<notin> set pre"
    and ended: "(\<exists>later. post = Batch_Timeout # later) \<or> t = []"
    and inv: "collecting b t ?V (reports N A C pre)"
    using collect_Inr [OF collecting_init col] by auto
  have b: "bt_ok b" and t: "set t = ?V - fst ` set (reports N A C pre)"
    and sub: "fst ` set (reports N A C pre) \<subseteq> ?V"
    and get: "\<And>dev. bt_get b dev = map_option Connected (map_of (rev (reports N A C pre)) dev)"
    using inv by (auto simp: collecting_def)
  have "bt_get batch dev =
      (if dev \<in> ?V then Some (case map_of (rev (reports N A C pre)) dev of
                               Some v \<Rightarrow> Connected v | None \<Rightarrow> Unconnected)
       else None)" for dev
  proof (cases "map_of (rev (reports N A C pre)) dev")
    case None
    then have "dev \<notin> fst ` set (reports N A C pre)" by (simp add: map_of_eq_None_iff)
    then show ?thesis
      using None finish_batch_get [OF b, of t dev] get [of dev] t by (simp add: batch)
  next
    case (Some v)
    then have "dev \<in> fst ` set (reports N A C pre)" by (force dest: map_of_SomeD)
    then show ?thesis
      using Some finish_batch_get [OF b, of t dev] get [of dev] sub by (auto simp: batch)
  qed
  moreover have "bt_ok batch" using finish_batch_get [OF b] by (simp add: batch)
  moreover have "(\<exists>later. post = Batch_Timeout # later) \<or> ?V = fst ` set (reports N A C pre)"
    using ended t sub by auto
  ultimately show ?thesis using io by blast
qed

theorem batch_is_complete_witness:
  "\<exists>batch. collect_round nom_reference api_reference [(MeshAddr 5, 77 :: nat), (MeshAddr 6, 78)]
       [Sensor_Message (sample_report 5), Batch_Timeout] = Some (Inr batch) \<and>
     bt_get batch 99 = None"
proof -
  let ?C = "[(MeshAddr 5, 77 :: nat), (MeshAddr 6, 78)]"
  obtain batch where b: "collect_round nom_reference api_reference ?C
       [Sensor_Message (sample_report 5), Batch_Timeout] = Some (Inr batch)"
    by (simp add: collect_round_def bt_get_def sample_report_converts bt_values_def
        bs_collect_def bs_remove_def)
  from batch_is_complete [OF b] obtain pre where
    "\<forall>dev. bt_get batch dev = (if dev \<in> set (bt_values ?C)
               then Some (case map_of (rev (reports nom_reference api_reference ?C pre)) dev of
                            Some v \<Rightarrow> Connected v | None \<Rightarrow> Unconnected)
               else None)"
    by blast
  then have "bt_get batch 99 = None" by (simp add: bt_values_def)
  with b show ?thesis by blast
qed

text \<open>
  C40: One report from a node that is not connected stops the collection task: while some
  connected device has not reported and the timeout has not fired, such a message makes the
  task panic, whatever came before it.
\<close>

theorem unknown_sender_stops_collector:
  assumes "Batch_Timeout \<notin> set pre"
    and "\<forall>m. Sensor_Message m \<in> set pre \<longrightarrow> bt_get C (gm_source_addr m) \<noteq> None"
    and "\<not> set (bt_values C) \<subseteq> fst ` set (reports N A C pre)"
    and "bt_get C (gm_source_addr msg) = None"
  shows "collect_round N A C (pre @ Sensor_Message msg # post) =
           Some (Inl (Expect_Failed ''Race condition in getting uuids from connected''))"
  using collect_unknown [OF collecting_init assms(1,2) _ assms(4), of N A post] assms(3)
  by (simp add: collect_round_def Let_def)

theorem unknown_sender_stops_collector_witness:
  "collect_round nom_reference api_reference [(MeshAddr 5, 77 :: nat)]
     ([] @ Sensor_Message (sample_report 6) # []) =
   Some (Inl (Expect_Failed ''Race condition in getting uuids from connected''))"
  by (rule unknown_sender_stops_collector) (simp_all add: bt_get_def bt_values_def)

end
