(* ===== verification/Provisioner.thy ===== *)
theory Provisioner
  imports Proto
begin

text \<open>
  The D-Bus provisioner object, \<open>src/mesh/provisioner.rs\<close>, and the events it sends to the
  mesh loop (\<open>Event\<close> and \<open>Node\<close> in \<open>src/mesh/mod.rs\<close>). \<open>'u\<close> is the type of
  UUIDs; \<open>Uuid::from_bytes\<close> of the \<open>uuid\<close> crate is an argument.
\<close>

record 'u node =
  node_uuid :: 'u
  node_unicast_addr :: mesh_addr

datatype 'u event =
    DeviceDiscovered 'u i16
  | NodeAdded "('u \<times> string) + 'u node"

text \<open>\<open>uuid::Bytes\<close> is an array of sixteen bytes.\<close>

definition uuid_len :: nat where
  "uuid_len = 16"

definition extract_uuid :: "(u8 list \<Rightarrow> 'u) \<Rightarrow> u8 list \<Rightarrow> 'u option" where
  "extract_uuid from_bytes data =
     (if length data < uuid_len then None else Some (from_bytes (take uuid_len data)))"

record provisioner =
  addr_cnt :: u16

definition Provisioner_new :: provisioner where
  "Provisioner_new = \<lparr>addr_cnt = 0x0005\<rparr>"

text \<open>
  What a call produces: an event for the mesh loop, or an address for the caller. Sending
  panics when the loop is gone (\<open>alive\<close> is false).
\<close>

datatype 'u prov_output = Sent "'u event" | Assigned net_index mesh_addr

definition send_event :: "bool \<Rightarrow> 'u event \<Rightarrow> panic + 'u prov_output list" where
  "send_event alive e = (if alive then Inr [Sent e] else Inl Unwrap_Failed)"

definition scan_result ::
    "(u8 list \<Rightarrow> 'u) \<Rightarrow> bool \<Rightarrow> i16 \<Rightarrow> u8 list \<Rightarrow> panic + 'u prov_output list" where
  "scan_result from_bytes alive rssi data =
     (case extract_uuid from_bytes data of
        Some uuid \<Rightarrow> send_event alive (DeviceDiscovered uuid rssi)
      | None \<Rightarrow> Inr [])"

definition request_prov_data ::
    "provisioner \<Rightarrow> u8 \<Rightarrow> panic + provisioner \<times> (net_index \<times> mesh_addr)" where
  "request_prov_data self unicast_count =
     (if unicast_count = 1 then
        (let addr = addr_cnt self
         in case checked_succ (addr_cnt self) of
              None \<Rightarrow> Inl (Expect_Failed ''Addr overflow'')
            | Some n \<Rightarrow> Inr (self\<lparr>addr_cnt := n\<rparr>, (MAIN_NET_INDEX, MeshAddr addr)))
      else Inl Assertion_Failed)"

definition add_node_complete ::
    "(u8 list \<Rightarrow> 'u) \<Rightarrow> bool \<Rightarrow> u8 list \<Rightarrow> u16 \<Rightarrow> panic + 'u prov_output list" where
  "add_node_complete from_bytes alive uuid unicast_addr =
     (case extract_uuid from_bytes uuid of
        Some uuid \<Rightarrow> send_event alive
          (NodeAdded (Inr \<lparr>node_uuid = uuid, node_unicast_addr = MeshAddr unicast_addr\<rparr>))
      | None \<Rightarrow> Inr [])"

definition add_node_failed ::
    "(u8 list \<Rightarrow> 'u) \<Rightarrow> bool \<Rightarrow> u8 list \<Rightarrow> string \<Rightarrow> panic + 'u prov_output list" where
  "add_node_failed from_bytes alive uuid reason =
     (case extract_uuid from_bytes uuid of
        Some uuid \<Rightarrow> send_event alive (NodeAdded (Inl (uuid, reason)))
      | None \<Rightarrow> Inr [])"

text \<open>One call on the object.\<close>

datatype prov_call =
    Scan_Result i16 "u8 list"
  | Request_Prov_Data u8
  | Add_Node_Complete "u8 list" u16 u8
  | Add_Node_Failed "u8 list" string

fun provisioner_step ::
    "(u8 list \<Rightarrow> 'u) \<Rightarrow> provisioner \<Rightarrow> bool \<times> prov_call \<Rightarrow> panic + provisioner \<times> 'u prov_output list" where
  "provisioner_step from_bytes st (alive, Scan_Result rssi data) =
     and_then (scan_result from_bytes alive rssi data) (\<lambda>os. Inr (st, os))"
| "provisioner_step from_bytes st (alive, Request_Prov_Data n) =
     and_then (request_prov_data st n) (\<lambda>(st, (net, addr)). Inr (st, [Assigned net addr]))"
| "provisioner_step from_bytes st (alive, Add_Node_Complete uuid addr n) =
     and_then (add_node_complete from_bytes alive uuid addr) (\<lambda>os. Inr (st, os))"
| "provisioner_step from_bytes st (alive, Add_Node_Failed uuid reason) =
     and_then (add_node_failed from_bytes alive uuid reason) (\<lambda>os. Inr (st, os))"

text \<open>The addresses assigned by a run, in order.\<close>

fun assigned :: "'u prov_output list \<Rightarrow> u16 list" where
  "assigned [] = []"
| "assigned (Assigned net addr # os) = as_u16 addr # assigned os"
| "assigned (Sent e # os) = assigned os"

lemma assigned_append [simp]: "assigned (os @ os') = assigned os @ assigned os'"
  by (induction os rule: assigned.induct) auto

lemma provisioner_step_assigned:
  assumes "provisioner_step from_bytes st (alive, call) = Inr (st', os)"
  shows "unat (addr_cnt st') = unat (addr_cnt st) + length (assigned os) \<and>
         List.map unat (assigned os) = [unat (addr_cnt st)..<unat (addr_cnt st')]"
  using assms
  by (cases call)
     (auto simp: result_iff scan_result_def add_node_complete_def add_node_failed_def
        send_event_def request_prov_data_def Let_def checked_succ_def unat_succ
        split: option.splits if_splits)

lemma provisioner_run_assigned:
  "run_steps (provisioner_step from_bytes) st calls = Inr (st', os) \<Longrightarrow>
     List.map unat (assigned os) = [unat (addr_cnt st)..<unat (addr_cnt st')] \<and>
     unat (addr_cnt st) \<le> unat (addr_cnt st')"
proof (induction calls arbitrary: st os)
  case (Cons c calls)
  obtain alive call where c: "c = (alive, call)" by force
  obtain st1 os1 os2 where 1: "provisioner_step from_bytes st (alive, call) = Inr (st1, os1)"
    and 2: "run_steps (provisioner_step from_bytes) st1 calls = Inr (st', os2)"
    and os: "os = os1 @ os2"
    using Cons.prems by (auto simp: result_iff c)
  from provisioner_step_assigned [OF 1] Cons.IH [OF 2] show ?case
    by (auto simp: os) (metis le_add1 upt_add_eq_append le_Suc_ex)
qed simp

text \<open>
  C31: The provisioner hands out consecutive addresses starting at 5: over any run that does
  not panic, the n-th address assigned is 4 + n, so no address is given to two nodes, none is
  the reserved address 0, and 65530 is the most that can be assigned.
\<close>

theorem provisioner_addresses_consecutive:
  assumes "run_steps (provisioner_step from_bytes) Provisioner_new calls = Inr (st', os)"
  shows "List.map unat (assigned os) = [5..<5 + length (assigned os)] \<and>
         distinct (assigned os) \<and> length (assigned os) \<le> 65530 \<and>
         unat (addr_cnt st') = 5 + length (assigned os)"
proof -
  have run: "List.map unat (assigned os) = [5..<unat (addr_cnt st')]" "5 \<le> unat (addr_cnt st')"
    using provisioner_run_assigned [OF assms] by (auto simp: Provisioner_new_def)
  then have len: "length (assigned os) = unat (addr_cnt st') - 5"
    by (metis length_map length_upt)
  moreover have "distinct (assigned os)"
    using run(1) distinct_upt distinct_map by metis
  moreover have "unat (addr_cnt st') < 65536"
    using unsigned_less [of "addr_cnt st'", where ?'a = nat] by simp
  ultimately show ?thesis using run by auto
qed

theorem provisioner_addresses_consecutive_witness:
  "\<exists>st' os. run_steps (provisioner_step (\<lambda>bs. bs)) Provisioner_new
     [(True, Request_Prov_Data 1), (True, Scan_Result 0 [1, 2]), (True, Request_Prov_Data 1)]
       = Inr (st', os) \<and> List.map unat (assigned os) = [5, 6]"
proof -
  have "run_steps (provisioner_step (\<lambda>bs. bs)) Provisioner_new
     [(True, Request_Prov_Data 1), (True, Scan_Result 0 [1, 2]), (True, Request_Prov_Data 1)] =
     Inr (\<lparr>addr_cnt = 7\<rparr>, [Assigned (NetIndex 0) (MeshAddr 5), Assigned (NetIndex 0) (MeshAddr 6)])"
    by (simp add: Provisioner_new_def request_prov_data_def checked_succ_def scan_result_def
        extract_uuid_def uuid_len_def MAIN_NET_INDEX_def)
  from provisioner_addresses_consecutive [OF this] this show ?thesis by (auto simp: upt_rec)
qed

text \<open>
  A request for provisioning data succeeds exactly when it asks for one address and the
  counter is not at its end, and panics otherwise; the calls that report a device never change the
  address counter, and report it exactly when their data holds the sixteen bytes of a UUID.
\<close>

lemma provisioner_calls:
  "((\<exists>r. request_prov_data st n = Inr r) \<longleftrightarrow> n = 1 \<and> addr_cnt st \<noteq> 0xffff) \<and>
   scan_result from_bytes True rssi data =
     Inr (if 16 \<le> length data then [Sent (DeviceDiscovered (from_bytes (take 16 data)) rssi)] else []) \<and>
   add_node_complete from_bytes True data addr =
     Inr (if 16 \<le> length data
          then [Sent (NodeAdded (Inr \<lparr>node_uuid = from_bytes (take 16 data),
                                      node_unicast_addr = MeshAddr addr\<rparr>))] else []) \<and>
   add_node_failed from_bytes True data reason =
     Inr (if 16 \<le> length data then [Sent (NodeAdded (Inl (from_bytes (take 16 data), reason)))] else [])"
  by (auto simp: request_prov_data_def checked_succ_def scan_result_def add_node_complete_def
      add_node_failed_def send_event_def extract_uuid_def uuid_len_def)

end
