(* ===== verification/Queue_Facts.thy ===== *)
theory Queue_Facts
  imports Message_Queue
begin

text \<open>
  Properties of the message queue: what a filter matches, what a subscription takes out of
  the stored messages, and the invariant between filters and subscribers, which every turn of
  the task keeps.
\<close>

section \<open>Filters\<close>

lemma rejects_iff: "rejects opt b \<longleftrightarrow> opt \<noteq> None \<and> opt \<noteq> Some b"
  by (cases opt) auto

lemma is_match_iff:
  "is_match f m \<longleftrightarrow>
     gf_kind f = gm_kind m \<and>
     gf_source_addr f \<in> {None, Some (gm_source_addr m)} \<and>
     gf_opcode f \<in> {None, Some (msg_opcode (gm_content m))} \<and>
     gf_index f \<in> {None, Some (gm_index m)}"
  by (auto simp: is_match_def rejects_iff)

lemma iter_filter_from_enumerate:
  "iter_filter_from i f ms = List.map fst (List.filter (\<lambda>(_, m). is_match f m) (enumerate i ms))"
  by (induction i f ms rule: iter_filter_from.induct) auto

lemma sorted_map_fst_filter:
  "sorted_wrt (<) (List.map fst xs) \<Longrightarrow> sorted_wrt (<) (List.map fst (List.filter P xs))"
  by (induction xs) auto

lemma iter_filter_sorted: "sorted_wrt (<) (iter_filter f ms)"
  unfolding iter_filter_def iter_filter_from_enumerate
  by (rule sorted_map_fst_filter) simp

lemma set_iter_filter: "set (iter_filter f ms) = {i. i < length ms \<and> is_match f (ms ! i)}"
  by (force simp: iter_filter_def iter_filter_from_enumerate in_set_enumerate_eq)

lemma iter_filter_Nil: "iter_filter f ms = [] \<longleftrightarrow> (\<forall>m \<in> set ms. \<not> is_match f m)"
  unfolding set_empty [symmetric] set_iter_filter all_set_conv_all_nth by blast

lemma iter_filter_Cons:
  assumes "iter_filter f ms = i # is"
  shows "i < length ms" and "is_match f (ms ! i)" and "\<forall>m \<in> set (take i ms). \<not> is_match f m"
proof -
  have "i \<in> set (iter_filter f ms)" using assms by simp
  then show i: "i < length ms" and "is_match f (ms ! i)"
    unfolding set_iter_filter by auto
  show "\<forall>m \<in> set (take i ms). \<not> is_match f m"
  proof
    fix m
    assume "m \<in> set (take i ms)"
    then obtain j where j: "j < i" "j < length ms" "m = ms ! j"
      by (auto simp: in_set_conv_nth)
    show "\<not> is_match f m"
    proof
      assume "is_match f m"
      with j have "j \<in> set (iter_filter f ms)" by (simp add: set_iter_filter)
      with assms iter_filter_sorted [of f ms] j(1) show False by auto
    qed
  qed
qed

lemma length_iter_filter: "length (iter_filter f ms) = length (List.filter (is_match f) ms)"
proof -
  have "length (List.filter (\<lambda>(_, m). is_match f m) (enumerate i ms)) =
        length (List.filter (is_match f) ms)" for i
    by (induction ms arbitrary: i) auto
  then show ?thesis by (simp add: iter_filter_def iter_filter_from_enumerate)
qed

section \<open>Taking stored messages\<close>

lemma try_pull_one_cases:
  obtains
    (none) "\<forall>m \<in> set (qs_messages st). \<not> is_match f m"
      "try_pull_one send_ok tx f st = Inr (False, tx, st, [])"
  | (unwrap) "tx = None" "try_pull_one send_ok tx f st = Inl Unwrap_Failed"
  | (sent) c xs m ys where "tx = Some c" "qs_messages st = xs @ m # ys" "is_match f m"
      "\<forall>x \<in> set xs. \<not> is_match f x" "send_ok c m"
      "try_pull_one send_ok tx f st = Inr (True, None, st\<lparr>qs_messages := xs @ ys\<rparr>, [(c, m)])"
  | (closed) c xs m ys where "tx = Some c" "qs_messages st = xs @ m # ys" "is_match f m"
      "\<forall>x \<in> set xs. \<not> is_match f x" "\<not> send_ok c m"
      "try_pull_one send_ok tx f st = Inr (False, None, st\<lparr>qs_messages := xs @ ys @ [m]\<rparr>, [])"
proof (cases "iter_filter f (qs_messages st)")
  case Nil
  show thesis
  proof (rule none)
    show "\<forall>m \<in> set (qs_messages st). \<not> is_match f m" using Nil by (simp only: iter_filter_Nil)
    show "try_pull_one send_ok tx f st = Inr (False, tx, st, [])"
      by (simp add: try_pull_one_def Nil)
  qed
next
  case (Cons i "is")
  let ?ms = "qs_messages st"
  note i = iter_filter_Cons [OF Cons]
  have split: "?ms = take i ?ms @ ?ms ! i # drop (Suc i) ?ms"
    using i(1) by (rule id_take_nth_drop)
  have pull: "vec_remove i ?ms = Inr (?ms ! i, take i ?ms @ drop (Suc i) ?ms)"
    using i(1) by (simp add: vec_remove_def)
  show thesis
  proof (cases tx)
    case None
    then show thesis by (intro unwrap) (simp_all add: try_pull_one_def Cons pull)
  next
    case (Some c)
    show thesis
    proof (cases "send_ok c (?ms ! i)")
      case True
      with Some show thesis
        by (intro sent [OF Some split i(2,3)]) (simp_all add: try_pull_one_def Cons pull)
    next
      case False
      with Some show thesis
        by (intro closed [OF Some split i(2,3)]) (simp_all add: try_pull_one_def Cons pull)
    qed
  qed
qed

lemma nth_remove_ge: "i \<le> j \<Longrightarrow> i < length xs \<Longrightarrow> (take i xs @ drop (Suc i) xs) ! j = xs ! Suc j"
  by (simp add: nth_append min_def)

text \<open>
  \<open>Vec::remove\<close> shifts what follows, and the indices were computed before: the message
  taken at the \<open>t\<close>-th index is the one \<open>t\<close> places further on.
\<close>

lemma pull_indexes_shift:
  assumes "\<forall>m. send_ok tx m" and "sorted_wrt (<) indexes"
  shows "case pull_indexes send_ok tx indexes ms of
      Inl p \<Rightarrow> p = Index_Out_Of_Bounds \<and> (\<exists>t < length indexes. length ms \<le> indexes ! t + t)
    | Inr (ms', outs) \<Rightarrow>
        (\<forall>t < length indexes. indexes ! t + t < length ms) \<and>
        outs = List.map (\<lambda>t. (tx, ms ! (indexes ! t + t))) [0..<length indexes]"
  using assms(2)
proof (induction indexes arbitrary: ms)
  case (Cons i "is")
  show ?case
  proof (cases "i < length ms")
    case False
    then show ?thesis by (auto simp: vec_remove_def intro!: exI [of _ 0])
  next
    case True
    let ?ms = "take i ms @ drop (Suc i) ms"
    have len: "Suc (length ?ms) = length ms" using True by simp
    have later: "?ms ! (is ! t + t) = ms ! (is ! t + Suc t)" if "t < length is" for t
    proof -
      have "i \<le> is ! t + t" using Cons.prems that by (simp add: le_Suc_eq less_imp_le trans_le_add1)
      with True nth_remove_ge [of i "is ! t + t" ms] show ?thesis by simp
    qed
    have IH: "case pull_indexes send_ok tx is ?ms of
        Inl p \<Rightarrow> p = Index_Out_Of_Bounds \<and> (\<exists>t < length is. length ?ms \<le> is ! t + t)
      | Inr (ms', outs) \<Rightarrow>
          (\<forall>t < length is. is ! t + t < length ?ms) \<and>
          outs = List.map (\<lambda>t. (tx, ?ms ! (is ! t + t))) [0..<length is]"
      using Cons.IH [of ?ms] Cons.prems by simp
    have run: "pull_indexes send_ok tx (i # is) ms =
        and_then (pull_indexes send_ok tx is ?ms) (\<lambda>(ms', outs). Inr (ms', (tx, ms ! i) # outs))"
      using True assms(1) by (simp add: vec_remove_def)
    show ?thesis
    proof (cases "pull_indexes send_ok tx is ?ms")
      case (Inl p)
      with IH obtain t where "p = Index_Out_Of_Bounds" "t < length is" "length ?ms \<le> is ! t + t"
        by auto
      with run Inl len show ?thesis by (auto intro!: exI [of _ "Suc t"])
    next
      case (Inr r)
      obtain ms' outs where r: "r = (ms', outs)" by force
      have bound: "\<forall>t < length is. is ! t + t < length ?ms"
        and outs: "outs = List.map (\<lambda>t. (tx, ?ms ! (is ! t + t))) [0..<length is]"
        using IH Inr r by auto
      have "\<forall>t < length (i # is). (i # is) ! t + t < length ms"
        using bound True len by (auto simp: nth_Cons less_Suc_eq_0_disj split: nat.split)
      moreover have "(tx, ms ! i) # outs =
          List.map (\<lambda>t. (tx, ms ! ((i # is) ! t + t))) [0..<length (i # is)]"
        using outs later by (simp add: map_upt_Suc del: upt_Suc)
      ultimately show ?thesis using run Inr r by simp
    qed
  qed
qed simp


lemma try_pull_many_shift:
  assumes "\<forall>m. send_ok tx m"
  shows "case try_pull_many send_ok tx f st of
      Inl p \<Rightarrow> p = Index_Out_Of_Bounds \<and>
        (\<exists>t < length (iter_filter f (qs_messages st)).
           length (qs_messages st) \<le> iter_filter f (qs_messages st) ! t + t)
    | Inr (st', outs) \<Rightarrow>
        (\<forall>t < length (iter_filter f (qs_messages st)).
           iter_filter f (qs_messages st) ! t + t < length (qs_messages st)) \<and>
        outs = List.map (\<lambda>t. (tx, qs_messages st ! (iter_filter f (qs_messages st) ! t + t)))
                 [0..<length (iter_filter f (qs_messages st))]"
  using pull_indexes_shift [where send_ok = send_ok and tx = tx and ms = "qs_messages st"
      and indexes = "iter_filter f (qs_messages st)", OF assms iter_filter_sorted]
  by (cases "pull_indexes send_ok tx (iter_filter f (qs_messages st)) (qs_messages st)")
     (auto simp: try_pull_many_def)

lemma pull_indexes_conserves:
  "pull_indexes send_ok tx indexes ms = Inr (ms', outs) \<Longrightarrow>
     mset ms = mset ms' + mset (List.map snd outs) \<and> (\<forall>c \<in> fst ` set outs. c = tx)"
proof (induction indexes arbitrary: ms outs)
  case (Cons i "is")
  then obtain m ms1 outs1 where "vec_remove i ms = Inr (m, ms1)"
    and "pull_indexes send_ok tx is ms1 = Inr (ms', outs1)" and "outs = (tx, m) # outs1"
    by (auto simp: result_iff split: if_splits)
  with Cons.IH [of ms1 outs1] vec_remove_mset [of i ms m ms1] show ?case by auto
qed simp

text \<open>With at most one stored match there is nothing to shift, and a stream takes exactly it.\<close>

lemma try_pull_many_single:
  assumes "\<forall>m. send_ok tx m" and "qs_messages st = xs @ m # ys" and "is_match f m"
    and "\<forall>x \<in> set (xs @ ys). \<not> is_match f x"
  shows "try_pull_many send_ok tx f st = Inr (st\<lparr>qs_messages := xs @ ys\<rparr>, [(tx, m)])"
proof -
  have len: "length (iter_filter f (qs_messages st)) = 1"
    using assms by (simp add: length_iter_filter)
  then obtain i where i: "iter_filter f (qs_messages st) = [i]"
    by (cases "iter_filter f (qs_messages st)") auto
  have "length xs \<in> set (iter_filter f (qs_messages st))"
    using assms by (simp add: set_iter_filter)
  with i have "iter_filter f (qs_messages st) = [length xs]" by simp
  then show ?thesis
    using assms by (simp add: try_pull_many_def vec_remove_def)
qed

lemma try_pull_many_none:
  "\<forall>m \<in> set (qs_messages st). \<not> is_match f m \<Longrightarrow> try_pull_many send_ok tx f st = Inr (st, [])"
proof -
  assume "\<forall>m \<in> set (qs_messages st). \<not> is_match f m"
  then have "iter_filter f (qs_messages st) = []" by (simp only: iter_filter_Nil)
  then show ?thesis by (simp add: try_pull_many_def)
qed

section \<open>The slot maps\<close>

lemma slots_new:
  "slots_ok L \<Longrightarrow> slots_paired L (filters_new L) (subs_new L) \<and> filters_iter L (filters_new L) = []"
  by (simp add: slots_ok_def)

lemma slots_distinct:
  "slots_ok L \<Longrightarrow> slots_paired L m s \<Longrightarrow> distinct (List.map fst (filters_iter L m))"
  unfolding slots_ok_def by (elim conjE) metis

lemma slots_insert:
  assumes "slots_ok L" "slots_paired L m s" "filters_insert L m f = (k, m')"
  shows "slots_paired L m' s" "k \<notin> fst ` set (filters_iter L m)"
    "set (filters_iter L m') = insert (k, f) (set (filters_iter L m))"
  using assms by (auto simp: slots_ok_def)

lemma slots_remove:
  assumes "slots_ok L" "slots_paired L m s"
  shows "slots_paired L (filters_remove L m k) s"
    "set (filters_iter L (filters_remove L m k)) = {e \<in> set (filters_iter L m). fst e \<noteq> k}"
  using assms by (auto simp: slots_ok_def)

lemma slots_subs_insert:
  assumes "slots_ok L" "slots_paired L m s" "k \<in> fst ` set (filters_iter L m)"
  shows "slots_paired L m (subs_insert L s k v)" "subs_get L (subs_insert L s k v) k = Some v"
    "k' \<in> fst ` set (filters_iter L m) \<Longrightarrow> k' \<noteq> k \<Longrightarrow>
       subs_get L (subs_insert L s k v) k' = subs_get L s k'"
  using assms unfolding slots_ok_def by blast+

lemma slots_subs_remove:
  assumes "slots_ok L" "slots_paired L m s"
  shows "slots_paired L m (subs_remove L s k)"
    "k' \<noteq> k \<Longrightarrow> subs_get L (subs_remove L s k) k' = subs_get L s k'"
  using assms unfolding slots_ok_def by blast+

lemma slots_insert_mset:
  assumes "slots_ok L" "slots_paired L m s" "filters_insert L m f = (k, m')"
  shows "mset (filters_iter L m') = add_mset (k, f) (mset (filters_iter L m))"
proof -
  note ins = slots_insert [OF assms]
  have d: "distinct (filters_iter L m)" "distinct (filters_iter L m')"
    using slots_distinct [OF assms(1,2)] slots_distinct [OF assms(1) ins(1)]
    by (auto simp: distinct_map)
  have "distinct ((k, f) # filters_iter L m)" using d ins(2) by (force simp: image_iff)
  with d(2) ins(3) have "mset (filters_iter L m') = mset ((k, f) # filters_iter L m)"
    by (simp only: set_eq_iff_mset_eq_distinct [symmetric] list.set)
  then show ?thesis by simp
qed

lemma slots_remove_mset:
  assumes "slots_ok L" "slots_paired L m s" "(k, f) \<in> set (filters_iter L m)"
  shows "mset (filters_iter L m) = add_mset (k, f) (mset (filters_iter L (filters_remove L m k)))"
proof -
  note rem = slots_remove [OF assms(1,2), of k]
  have dk: "distinct (List.map fst (filters_iter L m))"
    using slots_distinct [OF assms(1,2)] .
  have d: "distinct (filters_iter L m)" "distinct (filters_iter L (filters_remove L m k))"
    using dk slots_distinct [OF assms(1) rem(1)] by (auto simp: distinct_map)
  have same: "e = (k, f)" if "e \<in> set (filters_iter L m)" "fst e = k" for e
    using dk assms(3) that by (cases e) (auto dest: eq_key_imp_eq_value)
  have "set (filters_iter L m) = insert (k, f) {e \<in> set (filters_iter L m). fst e \<noteq> k}"
    using same assms(3) by blast
  then have "set (filters_iter L m) = set ((k, f) # filters_iter L (filters_remove L m k))"
    by (simp only: rem(2) list.set)
  moreover have "distinct ((k, f) # filters_iter L (filters_remove L m k))"
    using d rem(2) by simp
  ultimately have "mset (filters_iter L m) = mset ((k, f) # filters_iter L (filters_remove L m k))"
    using d(1) by (simp only: set_eq_iff_mset_eq_distinct)
  then show ?thesis by simp
qed

section \<open>The invariant between filters and subscribers\<close>

definition queue_inv :: "('k, 'm, 's, 'c) slots \<Rightarrow> ('m, 's, 't) queue_state \<Rightarrow> bool" where
  "queue_inv L st \<longleftrightarrow>
     slots_ok L \<and> slots_paired L (qs_filters st) (qs_subscribers st) \<and>
     (\<forall>k \<in> fst ` set (filters_iter L (qs_filters st)). subs_get L (qs_subscribers st) k \<noteq> None)"

definition waiting ::
    "('k, 'm, 's, 'c) slots \<Rightarrow> ('m, 's, 't) queue_state \<Rightarrow> (generic_filter \<times> 'c subscriber) multiset" where
  "waiting L st =
     image_mset (\<lambda>(k, f). (f, the (subs_get L (qs_subscribers st) k)))
       (mset (filters_iter L (qs_filters st)))"

lemma queue_inv_default: "slots_ok L \<Longrightarrow> queue_inv L (queue_default L)"
  by (simp add: queue_inv_def queue_default_def slots_new)

lemma waiting_default: "slots_ok L \<Longrightarrow> waiting L (queue_default L) = {#}"
  by (simp add: waiting_def queue_default_def slots_new)

lemma queue_inv_messages [simp]: "queue_inv L (st\<lparr>qs_messages := ms\<rparr>) = queue_inv L st"
  by (simp add: queue_inv_def)

lemma waiting_messages [simp]: "waiting L (st\<lparr>qs_messages := ms\<rparr>) = waiting L st"
  by (simp add: waiting_def)

lemma add_subscriber_messages [simp]: "qs_messages (add_subscriber L f sub st) = qs_messages st"
  by (simp add: add_subscriber_def split: prod.split)

lemma remove_subscriber_messages [simp]: "qs_messages (remove_subscriber L k st) = qs_messages st"
  by (simp add: remove_subscriber_def)

lemma queue_inv_add:
  assumes "queue_inv L st"
  shows "queue_inv L (add_subscriber L f sub st)"
    and "waiting L (add_subscriber L f sub st) = add_mset (f, sub) (waiting L st)"
proof -
  obtain k m' where ins: "filters_insert L (qs_filters st) f = (k, m')" by force
  from assms have L: "slots_ok L" and p: "slots_paired L (qs_filters st) (qs_subscribers st)"
    and got: "\<forall>k \<in> fst ` set (filters_iter L (qs_filters st)). subs_get L (qs_subscribers st) k \<noteq> None"
    by (auto simp: queue_inv_def)
  note new = slots_insert [OF L p ins]
  have k: "k \<in> fst ` set (filters_iter L m')" using new(3) by force
  note sub = slots_subs_insert [OF L new(1) k, where v = sub]
  have old: "subs_get L (subs_insert L (qs_subscribers st) k sub) k' = subs_get L (qs_subscribers st) k'"
    if "k' \<in> fst ` set (filters_iter L (qs_filters st))" for k'
    using sub(3) [of k'] new(2,3) that by auto
  show "queue_inv L (add_subscriber L f sub st)"
    using L sub(1,2) old got new(3) by (auto simp: queue_inv_def add_subscriber_def ins)
  show "waiting L (add_subscriber L f sub st) = add_mset (f, sub) (waiting L st)"
    using sub(2) old slots_insert_mset [OF L p ins]
    by (force simp: waiting_def add_subscriber_def ins intro!: image_mset_cong)
qed

lemma queue_inv_remove:
  assumes "queue_inv L st" and "(k, f) \<in> set (filters_iter L (qs_filters st))"
  shows "queue_inv L (remove_subscriber L k st)"
    and "waiting L st =
      add_mset (f, the (subs_get L (qs_subscribers st) k)) (waiting L (remove_subscriber L k st))"
proof -
  from assms(1) have L: "slots_ok L" and p: "slots_paired L (qs_filters st) (qs_subscribers st)"
    by (auto simp: queue_inv_def)
  note rem = slots_remove [OF L p, of k]
  note sub = slots_subs_remove [OF L rem(1), where k = k]
  show "queue_inv L (remove_subscriber L k st)"
    using assms(1) L sub(1) sub(2) rem(2)
    by (auto simp: queue_inv_def remove_subscriber_def)
  show "waiting L st =
      add_mset (f, the (subs_get L (qs_subscribers st) k)) (waiting L (remove_subscriber L k st))"
    using sub(2) rem(2) slots_remove_mset [OF L p assms(2)]
    by (auto simp: waiting_def remove_subscriber_def intro!: image_mset_cong)
qed

lemma match_filter_Some:
  "match_filter L st msg = Some k \<Longrightarrow>
     \<exists>f. (k, f) \<in> set (filters_iter L (qs_filters st)) \<and> is_match f msg"
  by (auto simp: match_filter_def find_Some_iff) (metis nth_mem)

lemma match_filter_None:
  "match_filter L st msg = None \<Longrightarrow> \<forall>(f, _) \<in># waiting L st. \<not> is_match f msg"
  by (auto simp: match_filter_def find_None_iff waiting_def)

lemma queue_step_inv:
  assumes "queue_inv L st" and "queue_step L st e = Inr (st', outs)"
  shows "queue_inv L st'"
proof (cases e)
  case (Subscribe send_ok f chan)
  show ?thesis
  proof (cases chan)
    case (Oneshot tx)
    show ?thesis
      by (rule try_pull_one_cases [of st f send_ok tx])
         (use assms Subscribe Oneshot in \<open>auto simp: queue_inv_add\<close>)
  next
    case (Stream tx)
    then show ?thesis
      using assms Subscribe
      by (auto simp: result_iff try_pull_many_def intro!: queue_inv_add)
  qed
next
  case (Incoming send_ok msg)
  then show ?thesis
    using assms
    by (auto split: option.splits subscriber.splits if_splits
        dest!: match_filter_Some intro: queue_inv_remove)
qed

interpretation queue: stepping "queue_step L" "queue_inv L" "\<lambda>_. True" for L
  by unfold_locales (rule queue_step_inv)

end
