(* ===== verification/Mesh_Loop.thy ===== *)
theory Mesh_Loop
  imports Provisioner Queue_Facts
begin

text \<open>
  The mesh loop, \<open>LoopCtx::run\<close> and \<open>try_attach\<close> in \<open>src/mesh/mod.rs\<close>: which D-Bus calls
  each event makes, in order, and what it does to the set of devices being provisioned and
  to the map of connected nodes. The D-Bus peer is an argument: the result of each call.
\<close>

section \<open>D-Bus calls\<close>

text \<open>The methods of \<open>proxies.rs\<close> the loop uses; the options arguments are the defaults.\<close>

datatype 'u dbus_call =
    Create_Network 'u
  | Create_App_Key net_index app_index
  | Addresses
  | Unprovisioned_Scan
  | Add_Node 'u
  | Send mesh_addr app_index "u8 list"
  | Dev_Key_Send mesh_addr bool net_index "u8 list"
  | Add_App_Key mesh_addr app_index net_index bool

datatype 'z stop = Returned 'z | Panicked panic

text \<open>\<open>.await?\<close> on a call: it is made, and its error ends the function.\<close>

definition dbus :: "('u dbus_call \<Rightarrow> 'z option) \<Rightarrow> 'u dbus_call \<Rightarrow> ('u dbus_call, 'z stop, unit) action" where
  "dbus fails c = ([c], case fails c of None \<Rightarrow> Inr () | Some z \<Rightarrow> Inl (Returned z))"

text \<open>
  The proxies a function builds before it makes calls through them: \<open>new\<close> or
  \<open>builder(..).path(..)?.build().await?\<close>, whose error ends the function. Building one calls
  no method of \<open>proxies.rs\<close>.
\<close>

datatype proxy = Network1_Proxy | Management1_Proxy | Node1_Proxy

definition build :: "(proxy \<Rightarrow> 'z option) \<Rightarrow> proxy \<Rightarrow> ('o, 'z stop, unit) action" where
  "build build_err p = ([], case build_err p of None \<Rightarrow> Inr () | Some z \<Rightarrow> Inl (Returned z))"

definition lift_panic :: "panic + 'a \<Rightarrow> ('o, 'z stop, 'a) action" where
  "lift_panic r = ([], case r of Inl p \<Rightarrow> Inl (Panicked p) | Inr x \<Rightarrow> Inr x)"

section \<open>The loop's state\<close>

record 'u loop_state =
  discovering :: "'u list"
  connected :: "(mesh_addr, 'u) btree_map"

definition loop_init :: "'u loop_state" where
  "loop_init = \<lparr>discovering = [], connected = []\<rparr>"

text \<open>The filter of the sensor subscription made when the loop starts.\<close>

definition sensor_filter :: generic_filter where
  "sensor_filter =
     generic_of_filter (Filter_app_index MAIN_APP_INDEX
       (Filter_opcode BleWsSensorValues_opcode Filter_default))"

text \<open>
  The beginning of \<open>run\<close>: the proxies, the scan, the subscription. \<open>queue_alive\<close> is false when
  the message queue has ended, so that \<open>subscribe\<close> panics.
\<close>

definition run_setup ::
    "(proxy \<Rightarrow> 'z option) \<Rightarrow> ('u dbus_call \<Rightarrow> 'z option) \<Rightarrow> bool \<Rightarrow>
     ('u dbus_call, 'z stop, 'u loop_state) action" where
  "run_setup build_err fails queue_alive =
     bind_action (build build_err Management1_Proxy) (\<lambda>_.
     bind_action (build build_err Node1_Proxy) (\<lambda>_.
     bind_action (dbus fails Unprovisioned_Scan) (\<lambda>_.
       if queue_alive then done_with loop_init
       else stop_with (Panicked (Expect_Failed ''Message queue crashed'')))))"

section \<open>The arms of the loop\<close>

text \<open>
  The timer arm: trigger the collection task, then send a read request to every connected
  node. \<open>collector_alive\<close> is false when the collection task has ended.
\<close>

fun send_reads ::
    "bytes_lib \<Rightarrow> ('u dbus_call \<Rightarrow> 'z option) \<Rightarrow> mesh_addr list \<Rightarrow> ('u dbus_call, 'z stop, unit) action" where
  "send_reads B fails [] = done_with ()"
| "send_reads B fails (addr # addrs) =
     bind_action (lift_panic (BleWsReadSensor_encode B)) (\<lambda>data.
     bind_action (dbus fails (Send addr MAIN_APP_INDEX data)) (\<lambda>_.
     send_reads B fails addrs))"

definition on_tick ::
    "bytes_lib \<Rightarrow> ('u dbus_call \<Rightarrow> 'z option) \<Rightarrow> bool \<Rightarrow> 'u loop_state \<Rightarrow>
     ('u dbus_call, 'z stop, 'u loop_state) action" where
  "on_tick B fails collector_alive st =
     (if collector_alive
      then bind_action (send_reads B fails (bt_keys (connected st))) (\<lambda>_. done_with st)
      else stop_with (Panicked (Expect_Failed ''Collection task died'')))"

definition on_discovered ::
    "('u::linorder dbus_call \<Rightarrow> 'z option) \<Rightarrow> 'u \<Rightarrow> 'u loop_state \<Rightarrow>
     ('u dbus_call, 'z stop, 'u loop_state) action" where
  "on_discovered fails uuid st =
     (let (new, discovering') = bs_insert uuid (discovering st);
          st = st\<lparr>discovering := discovering'\<rparr>
      in if new then bind_action (dbus fails (Add_Node uuid)) (\<lambda>_. done_with st)
         else done_with st)"

definition bind_request :: "mesh_addr \<Rightarrow> config_model_app_bind" where
  "bind_request addr =
     \<lparr>bind_element_address = addr, bind_app_key_index = 0,
      bind_model_identifier = Model_Vendor COMPANY_ID 0x0000\<rparr>"

text \<open>
  \<open>pull_msg(..).await.unwrap()\<close>. The queue has ended and does not take the subscription, or it
  takes it and drops it without a message, or it hands a message over; an unparsable payload
  panics too.
\<close>

datatype 't reply = Queue_Gone | No_Reply | Replied "'t generic_message"

fun pull_msg_result :: "(u8 list \<Rightarrow> 'p option) \<Rightarrow> 't reply \<Rightarrow> panic + (mesh_addr \<times> 'p) option" where
  "pull_msg_result parse_payload Queue_Gone = Inl (Expect_Failed ''Message queue crashed'')"
| "pull_msg_result parse_payload (No_Reply :: 't reply) =
     pull_msg_reply parse_payload (None :: 't generic_message option)"
| "pull_msg_result parse_payload (Replied msg) = pull_msg_reply parse_payload (Some msg)"

definition await_reply ::
    "(u8 list \<Rightarrow> 'p option) \<Rightarrow> 't reply \<Rightarrow> ('o, 'z stop, mesh_addr \<times> 'p) action" where
  "await_reply parse_payload reply =
     bind_action (lift_panic (pull_msg_result parse_payload reply)) (\<lambda>r.
       case r of None \<Rightarrow> stop_with (Panicked Unwrap_Failed) | Some x \<Rightarrow> done_with x)"

definition on_node_added ::
    "'e nom \<Rightarrow> bytes_lib \<Rightarrow> ('u::linorder dbus_call \<Rightarrow> 'z option) \<Rightarrow>
     't reply \<Rightarrow> 't reply \<Rightarrow> 'u node \<Rightarrow> 'u loop_state \<Rightarrow>
     ('u dbus_call, 'z stop, 'u loop_state) action" where
  "on_node_added N B fails key_reply bind_reply node st =
     (let uuid = node_uuid node;
          unicast_addr = node_unicast_addr node;
          st = st\<lparr>discovering := bs_remove uuid (discovering st)\<rparr>
      in
       bind_action (dbus fails Unprovisioned_Scan) (\<lambda>_.
       bind_action (dbus fails (Add_App_Key unicast_addr MAIN_APP_INDEX MAIN_NET_INDEX False)) (\<lambda>_.
       bind_action (await_reply (ConfigAppKeyStatus_parse_payload N) key_reply) (\<lambda>(_, msg).
       bind_action (lift_panic (ConfigModelAppBind_encode B (bind_request unicast_addr))) (\<lambda>data.
       bind_action (dbus fails (Dev_Key_Send unicast_addr True MAIN_NET_INDEX data)) (\<lambda>_.
       bind_action (await_reply (ConfigModelAppStatus_parse_payload N) bind_reply) (\<lambda>(_, msg).
       done_with (st\<lparr>connected := bt_insert unicast_addr uuid (connected st)\<rparr>))))))))"

text \<open>One turn of the loop; a failed node is only logged.\<close>

datatype ('u, 'z, 't) loop_event =
    Tick "'u dbus_call \<Rightarrow> 'z option" bool
  | Received "'u dbus_call \<Rightarrow> 'z option" "'t reply" "'t reply" "'u event"

fun loop_turn ::
    "'e nom \<Rightarrow> bytes_lib \<Rightarrow> 'u::linorder loop_state \<Rightarrow> ('u, 'z, 't) loop_event \<Rightarrow>
     ('u dbus_call, 'z stop, 'u loop_state) action" where
  "loop_turn N B st (Tick fails alive) = on_tick B fails alive st"
| "loop_turn N B st (Received fails key_reply bind_reply (DeviceDiscovered uuid rssi)) =
     on_discovered fails uuid st"
| "loop_turn N B st (Received fails key_reply bind_reply (NodeAdded (Inr node))) =
     on_node_added N B fails key_reply bind_reply node st"
| "loop_turn N B st (Received fails key_reply bind_reply (NodeAdded (Inl e))) = done_with st"

text \<open>The loop goes on until a turn returns an error or panics.\<close>

fun loop_run ::
    "'e nom \<Rightarrow> bytes_lib \<Rightarrow> 'u::linorder loop_state \<Rightarrow> ('u, 'z, 't) loop_event list \<Rightarrow>
     ('u dbus_call, 'z stop, 'u loop_state) action" where
  "loop_run N B st [] = done_with st"
| "loop_run N B st (e # es) = bind_action (loop_turn N B st e) (\<lambda>st. loop_run N B st es)"

section \<open>Attaching\<close>

text \<open>
  \<open>try_attach\<close>: build the proxy of the network, create the network, wait for the node path (\<open>join\<close> is what the
  application object sends: a path or an error, nothing when it is gone), build the two proxies of the node, create and add the
  application key, bind it to the local model. \<open>addresses\<close> is the property read.
\<close>

definition try_attach ::
    "'e nom \<Rightarrow> bytes_lib \<Rightarrow> (proxy \<Rightarrow> 'z option) \<Rightarrow> ('u dbus_call \<Rightarrow> 'z option) \<Rightarrow> 'u \<Rightarrow>
     ('j + 'n) option \<Rightarrow> mesh_addr list \<Rightarrow> 't reply \<Rightarrow> ('u dbus_call, 'z stop, 'n) action" where
  "try_attach N B build_err fails uuid join addresses bind_reply =
     bind_action (build build_err Network1_Proxy) (\<lambda>_.
     bind_action (dbus fails (Create_Network uuid)) (\<lambda>_.
     bind_action (case join of Some (Inr path) \<Rightarrow> done_with path
                             | _ \<Rightarrow> stop_with (Panicked Unwrap_Failed)) (\<lambda>node_path.
     bind_action (build build_err Management1_Proxy) (\<lambda>_.
     bind_action (build build_err Node1_Proxy) (\<lambda>_.
     bind_action (dbus fails (Create_App_Key MAIN_NET_INDEX MAIN_APP_INDEX)) (\<lambda>_.
     bind_action (dbus fails Addresses) (\<lambda>_.
     bind_action (case addresses of [] \<Rightarrow> stop_with (Panicked Index_Out_Of_Bounds)
                                  | addr # _ \<Rightarrow> done_with addr) (\<lambda>addr.
     bind_action (dbus fails (Add_App_Key addr MAIN_APP_INDEX MAIN_NET_INDEX False)) (\<lambda>_.
     bind_action (lift_panic (ConfigModelAppBind_encode B (bind_request (MeshAddr 0x0001)))) (\<lambda>data.
     bind_action (dbus fails (Dev_Key_Send (MeshAddr 0x0001) True MAIN_NET_INDEX data)) (\<lambda>_.
     bind_action (await_reply (ConfigModelAppStatus_parse_payload N) bind_reply) (\<lambda>_.
     done_with node_path))))))))))))"

text \<open>
  The retry loop around it: a \<open>NotFound\<close> error uses up one of five attempts, any other
  error is retried after a pause without a limit. \<open>None\<close>: still trying.
\<close>

datatype 'n attach_result = Attached 'n | Not_Found | Other_Error

fun attach_loop :: "nat \<Rightarrow> 'n attach_result list \<Rightarrow> (panic + 'n) option" where
  "attach_loop max_timeouts [] = None"
| "attach_loop max_timeouts (Attached node_path # rs) = Some (Inr node_path)"
| "attach_loop max_timeouts (Not_Found # rs) =
     (let max_timeouts = max_timeouts - 1
      in if max_timeouts = 0
         then Some (Inl (Explicit_Panic ''Too many timeouts while trying to connect to org.bluez.mesh''))
         else attach_loop max_timeouts rs)"
| "attach_loop max_timeouts (Other_Error # rs) = attach_loop max_timeouts rs"

definition attach :: "'n attach_result list \<Rightarrow> (panic + 'n) option" where
  "attach rs = attach_loop 5 rs"

section \<open>The mesh task\<close>

text \<open>
  The task \<open>listen\<close> spawns: attach, then run the loop again and again. A run that returns an
  error is logged and followed by the next one, which starts with an empty state; a panic ends
  the task. A run is the results of building its proxies and of its calls, whether the message
  queue is there, and the events it gets; the calls of attaching are those of \<open>try_attach\<close> and not repeated here.
\<close>

type_synonym ('u, 'z, 't) loop_input =
  "(proxy \<Rightarrow> 'z option) \<times> ('u dbus_call \<Rightarrow> 'z option) \<times> bool \<times> ('u, 'z, 't) loop_event list"

fun mesh_runs ::
    "'e nom \<Rightarrow> bytes_lib \<Rightarrow> ('u::linorder, 'z, 't) loop_input list \<Rightarrow>
     ('u dbus_call, panic, 'u loop_state) action" where
  "mesh_runs N B [] = done_with loop_init"
| "mesh_runs N B ((build_err, fails, queue_alive, events) # runs) =
     (case bind_action (run_setup build_err fails queue_alive) (\<lambda>st. loop_run N B st events) of
        (calls, Inl (Panicked p)) \<Rightarrow> (calls, Inl p)
      | (calls, Inl (Returned e)) \<Rightarrow> bind_action (calls, Inr ()) (\<lambda>_. mesh_runs N B runs)
      | (calls, Inr st) \<Rightarrow> (calls, Inr st))"

definition mesh_task ::
    "'e nom \<Rightarrow> bytes_lib \<Rightarrow> 'n attach_result list \<Rightarrow>
     ('u::linorder, 'z, 't) loop_input list \<Rightarrow>
     ('u dbus_call, panic, 'u loop_state) action" where
  "mesh_task N B attach_results runs =
     (case attach attach_results of
        None \<Rightarrow> done_with loop_init
      | Some (Inl p) \<Rightarrow> stop_with p
      | Some (Inr node_path) \<Rightarrow> mesh_runs N B runs)"

end
