(* ===== verification/Mesh_Objects.thy ===== *)
theory Mesh_Objects
  imports Mesh_Loop
begin

text \<open>
  The D-Bus objects the server offers to the mesh daemon (\<open>MeshService\<close>, \<open>MeshApp\<close>,
  \<open>ProvisionAgent\<close> and \<open>Element\<close> in \<open>src/mesh/mod.rs\<close>) and how addresses and bytes
  are shown (\<open>src/util.rs\<close>, \<open>src/mesh/proto/mod.rs\<close>).
\<close>

section \<open>Text\<close>

definition hex_digit :: "nat \<Rightarrow> char" where
  "hex_digit n = ''0123456789abcdef'' ! n"

text \<open>\<open>{:02x}\<close> of a byte.\<close>

definition hex2 :: "u8 \<Rightarrow> string" where
  "hex2 b = [hex_digit (unat b div 16), hex_digit (unat b mod 16)]"

definition hex_display :: "u8 list \<Rightarrow> string" where
  "hex_display bs = ''0x'' @ concat (List.map hex2 bs)"

text \<open>\<open>{:#06x}\<close> of an address: four digits after the prefix.\<close>

definition mesh_addr_display :: "mesh_addr \<Rightarrow> string" where
  "mesh_addr_display addr = ''0x'' @ hex2 (hi8 (as_u16 addr)) @ hex2 (lo8 (as_u16 addr))"

text \<open>\<open>Debug\<close> of a model identifier; \<open>ne_bytes\<close> is the target's byte order.\<close>

fun model_identifier_debug :: "(u16 \<Rightarrow> u8 list) \<Rightarrow> model_identifier \<Rightarrow> string" where
  "model_identifier_debug ne_bytes (Model_Sig arg0) =
     ''Sig('' @ hex_display (ne_bytes arg0) @ '')''"
| "model_identifier_debug ne_bytes (Model_Vendor company_id model_id) =
     ''Vendor { company_id: '' @ hex_display (ne_bytes company_id) @
     '', model_id: '' @ hex_display (ne_bytes model_id) @ '' }''"

lemma hex_digit_inj: "m < 16 \<Longrightarrow> n < 16 \<Longrightarrow> hex_digit m = hex_digit n \<longleftrightarrow> m = n"
proof -
  have "distinct ''0123456789abcdef''" by simp
  then show "m < 16 \<Longrightarrow> n < 16 \<Longrightarrow> hex_digit m = hex_digit n \<longleftrightarrow> m = n"
    unfolding hex_digit_def by (subst nth_eq_iff_index_eq) simp_all
qed

lemma hex2_inj: "hex2 a = hex2 b \<longleftrightarrow> a = b"
proof
  assume "hex2 a = hex2 b"
  moreover have "unat c div 16 < 16" for c :: u8
  proof -
    have "unat c < 2 ^ LENGTH(8)" by (rule unsigned_less)
    then show ?thesis by simp
  qed
  ultimately have "unat a div 16 = unat b div 16" "unat a mod 16 = unat b mod 16"
    by (simp_all add: hex2_def hex_digit_inj)
  then have "unat a = unat b" by (metis div_mult_mod_eq)
  then show "a = b" by (simp add: word_unat_eq_iff)
qed simp

lemma hex_display_inj: "hex_display xs = hex_display ys \<longleftrightarrow> xs = ys"
proof (induction xs arbitrary: ys)
  case Nil
  then show ?case by (cases ys) (simp_all add: hex_display_def hex2_def)
next
  case (Cons x xs)
  show ?case
  proof (cases ys)
    case Nil
    then show ?thesis by (simp add: hex_display_def hex2_def)
  next
    case Y: (Cons y ys')
    have "hex_display (x # xs) = hex_display (y # ys') \<longleftrightarrow>
        hex2 x = hex2 y \<and> hex_display xs = hex_display ys'"
      by (auto simp: hex_display_def hex2_def)
    then show ?thesis using Cons.IH Y hex2_inj by auto
  qed
qed

section \<open>The service and its objects\<close>

record vendor_model =
  vm_company_id :: u16
  vm_id :: u16
  vm_opts :: "(string \<times> string) list"

definition to_dbus_obj :: "vendor_model \<Rightarrow> u16 \<times> u16 \<times> (string \<times> string) list" where
  "to_dbus_obj m = (vm_company_id m, vm_id m, vm_opts m)"

record mesh_service =
  ms_company_id :: u16
  ms_product_id :: u16
  ms_version_id :: u16
  ms_capabilities :: "string list"
  ms_models :: "(u16 \<times> (string \<times> string) list) list"
  ms_vendor_models :: "(u16 \<times> u16 \<times> (string \<times> string) list) list"

definition listen_service :: mesh_service where
  "listen_service =
     \<lparr>ms_company_id = 0x0000, ms_product_id = 0x0000, ms_version_id = 0x0000,
      ms_capabilities = [], ms_models = [],
      ms_vendor_models =
        [to_dbus_obj \<lparr>vm_company_id = COMPANY_ID, vm_id = 0x0000, vm_opts = []\<rparr>,
         to_dbus_obj \<lparr>vm_company_id = COMPANY_ID, vm_id = 0x0001, vm_opts = []\<rparr>]\<rparr>"

definition MAIN_PATH :: string where
  "MAIN_PATH = ''/li/_5kw/BleWsCentral''"

definition APPLICATION_PATH :: string where
  "APPLICATION_PATH = ''/li/_5kw/BleWsCentral/application''"

definition AGENT_PATH :: string where
  "AGENT_PATH = ''/li/_5kw/BleWsCentral/agent''"

definition ELEMENT_PATH :: string where
  "ELEMENT_PATH = ''/li/_5kw/BleWsCentral/ele00''"

text \<open>Property values as they go over the bus; a hash map is a map.\<close>

datatype dbus_value =
    Value_U8 u8
  | Value_U16 u16
  | Value_Strings "string list"
  | Value_Models "(u16 \<times> (string \<times> string) list) list"
  | Value_Vendor_Models "(u16 \<times> u16 \<times> (string \<times> string) list) list"

type_synonym managed_objects = "string \<rightharpoonup> string \<rightharpoonup> string \<rightharpoonup> dbus_value"

definition to_managed_objects :: "mesh_service \<Rightarrow> managed_objects" where
  "to_managed_objects self =
     [APPLICATION_PATH \<mapsto>
        [''org.bluez.mesh.Application1'' \<mapsto>
           [''CompanyID'' \<mapsto> Value_U16 (ms_company_id self),
            ''ProductID'' \<mapsto> Value_U16 (ms_product_id self),
            ''VersionID'' \<mapsto> Value_U16 (ms_version_id self)],
         ''org.bluez.mesh.Provisioner1'' \<mapsto> Map.empty],
      AGENT_PATH \<mapsto>
        [''org.bluez.mesh.ProvisionAgent1'' \<mapsto>
           [''Capabilities'' \<mapsto> Value_Strings (ms_capabilities self)]],
      ELEMENT_PATH \<mapsto>
        [''org.bluez.mesh.Element1'' \<mapsto>
           [''Models'' \<mapsto> Value_Models (ms_models self),
            ''VendorModels'' \<mapsto> Value_Vendor_Models (ms_vendor_models self),
            ''Index'' \<mapsto> Value_U8 0]]]"

text \<open>
  The objects \<open>listen\<close> puts on the bus, each with the interface of its type, and the interfaces it
  announces: the daemon finds exactly what is served.
\<close>

definition served_objects :: "(string \<times> string) list" where
  "served_objects =
     [(MAIN_PATH, ''org.freedesktop.DBus.ObjectManager''),
      (APPLICATION_PATH, ''org.bluez.mesh.Application1''),
      (AGENT_PATH, ''org.bluez.mesh.ProvisionAgent1''),
      (ELEMENT_PATH, ''org.bluez.mesh.Element1''),
      (APPLICATION_PATH, ''org.bluez.mesh.Provisioner1'')]"

lemmas path_defs = MAIN_PATH_def APPLICATION_PATH_def AGENT_PATH_def ELEMENT_PATH_def

lemma announced_objects_served:
  "(\<exists>interfaces. to_managed_objects service path = Some interfaces \<and> interfaces name \<noteq> None) \<longleftrightarrow>
     (path, name) \<in> set served_objects \<and> path \<noteq> MAIN_PATH"
proof -
  have "to_managed_objects service MAIN_PATH = None"
    by (simp add: to_managed_objects_def path_defs)
  then show ?thesis
    by (auto simp: to_managed_objects_def served_objects_def path_defs)
qed

text \<open>
  The application object: the daemon reports the token of the created network, a spawned task
  attaches with it and sends the result (\<open>loop_alive\<close>: somebody still receives it).
\<close>

definition join_complete ::
    "bool \<Rightarrow> bool \<Rightarrow> ('j + 'n) \<Rightarrow> panic + ('j + 'n)" where
  "join_complete proxy_ok loop_alive attach_result =
     (if \<not> proxy_ok then Inl Unwrap_Failed
      else
        (case attach_result of
           Inr node_path \<Rightarrow> if loop_alive then Inr (Inr node_path) else Inl Unwrap_Failed
         | Inl e \<Rightarrow> if loop_alive then Inr (Inl e) else Inl Unwrap_Failed))"

definition join_failed :: "bool \<Rightarrow> string \<Rightarrow> panic + (string + 'n)" where
  "join_failed loop_alive msg =
     (if loop_alive then Inr (Inl (''Failed joining: '' @ msg)) else Inl Unwrap_Failed)"

text \<open>The provisioning agent; the display calls do nothing.\<close>

definition agent_private_key :: "panic + u8 list" where
  "agent_private_key = Inl (Explicit_Panic ''not implemented'')"

definition agent_public_key :: "panic + u8 list" where
  "agent_public_key = Inl (Explicit_Panic ''not implemented'')"

definition prompt_numeric :: "string \<Rightarrow> u32" where
  "prompt_numeric kind = 42"

definition prompt_static :: "string \<Rightarrow> u8 list" where
  "prompt_static kind = replicate 16 0"

section \<open>The element: received messages\<close>

text \<open>
  The destination is an address, a label of a virtual address, or something else, which
  panics before the message is read. A message that does not parse is only logged.
\<close>

datatype destination = Dest_Addr u16 | Dest_Virtual "u8 list" | Dest_Other

fun destination_text :: "destination \<Rightarrow> panic + string" where
  "destination_text (Dest_Addr addr) = Inr (mesh_addr_display (MeshAddr addr))"
| "destination_text (Dest_Virtual virt_addr) = Inr (hex_display virt_addr)"
| "destination_text Dest_Other = Inl (Explicit_Panic ''Bluez sent garbage address'')"

definition message_received ::
    "'e nom \<Rightarrow> bool \<Rightarrow> ('c, 't) send_result \<Rightarrow> 't \<Rightarrow> mesh_addr \<Rightarrow> app_index \<Rightarrow> destination \<Rightarrow> u8 list \<Rightarrow>
     panic + ('c, 't) queue_event option" where
  "message_received N queue_alive send_ok now source_addr key_index destination data =
     and_then (destination_text destination) (\<lambda>_.
       case parse_message N data of
         Inr msg \<Rightarrow>
           and_then (push_msg queue_alive send_ok now msg (Meta_Normal source_addr key_index))
             (\<lambda>event. Inr (Some event))
       | Inl e \<Rightarrow> Inr None)"

definition dev_key_message_received ::
    "'e nom \<Rightarrow> bool \<Rightarrow> ('c, 't) send_result \<Rightarrow> 't \<Rightarrow> mesh_addr \<Rightarrow> bool \<Rightarrow> net_index \<Rightarrow> u8 list \<Rightarrow>
     panic + ('c, 't) queue_event option" where
  "dev_key_message_received N queue_alive send_ok now source_addr remote net_index data =
     (case parse_message N data of
        Inr msg \<Rightarrow>
          and_then (push_msg queue_alive send_ok now msg (Meta_Device source_addr net_index))
            (\<lambda>event. Inr (Some event))
      | Inl e \<Rightarrow> Inr None)"

definition element_index :: u8 where
  "element_index = 0"

end
