(* ===== verification/Mesh_Loop_Facts.thy ===== *)
theory Mesh_Loop_Facts
  imports Mesh_Loop
begin

text \<open>
  Properties of the mesh loop: the calls of each arm, what a run does to the connected nodes,
  how often a device is provisioned, what a restart forgets, and when attaching gives up.
\<close>

section \<open>Calls of single arms\<close>

lemma dbus_simps [action_simps]:
  "fails c = None \<Longrightarrow> dbus fails c = ([c], Inr ())"
  "fails c = Some z \<Longrightarrow> dbus fails c = ([c], Inl (Returned z))"
  by (simp_all add: dbus_def)

lemma lift_panic_Inr [action_simps]: "lift_panic (Inr x) = done_with x"
  by (simp add: lift_panic_def done_with_def)

lemma read_sensor_bytes: "bytes_ok B \<Longrightarrow> BleWsReadSensor_encode B = Inr [0xc0, 0xf1, 0x05]"
  using read_sensor.encode_bytes [of B BleWsReadSensor]
  by (simp add: BleWsReadSensor_encode_def BleWsReadSensor_opcode_def new_vendor_def
      COMPANY_ID_def lo8_def hi8_def)

definition read_request :: "mesh_addr \<Rightarrow> 'u dbus_call" where
  "read_request addr = Send addr MAIN_APP_INDEX [0xc0, 0xf1, 0x05]"

lemma send_reads_all:
  assumes "bytes_ok B" and "\<forall>a \<in> set addrs. fails (read_request a) = None"
  shows "send_reads B fails addrs = (List.map read_request addrs, Inr ())"
  using assms(2)
  by (induction addrs)
     (simp_all add: action_simps read_sensor_bytes [OF assms(1)] read_request_def done_with_def)

lemma send_reads_failing:
  assumes "bytes_ok B" and "\<forall>a \<in> set xs. fails (read_request a) = None"
    and "fails (read_request a) = Some z"
  shows "send_reads B fails (xs @ a # ys) =
           (List.map read_request (xs @ [a]), Inl (Returned z))"
  using assms(2)
  by (induction xs)
     (simp_all add: action_simps read_sensor_bytes [OF assms(1)] assms(3)
        assms(3) [unfolded read_request_def] read_request_def)

lemma await_reply_Some:
  assumes "parse_payload (msg_payload (gm_content m)) = Some p"
  shows "await_reply parse_payload (Replied m) = done_with (gm_source_addr m, p)"
  using assms by (simp add: await_reply_def pull_msg_reply_def action_simps)

definition bind_bytes :: "mesh_addr \<Rightarrow> u8 list" where
  "bind_bytes addr = [0x80, 0x3d] @ app_bind_bytes (bind_request addr)"

lemma bind_encode: "bytes_ok B \<Longrightarrow> ConfigModelAppBind_encode B (bind_request addr) = Inr (bind_bytes addr)"
  using app_bind.encode_bytes [of B "bind_request addr"]
  by (simp add: ConfigModelAppBind_encode_def ConfigModelAppBind_opcode_def bind_bytes_def
      hi8_def lo8_def)

lemma on_node_added_connected:
  assumes "snd (on_node_added N B fails kr br node st) = Inr st'"
  shows "st' = st\<lparr>discovering := bs_remove (node_uuid node) (discovering st),
                  connected := bt_insert (node_unicast_addr node) (node_uuid node) (connected st)\<rparr>"
  using assms
  by (auto simp: on_node_added_def Let_def snd_bind_Inr action_simps split: prod.splits)

section \<open>Runs\<close>

text \<open>The nodes whose provisioning completed, in the order of the events.\<close>

fun added :: "('u, 'z, 't) loop_event list \<Rightarrow> (mesh_addr \<times> 'u) list" where
  "added [] = []"
| "added (Received fails kr br (NodeAdded (Inr node)) # es) =
     (node_unicast_addr node, node_uuid node) # added es"
| "added (_ # es) = added es"

lemma loop_turn_connected:
  assumes "snd (loop_turn N B st e) = Inr st'"
  shows "connected st' = fold (\<lambda>(a, u). bt_insert a u) (added [e]) (connected st)"
  using assms
proof (cases "(N, B, st, e)" rule: loop_turn.cases)
  case (3 N' B' st1 fails kr br node)
  then show ?thesis using assms on_node_added_connected by fastforce
qed (auto simp: on_tick_def on_discovered_def bs_insert_def snd_bind_Inr action_simps Let_def
      split: if_splits)

lemma added_Cons: "added (e # es) = added [e] @ added es"
  by (cases "e # es" rule: added.cases) auto

lemma loop_run_connected:
  "snd (loop_run N B st es) = Inr st' \<Longrightarrow>
     connected st' = fold (\<lambda>(a, u). bt_insert a u) (added es) (connected st)"
proof (induction es arbitrary: st)
  case (Cons e es)
  then obtain st1 where "snd (loop_turn N B st e) = Inr st1" and "snd (loop_run N B st1 es) = Inr st'"
    by (auto simp: snd_bind_Inr)
  with Cons.IH [of st1] loop_turn_connected [of N B st e st1] show ?case
    by (subst added_Cons) simp
qed (simp add: action_simps)

lemma bt_get_fold_insert:
  assumes "bt_ok m"
  shows "bt_get (fold (\<lambda>(a, u). bt_insert a u) kvs m) k =
           (case map_of (rev kvs) k of Some v \<Rightarrow> Some v | None \<Rightarrow> bt_get m k)"
proof (induction kvs rule: rev_induct)
  case (snoc kv kvs)
  obtain a u where kv: "kv = (a, u)" by force
  have "bt_ok (fold (\<lambda>(a, u). bt_insert a u) kvs m)" using assms by (rule bt.invar_fold)
  with snoc show ?case by (simp add: kv bt_get_insert)
qed simp

lemma fst_bind_action:
  "fst (bind_action a f) = fst a @ (case snd a of Inl _ \<Rightarrow> [] | Inr x \<Rightarrow> fst (f x))"
  by (cases a; cases "snd a") auto

text \<open>Provisioning requests for one device.\<close>

definition adds :: "'u \<Rightarrow> 'u dbus_call list \<Rightarrow> nat" where
  "adds u calls = count_list calls (Add_Node u)"

lemma adds_append [simp]: "adds u (xs @ ys) = adds u xs + adds u ys"
  by (simp add: adds_def)

lemma adds_dbus: "adds u (fst (dbus fails c)) = (if c = Add_Node u then 1 else 0)"
  by (simp add: adds_def dbus_def)

lemma adds_simps:
  "adds u [] = 0" "fst (lift_panic r) = []" "fst (done_with x) = []" "fst (stop_with e) = []"
  by (simp_all add: adds_def lift_panic_def done_with_def stop_with_def)

lemma adds_send_reads: "adds u (fst (send_reads B fails addrs)) = 0"
  by (induction addrs) (auto simp: fst_bind_action adds_simps adds_dbus split: sum.split)

lemma adds_await: "fst (await_reply parse reply) = []"
  by (auto simp: await_reply_def fst_bind_action lift_panic_def stop_with_def done_with_def
      split: sum.split option.split)

lemma on_tick_state: "snd (on_tick B fails alive st) = Inr st' \<Longrightarrow> st' = st"
  by (auto simp: on_tick_def snd_bind_Inr action_simps split: if_splits)

lemma adds_tick: "adds u (fst (on_tick B fails alive st)) = 0"
  by (auto simp: on_tick_def fst_bind_action adds_simps adds_send_reads split: sum.split)

lemma adds_node_added: "adds u (fst (on_node_added N B fails kr br node st)) = 0"
  by (auto simp: on_node_added_def Let_def fst_bind_action adds_simps adds_dbus adds_await
      split: sum.split prod.split)

lemma adds_turn:
  "adds u (fst (loop_turn N B st e)) + of_bool (u \<in> set (discovering st)) \<le>
     (case snd (loop_turn N B st e) of
        Inl _ \<Rightarrow> 1
      | Inr st' \<Rightarrow> of_bool (u \<in> set (discovering st')) + count_list (List.map snd (added [e])) u)"
proof (cases "(N, B, st, e)" rule: loop_turn.cases)
  case (1 N' B' st1 fails alive)
  then show ?thesis
    by (auto simp: adds_tick dest: on_tick_state split: sum.split)
next
  case (2 N' B' st1 fails kr br uuid rssi)
  then show ?thesis
    by (cases "fails (Add_Node uuid)")
       (auto simp: on_discovered_def bs_insert_def adds_simps dbus_def done_with_def adds_def
           Let_def)
next
  case (3 N' B' st1 fails kr br node)
  then show ?thesis
    using on_node_added_connected [of N B fails kr br node st]
    by (auto simp: adds_node_added split: sum.split)
next
  case (4 N' B' st1 fails kr br e')
  then show ?thesis by (simp add: adds_simps done_with_def)
qed

lemma adds_run:
  "adds u (fst (loop_run N B st es)) + of_bool (u \<in> set (discovering st)) \<le>
     1 + count_list (List.map snd (added es)) u"
proof (induction es arbitrary: st)
  case Nil
  show ?case by (simp add: adds_simps)
next
  case (Cons e es)
  show ?case
  proof (cases "snd (loop_turn N B st e)")
    case (Inl x)
    then show ?thesis
      using adds_turn [of u N B st e] by (simp add: fst_bind_action)
  next
    case (Inr st1)
    then show ?thesis
      using adds_turn [of u N B st e] Cons.IH [of st1]
      by (subst added_Cons) (simp add: fst_bind_action)
  qed
qed

text \<open>Read requests: a loop without connected nodes makes none until a node is added.\<close>

definition reads :: "'u dbus_call list \<Rightarrow> mesh_addr set" where
  "reads calls = {addr. \<exists>app_index data. Send addr app_index data \<in> set calls}"

lemma reads_simps [simp]: "reads [] = {}" "reads (xs @ ys) = reads xs \<union> reads ys"
  by (auto simp: reads_def)

lemma turn_without_nodes:
  assumes "connected st = []" and "added [e] = []"
  shows "reads (fst (loop_turn N B st e)) = {}"
  using assms
  by (cases "(N, B, st, e)" rule: loop_turn.cases)
     (auto simp: on_tick_def on_discovered_def Let_def adds_simps fst_bind_action reads_def dbus_def
       bt_keys_def split: sum.split prod.split)

lemma run_without_nodes:
  assumes "connected st = []" and "added es = []"
  shows "reads (fst (loop_run N B st es)) = {}"
  using assms
proof (induction es arbitrary: st)
  case Nil
  then show ?case by (simp add: adds_simps)
next
  case (Cons e es)
  have e: "added [e] = []" and es: "added es = []"
    using Cons.prems(2) added_Cons [of e es] by simp_all
  have "reads (fst (loop_run N B st' es)) = {}" if "snd (loop_turn N B st e) = Inr st'" for st'
    using Cons.IH [OF _ es] loop_turn_connected [OF that] e Cons.prems(1) by simp
  then show ?case
    by (auto simp: fst_bind_action turn_without_nodes [OF Cons.prems(1) e] split: sum.split)
qed

lemma run_setup_nodes:
  "reads (fst (run_setup build_err fails alive)) = {}"
  "snd (run_setup build_err fails alive) = Inr st \<Longrightarrow> connected st = []"
  by (auto simp: run_setup_def build_def fst_bind_action snd_bind_Inr dbus_def reads_def done_with_def
      stop_with_def loop_init_def split: option.splits if_splits)

text \<open>
  A restarted loop has forgotten its nodes: after a run that ended with an error, the next one
  sends no read request, whatever happens, until a node is added again.
\<close>

lemma restart_forgets_nodes:
  assumes "bind_action (run_setup build1 fails1 alive1) (\<lambda>st. loop_run N B st es1) = (calls, Inl (Returned e))"
    and "added es2 = []"
  shows "\<exists>calls2. fst (mesh_runs N B [(build1, fails1, alive1, es1), (build2, fails2, alive2, es2)]) = calls @ calls2 \<and> reads calls2 = {}"
proof -
  let ?run2 = "bind_action (run_setup build2 fails2 alive2) (\<lambda>st. loop_run N B st es2)"
  have "reads (fst ?run2) = {}"
    by (auto simp: fst_bind_action run_setup_nodes run_without_nodes [OF run_setup_nodes(2) assms(2)]
        split: sum.split)
  moreover have "fst (mesh_runs N B [(build1, fails1, alive1, es1), (build2, fails2, alive2, es2)]) = calls @ fst ?run2"
    using assms(1) by (cases ?run2) (auto simp: done_with_def split: sum.split stop.split)
  ultimately show ?thesis by blast
qed

section \<open>Properties of the mesh loop\<close>

text \<open>A received message carrying a payload, for the witnesses.\<close>

definition reply_message :: "opcode \<Rightarrow> u8 list \<Rightarrow> nat generic_message" where
  "reply_message op payload =
     GenericMessage_new 0 \<lparr>msg_opcode = op, msg_payload = payload\<rparr>
       (Meta_Device (MeshAddr 5) MAIN_NET_INDEX)"

lemma node_added_calls:
  assumes "nom_ok N" and "bytes_ok B"
    and "app_key_status_payload p (msg_payload (gm_content key_reply))"
    and "app_status_payload q (msg_payload (gm_content bind_reply))"
  shows "on_node_added N B (\<lambda>_. None) (Replied key_reply) (Replied bind_reply) node st =
           ([Unprovisioned_Scan,
             Add_App_Key (node_unicast_addr node) MAIN_APP_INDEX MAIN_NET_INDEX False,
             Dev_Key_Send (node_unicast_addr node) True MAIN_NET_INDEX
               (bind_bytes (node_unicast_addr node))],
            Inr (st\<lparr>discovering := bs_remove (node_uuid node) (discovering st),
                    connected := bt_insert (node_unicast_addr node) (node_uuid node) (connected st)\<rparr>))"
proof -
  have key: "ConfigAppKeyStatus_parse_payload N (msg_payload (gm_content key_reply)) = Some p"
    using assms(3) app_key_status.parse_iff [OF assms(1)] by simp
  have bind: "ConfigModelAppStatus_parse_payload N (msg_payload (gm_content bind_reply)) = Some q"
    using assms(4) app_status.parse_iff [OF assms(1)] by simp
  show ?thesis
    by (simp add: on_node_added_def Let_def action_simps await_reply_Some [where parse_payload = "ConfigAppKeyStatus_parse_payload N", OF key]
        await_reply_Some [where parse_payload = "ConfigModelAppStatus_parse_payload N", OF bind] bind_encode [OF assms(2)])
qed

lemma sample_replies:
  "app_key_status_payload
     \<lparr>aks_status = KeyIndexAlreadyStored, aks_net_key_index = 0, aks_app_key_index = 0\<rparr>
     (msg_payload (gm_content (reply_message ConfigAppKeyStatus_opcode [6, 0, 0, 0])))"
  "app_status_payload
     \<lparr>mas_status = CannotBind, mas_element_address = MeshAddr 5, mas_app_key_index = 0,
      mas_model_identifier = Model_Vendor 0x05f1 0\<rparr>
     (msg_payload (gm_content
       (reply_message ConfigModelAppStatus_opcode [0xd, 5, 0, 0, 0, 0xf1, 5, 0, 0])))"
  by (simp_all add: reply_message_def app_key_status_payload_def key_index_payload_def
      app_status_payload_def status_from_def status_table_def lo8_def hi8_def)

lemmas sample_node_added = node_added_calls [OF nom_reference_ok bytes_reference_ok sample_replies]

text \<open>
  C22: On every tick the loop sends one read request, the bytes c0 f1 05, to each connected node
  in the order of their addresses, and stops at the first node the send fails for, having sent
  to exactly the nodes before it and to it.
\<close>

theorem tick_reads_connected:
  assumes "bytes_ok B" and "bt_keys (connected st) = xs @ ys"
    and "\<forall>a \<in> set xs. fails (read_request a) = None"
    and "case ys of [] \<Rightarrow> z = None | a # _ \<Rightarrow> fails (read_request a) = z \<and> z \<noteq> None"
  shows "on_tick B fails True st =
           (List.map read_request (xs @ take 1 ys),
            case z of None \<Rightarrow> Inr st | Some e \<Rightarrow> Inl (Returned e))"
proof (cases ys)
  case Nil
  then show ?thesis
    using assms send_reads_all [OF assms(1), of xs fails]
    by (simp add: on_tick_def done_with_def)
next
  case (Cons a ys')
  then obtain e where "z = Some e" "fails (read_request a) = Some e" using assms(4) by auto
  then show ?thesis
    using assms(2) Cons send_reads_failing [OF assms(1,3), of a e ys'] by (simp add: on_tick_def)
qed

theorem tick_reads_connected_witness:
  "on_tick bytes_reference (\<lambda>c. if c = read_request (MeshAddr 6) then Some ''failed'' else None) True
     \<lparr>discovering = [], connected = [(MeshAddr 5, 10), (MeshAddr 6, 11), (MeshAddr 7, 12 :: nat)]\<rparr>
   = ([read_request (MeshAddr 5), read_request (MeshAddr 6)], Inl (Returned ''failed''))"
proof -
  have "bt_keys (connected \<lparr>discovering = [],
      connected = [(MeshAddr 5, 10), (MeshAddr 6, 11), (MeshAddr 7, 12 :: nat)]\<rparr>) =
      [MeshAddr 5] @ [MeshAddr 6, MeshAddr 7]"
    by (simp add: bt_keys_def)
  from tick_reads_connected [OF bytes_reference_ok this, of _ "Some ''failed''"] show ?thesis
    by (simp add: read_request_def)
qed

text \<open>
  C23: A provisioned node is set up in a fixed order: scanning resumes, the application key is
  added, and once its status arrived the key is bound to the sensor model; when the second
  status arrived the node is connected under its address. The statuses themselves do not matter:
  a node that refused the key or the binding is connected all the same.
\<close>

theorem node_added_sequence:
  assumes "nom_ok N" and "bytes_ok B"
    and "app_key_status_payload p (msg_payload (gm_content key_reply))"
    and "app_status_payload q (msg_payload (gm_content bind_reply))"
  shows "on_node_added N B (\<lambda>_. None) (Replied key_reply) (Replied bind_reply) node st =
           ([Unprovisioned_Scan,
             Add_App_Key (node_unicast_addr node) MAIN_APP_INDEX MAIN_NET_INDEX False,
             Dev_Key_Send (node_unicast_addr node) True MAIN_NET_INDEX
               (bind_bytes (node_unicast_addr node))],
            Inr (st\<lparr>discovering := bs_remove (node_uuid node) (discovering st),
                    connected := bt_insert (node_unicast_addr node) (node_uuid node) (connected st)\<rparr>))"
  using assms by (rule node_added_calls)

theorem node_added_sequence_witness:
  "on_node_added nom_reference bytes_reference (\<lambda>_. None :: string option)
     (Replied (reply_message ConfigAppKeyStatus_opcode [6, 0, 0, 0]))
     (Replied (reply_message ConfigModelAppStatus_opcode [0xd, 5, 0, 0, 0, 0xf1, 5, 0, 0]))
     \<lparr>node_uuid = (77 :: nat), node_unicast_addr = MeshAddr 5\<rparr> loop_init
   = ([Unprovisioned_Scan, Add_App_Key (MeshAddr 5) MAIN_APP_INDEX MAIN_NET_INDEX False,
       Dev_Key_Send (MeshAddr 5) True MAIN_NET_INDEX (bind_bytes (MeshAddr 5))],
      Inr \<lparr>discovering = [], connected = [(MeshAddr 5, 77)]\<rparr>)"
  by (subst node_added_sequence [OF nom_reference_ok bytes_reference_ok sample_replies])
     (simp add: loop_init_def bs_remove_def)

text \<open>
  C20: However events interleave, the connected nodes after a run are those whose provisioning
  completed in it: an address stands for the device that was added under it last, and no
  address is connected that no device was added under.
\<close>

theorem connected_nodes_were_added:
  assumes "snd (loop_run N B loop_init es) = Inr st'"
  shows "bt_ok (connected st') \<and> bt_get (connected st') a = map_of (rev (added es)) a"
proof -
  have c: "connected st' = fold (\<lambda>(a, u). bt_insert a u) (added es) []"
    using loop_run_connected [OF assms] by (simp add: loop_init_def)
  then have "bt_ok (connected st')" using bt.invar_fold [of "[]"] by simp
  moreover have "bt_get (connected st') a = map_of (rev (added es)) a"
    unfolding c by (subst bt_get_fold_insert) (simp_all add: bt_get_def split: option.split)
  ultimately show ?thesis by simp
qed

theorem connected_nodes_were_added_witness:
  "\<exists>st'. snd (loop_run nom_reference bytes_reference (loop_init :: nat loop_state)
            [Received (\<lambda>_. None :: string option)
               (Replied (reply_message ConfigAppKeyStatus_opcode [6, 0, 0, 0]))
               (Replied (reply_message ConfigModelAppStatus_opcode [0xd, 5, 0, 0, 0, 0xf1, 5, 0, 0]))
               (NodeAdded (Inr \<lparr>node_uuid = 77, node_unicast_addr = MeshAddr 5\<rparr>))]) = Inr st' \<and>
         bt_get (connected st') (MeshAddr 5) = Some 77 \<and> bt_get (connected st') (MeshAddr 6) = None"
proof -
  let ?es = "[Received (\<lambda>_. None :: string option)
      (Replied (reply_message ConfigAppKeyStatus_opcode [6, 0, 0, 0]))
      (Replied (reply_message ConfigModelAppStatus_opcode [0xd, 5, 0, 0, 0, 0xf1, 5, 0, 0]))
      (NodeAdded (Inr \<lparr>node_uuid = 77 :: nat, node_unicast_addr = MeshAddr 5\<rparr>))]"
  obtain st' where run: "snd (loop_run nom_reference bytes_reference loop_init ?es) = Inr st'"
    by (simp add: sample_node_added action_simps)
  with connected_nodes_were_added [OF run, of "MeshAddr 5"]
    connected_nodes_were_added [OF run, of "MeshAddr 6"]
  show ?thesis by auto
qed

text \<open>
  C21: The loop asks for a device to be provisioned at most once more than the device was
  successfully added, however often it is discovered.
\<close>

theorem provisioning_requests_bounded:
  "count_list (fst (loop_run N B st es)) (Add_Node u) \<le> 1 + count_list (List.map snd (added es)) u"
  using adds_run [of u N B st es] by (simp add: adds_def)

text \<open>
  C39: A device whose provisioning failed is never tried again by this loop: while it is marked
  as being provisioned and is not successfully added, no number of further discoveries and
  failure reports makes the loop request it.
\<close>

theorem failed_device_not_retried:
  assumes "u \<in> set (discovering st)" and "u \<notin> set (List.map snd (added es))"
  shows "Add_Node u \<notin> set (fst (loop_run N B st es))"
  using adds_run [of u N B st es] assms by (simp add: adds_def count_list_0_iff)

theorem failed_device_not_retried_witness:
  "Add_Node (3 :: nat) \<notin> set (fst (loop_run nom_reference bytes_reference
     \<lparr>discovering = [3], connected = []\<rparr>
     [Received (\<lambda>_. None :: string option) (No_Reply :: nat reply) No_Reply
        (NodeAdded (Inl (3, ''timeout''))),
      Received (\<lambda>_. None) No_Reply No_Reply (DeviceDiscovered 3 0)]))"
  by (rule failed_device_not_retried) simp_all

fun is_attached :: "'n attach_result \<Rightarrow> bool" where
  "is_attached (Attached n) = True"
| "is_attached _ = False"

lemma attach_loop_spec:
  "attach_loop (Suc n) rs =
     (if n < count_list (takeWhile (\<lambda>r. \<not> is_attached r) rs) Not_Found
      then Some (Inl (Explicit_Panic ''Too many timeouts while trying to connect to org.bluez.mesh''))
      else case dropWhile (\<lambda>r. \<not> is_attached r) rs of
             Attached node_path # _ \<Rightarrow> Some (Inr node_path) | _ \<Rightarrow> None)"
proof (induction rs arbitrary: n)
  case (Cons r rs)
  show ?case
  proof (cases r)
    case Not_Found
    then show ?thesis using Cons.IH [of "n - 1"] by (cases n) (simp_all add: Let_def)
  next
    case Other_Error
    then show ?thesis using Cons.IH [of n] by simp
  qed simp
qed simp

text \<open>
  Attaching gives up at the fifth "not found" answer that comes before a success, counted
  over all attempts and not in a row, and never for any other error; otherwise it returns the
  first node path it gets, and goes on trying while there is none.
\<close>

lemma attach_gives_up_after_five:
  "attach rs =
     (if 5 \<le> count_list (takeWhile (\<lambda>r. \<not> is_attached r) rs) Not_Found
      then Some (Inl (Explicit_Panic ''Too many timeouts while trying to connect to org.bluez.mesh''))
      else case dropWhile (\<lambda>r. \<not> is_attached r) rs of
             Attached node_path # _ \<Rightarrow> Some (Inr node_path) | _ \<Rightarrow> None)"
  using attach_loop_spec [of 4 rs] by (simp add: attach_def numeral_eq_Suc Suc_le_eq)

text \<open>
  Attaching makes its calls in a fixed order: it creates the network, and once joined
  creates the application key, reads the node's addresses, adds the key to the first and binds
  it to the local sensor model at address 1; it returns the node path it was given. A failed
  join stops the task.
\<close>

lemma try_attach_sequence:
  assumes "nom_ok N" and "bytes_ok B"
    and "app_status_payload q (msg_payload (gm_content bind_reply))"
  shows "try_attach N B (\<lambda>_. None) (\<lambda>_. None) uuid (Some (Inr node_path)) (addr # addrs)
             (Replied bind_reply) =
           ([Create_Network uuid, Create_App_Key MAIN_NET_INDEX MAIN_APP_INDEX, Addresses,
             Add_App_Key addr MAIN_APP_INDEX MAIN_NET_INDEX False,
             Dev_Key_Send (MeshAddr 1) True MAIN_NET_INDEX (bind_bytes (MeshAddr 1))],
            Inr node_path) \<and>
         try_attach N B (\<lambda>_. None) (\<lambda>_. None) uuid (Some (Inl e)) addresses reply =
           ([Create_Network uuid], Inl (Panicked Unwrap_Failed))"
proof -
  have bind: "ConfigModelAppStatus_parse_payload N (msg_payload (gm_content bind_reply)) = Some q"
    using assms(3) app_status.parse_iff [OF assms(1)] by simp
  show ?thesis
    by (simp add: try_attach_def build_def action_simps await_reply_Some [where parse_payload = "ConfigModelAppStatus_parse_payload N", OF bind] bind_encode [OF assms(2)])
qed

end
