(* ===== verification/Queue_Refinement.thy ===== *)
theory Queue_Refinement
  imports Queue_Facts
begin

text \<open>
  What the message queue promises, as an abstract mailbox: the stored messages in order and
  the multiset of waiting subscriptions. While every receiver is alive and a stream finds at
  most one stored match, each turn of the task is a step of the mailbox and never panics.
\<close>

section \<open>The mailbox\<close>

type_synonym ('c, 't) mailbox =
  "'t generic_message list \<times> (generic_filter \<times> 'c subscriber) multiset"

inductive mailbox_step ::
    "('c, 't) mailbox \<Rightarrow> ('c, 't) queue_event \<Rightarrow> ('c, 't) outputs \<Rightarrow> ('c, 't) mailbox \<Rightarrow> bool" where
  serve_stored:
    "is_match f m \<Longrightarrow> \<forall>x \<in> set xs. \<not> is_match f x \<Longrightarrow>
     mailbox_step (xs @ m # ys, W) (Subscribe send_ok f (Oneshot (Some c))) [(c, m)] (xs @ ys, W)"
| wait:
    "\<forall>x \<in> set P. \<not> is_match f x \<Longrightarrow>
     mailbox_step (P, W) (Subscribe send_ok f sub) [] (P, add_mset (f, sub) W)"
| replay:
    "is_match f m \<Longrightarrow> \<forall>x \<in> set (xs @ ys). \<not> is_match f x \<Longrightarrow>
     mailbox_step (xs @ m # ys, W) (Subscribe send_ok f (Stream c)) [(c, m)]
       (xs @ ys, add_mset (f, Stream c) W)"
| deliver_oneshot:
    "is_match f m \<Longrightarrow>
     mailbox_step (P, add_mset (f, Oneshot (Some c)) W) (Incoming send_ok m) [(c, m)] (P, W)"
| deliver_stream:
    "is_match f m \<Longrightarrow> (f, Stream c) \<in># W \<Longrightarrow>
     mailbox_step (P, W) (Incoming send_ok m) [(c, m)] (P, W)"
| store:
    "\<forall>(f, _) \<in># W. \<not> is_match f m \<Longrightarrow>
     mailbox_step (P, W) (Incoming send_ok m) [] (P @ [m], W)"

inductive_cases mailbox_subscribeE: "mailbox_step S (Subscribe send_ok f sub) outs S'"
inductive_cases mailbox_incomingE: "mailbox_step S (Incoming send_ok m) outs S'"

text \<open>No stored message matches a waiting subscription.\<close>

fun quiet :: "('c, 't) mailbox \<Rightarrow> bool" where
  "quiet (P, W) \<longleftrightarrow> (\<forall>m \<in> set P. \<forall>(f, _) \<in># W. \<not> is_match f m)"

lemma mailbox_quiet: "mailbox_step S e outs S' \<Longrightarrow> quiet S \<Longrightarrow> quiet S'"
  by (induction rule: mailbox_step.induct) auto

fun received :: "('c, 't) queue_event \<Rightarrow> 't generic_message list" where
  "received (Incoming _ m) = [m]"
| "received (Subscribe _ _ _) = []"

fun subscribed :: "('c, 't) queue_event \<Rightarrow> (generic_filter \<times> 'c subscriber) list" where
  "subscribed (Incoming _ m) = []"
| "subscribed (Subscribe _ f sub) = [(f, sub)]"

definition oneshots :: "'c \<Rightarrow> (generic_filter \<times> 'c subscriber) multiset \<Rightarrow> nat" where
  "oneshots c W = size (filter_mset (\<lambda>(_, sub). sub = Oneshot (Some c)) W)"

text \<open>An output goes to the channel of a subscription whose filter the message matches.\<close>

fun addressed :: "(generic_filter \<times> 'c subscriber) multiset \<Rightarrow> 'c \<times> 't generic_message \<Rightarrow> bool" where
  "addressed W (c, m) \<longleftrightarrow>
     (\<exists>f sub. (f, sub) \<in># W \<and> sub \<in> {Oneshot (Some c), Stream c} \<and> is_match f m)"

lemma addressed_mono: "addressed W o' \<Longrightarrow> W \<subseteq># W' \<Longrightarrow> addressed W' o'"
  by (cases o') (auto dest: mset_subset_eqD)

lemma mailbox_addressed:
  "mailbox_step (P, W) e outs S' \<Longrightarrow> \<forall>o' \<in> set outs. addressed (W + mset (subscribed e)) o'"
  by (induction "(P, W)" e outs S' rule: mailbox_step.induct) fastforce+

lemma mailbox_waiting:
  "mailbox_step (P, W) e outs (P', W') \<Longrightarrow> W' \<subseteq># W + mset (subscribed e)"
  by (induction "(P, W)" e outs "(P', W')" rule: mailbox_step.induct) auto

lemma mailbox_oneshots:
  "mailbox_step (P, W) e outs (P', W') \<Longrightarrow>
   \<forall>f. (f, Stream c) \<notin># W + mset (subscribed e) \<Longrightarrow>
   count (mset (List.map fst outs)) c + oneshots c W' = oneshots c W + oneshots c (mset (subscribed e))"
  by (induction "(P, W)" e outs "(P', W')" rule: mailbox_step.induct) (auto simp: oneshots_def)

section \<open>The queue implements the mailbox\<close>

definition mailbox_of ::
    "('k, 'm, 's, 'c) slots \<Rightarrow> ('m, 's, 't) queue_state \<Rightarrow> ('c, 't) mailbox" where
  "mailbox_of L st = (qs_messages st, waiting L st)"

definition queue_live :: "('k, 'm, 's, 'c) slots \<Rightarrow> ('m, 's, 't) queue_state \<Rightarrow> bool" where
  "queue_live L st \<longleftrightarrow> queue_inv L st \<and> (\<forall>(_, sub) \<in># waiting L st. sub \<noteq> Oneshot None)"

fun served :: "('m, 's, 't) queue_state \<Rightarrow> ('c, 't) queue_event \<Rightarrow> bool" where
  "served st (Subscribe send_ok f (Oneshot tx)) \<longleftrightarrow> tx \<noteq> None \<and> (\<forall>c m. send_ok c m)"
| "served st (Subscribe send_ok f (Stream tx)) \<longleftrightarrow>
     (\<forall>c m. send_ok c m) \<and> length (List.filter (is_match f) (qs_messages st)) \<le> 1"
| "served st (Incoming send_ok m) \<longleftrightarrow> (\<forall>c m. send_ok c m)"

lemma filter_le_1_cases:
  assumes "length (List.filter P xs) \<le> 1"
  obtains "\<forall>x \<in> set xs. \<not> P x"
  | ys x zs where "xs = ys @ x # zs" "P x" "\<forall>y \<in> set (ys @ zs). \<not> P y"
proof (cases "\<exists>x \<in> set xs. P x")
  case False
  then show thesis by (intro that(1)) blast
next
  case True
  from split_list_first_prop [OF this]
  obtain ys x zs where s: "xs = ys @ x # zs" "P x" "\<forall>y \<in> set ys. \<not> P y"
    by blast
  with assms have "length (List.filter P zs) = 0" by simp
  then have "\<forall>y \<in> set zs. \<not> P y" by (simp add: filter_empty_conv)
  with s show thesis by (intro that(2)) auto
qed

lemma queue_live_add:
  "queue_live L st \<Longrightarrow> sub \<noteq> Oneshot None \<Longrightarrow> queue_live L (add_subscriber L f sub st)"
  by (auto simp: queue_live_def queue_inv_add)

lemma queue_live_messages [simp]: "queue_live L (st\<lparr>qs_messages := ms\<rparr>) = queue_live L st"
  by (simp add: queue_live_def)

lemma mailbox_of_add:
  "queue_live L st \<Longrightarrow>
     mailbox_of L (add_subscriber L f sub st) = (qs_messages st, add_mset (f, sub) (waiting L st))"
  by (simp add: mailbox_of_def queue_live_def queue_inv_add)

lemma mailbox_of_messages [simp]: "mailbox_of L (st\<lparr>qs_messages := ms\<rparr>) = (ms, waiting L st)"
  by (simp add: mailbox_of_def)

definition implements ::
    "('k, 'm, 's, 'c) slots \<Rightarrow> ('m, 's, 't) queue_state \<Rightarrow> ('c, 't) queue_event \<Rightarrow> bool" where
  "implements L st e \<longleftrightarrow>
     (\<exists>st' outs. queue_step L st e = Inr (st', outs) \<and> queue_live L st' \<and>
        mailbox_step (mailbox_of L st) e outs (mailbox_of L st'))"

lemma implements_oneshot:
  assumes live: "queue_live L st" and "\<forall>c m. send_ok c m"
  shows "implements L st (Subscribe send_ok f (Oneshot (Some c)))"
proof (rule try_pull_one_cases [of st f send_ok "Some c"])
  assume none: "\<forall>m \<in> set (qs_messages st). \<not> is_match f m"
    and step: "try_pull_one send_ok (Some c) f st = Inr (False, Some c, st, [])"
  show ?thesis
    using step none live mailbox_of_add [OF live, of f "Oneshot (Some c)"]
    by (auto simp: implements_def mailbox_of_def intro: queue_live_add mailbox_step.wait)
next
  fix c' xs m ys
  assume "Some c = Some c'" and ms: "qs_messages st = xs @ m # ys" and m: "is_match f m"
    and first: "\<forall>x \<in> set xs. \<not> is_match f x"
    and step: "try_pull_one send_ok (Some c) f st =
                 Inr (True, None, st\<lparr>qs_messages := xs @ ys\<rparr>, [(c', m)])"
  then show ?thesis
    using live mailbox_step.serve_stored [OF m first]
    by (auto simp: implements_def mailbox_of_def)
qed (use assms in auto)

lemma implements_stream:
  assumes live: "queue_live L st" and send: "\<forall>c m. send_ok c m"
    and few: "length (List.filter (is_match f) (qs_messages st)) \<le> 1"
  shows "implements L st (Subscribe send_ok f (Stream c))"
  using few
proof (cases rule: filter_le_1_cases)
  case 1
  then show ?thesis
    using live mailbox_of_add [OF live, of f "Stream c"]
    by (auto simp: implements_def try_pull_many_none mailbox_of_def
        intro: queue_live_add mailbox_step.wait)
next
  case (2 xs m ys)
  let ?st = "st\<lparr>qs_messages := xs @ ys\<rparr>"
  have live': "queue_live L ?st" using live by simp
  have "queue_step L st (Subscribe send_ok f (Stream c)) =
          Inr (add_subscriber L f (Stream c) ?st, [(c, m)])"
    using try_pull_many_single [of send_ok c st xs m ys f] 2 send by simp
  moreover have "queue_live L (add_subscriber L f (Stream c) ?st)"
    using live' by (rule queue_live_add) simp
  moreover have "mailbox_of L (add_subscriber L f (Stream c) ?st) =
                   (xs @ ys, add_mset (f, Stream c) (waiting L st))"
    using mailbox_of_add [OF live'] by simp
  ultimately show ?thesis
    using mailbox_step.replay [OF 2(2,3)] 2(1) by (simp add: implements_def mailbox_of_def)
qed

lemma implements_incoming:
  assumes live: "queue_live L st" and send: "\<forall>c m. send_ok c m"
  shows "implements L st (Incoming send_ok m)"
proof (cases "match_filter L st m")
  case None
  then show ?thesis
    using live mailbox_step.store [OF match_filter_None [OF None]]
    by (auto simp: implements_def mailbox_of_def)
next
  case (Some k)
  then obtain f where kf: "(k, f) \<in> set (filters_iter L (qs_filters st))" and m: "is_match f m"
    by (auto dest: match_filter_Some)
  have inv: "queue_inv L st" using live by (simp add: queue_live_def)
  then obtain sub where sub: "subs_get L (qs_subscribers st) k = Some sub"
    using kf by (force simp: queue_inv_def)
  have W: "waiting L st = add_mset (f, sub) (waiting L (remove_subscriber L k st))"
    using queue_inv_remove(2) [OF inv kf] sub by simp
  have rm: "queue_live L (remove_subscriber L k st)"
    using live W queue_inv_remove(1) [OF inv kf] by (auto simp: queue_live_def)
  show ?thesis
  proof (cases sub)
    case (Oneshot tx)
    then obtain c where c: "tx = Some c" using live W by (auto simp: queue_live_def)
    then have "queue_step L st (Incoming send_ok m) = Inr (remove_subscriber L k st, [(c, m)])"
      using Some sub Oneshot send by simp
    then show ?thesis
      using rm mailbox_step.deliver_oneshot [OF m] W c Oneshot
      by (auto simp: implements_def mailbox_of_def)
  next
    case (Stream c)
    then have "(f, Stream c) \<in># waiting L st" using W by simp
    then show ?thesis
      using Some sub Stream send live mailbox_step.deliver_stream [OF m]
      by (auto simp: implements_def mailbox_of_def)
  qed
qed

lemma queue_implements: "queue_live L st \<Longrightarrow> served st e \<Longrightarrow> implements L st e"
  by (cases "(st, e)" rule: served.cases)
     (auto simp: implements_oneshot implements_stream implements_incoming)

text \<open>A run in which every event is served.\<close>

fun served_run ::
    "('k, 'm, 's, 'c) slots \<Rightarrow> ('m, 's, 't) queue_state \<Rightarrow> ('c, 't) queue_event list \<Rightarrow> bool" where
  "served_run L st [] \<longleftrightarrow> True"
| "served_run L st (e # es) \<longleftrightarrow>
     served st e \<and> (case queue_step L st e of Inl _ \<Rightarrow> False | Inr (st', _) \<Rightarrow> served_run L st' es)"

lemma served_run_correct:
  assumes "queue_live L st" "quiet (mailbox_of L st)" "served_run L st es"
  shows "\<exists>st' outs. run_steps (queue_step L) st es = Inr (st', outs) \<and>
    queue_live L st' \<and> quiet (mailbox_of L st') \<and>
    (\<forall>o' \<in> set outs. addressed (waiting L st + mset (concat (List.map subscribed es))) o')"
  using assms
proof (induction es arbitrary: st)
  case (Cons e es)
  obtain st1 outs1 where step: "queue_step L st e = Inr (st1, outs1)" and live1: "queue_live L st1"
    and spec: "mailbox_step (mailbox_of L st) e outs1 (mailbox_of L st1)"
    using queue_implements [OF Cons.prems(1), of e] Cons.prems(3) by (auto simp: implements_def)
  have quiet1: "quiet (mailbox_of L st1)" using mailbox_quiet [OF spec Cons.prems(2)] .
  have "served_run L st1 es" using Cons.prems(3) step by simp
  from Cons.IH [OF live1 quiet1 this] obtain st2 outs2
    where run: "run_steps (queue_step L) st1 es = Inr (st2, outs2)" and live2: "queue_live L st2"
      and quiet2: "quiet (mailbox_of L st2)"
      and outs2: "\<forall>o' \<in> set outs2.
        addressed (waiting L st1 + mset (concat (List.map subscribed es))) o'"
    by blast
  let ?W = "waiting L st + mset (concat (List.map subscribed (e # es)))"
  have sub: "waiting L st1 \<subseteq># waiting L st + mset (subscribed e)"
    using mailbox_waiting spec by (force simp: mailbox_of_def)
  have "\<forall>o' \<in> set outs1. addressed (waiting L st + mset (subscribed e)) o'"
    using mailbox_addressed spec by (force simp: mailbox_of_def)
  then have "\<forall>o' \<in> set outs1. addressed ?W o'"
    by (auto elim!: addressed_mono)
  moreover have "waiting L st1 + mset (concat (List.map subscribed es)) \<subseteq># ?W"
    using sub by (simp add: add.assoc [symmetric])
  then have "\<forall>o' \<in> set outs2. addressed ?W o'"
    using outs2 addressed_mono by blast
  ultimately have "\<forall>o' \<in> set (outs1 @ outs2). addressed ?W o'"
    by auto
  with step run live2 quiet2 show ?case by auto
qed auto

lemma queue_step_consistent:
  assumes "queue_inv L st"
  shows "queue_step L st e \<noteq> Inl (Expect_Failed ''Inconsistent state'')"
proof (cases e)
  case (Subscribe send_ok f chan)
  show ?thesis
  proof (cases chan)
    case (Oneshot tx)
    show ?thesis
      by (rule try_pull_one_cases [of st f send_ok tx]) (simp_all add: Subscribe Oneshot)
  next
    case (Stream tx)
    have "pull_indexes send_ok tx is ms \<noteq> Inl (Expect_Failed s)" for "is" ms s
      by (induction "is" arbitrary: ms)
         (auto simp: vec_remove_def and_then_Inl split: if_splits prod.splits)
    then show ?thesis
      by (auto simp: Subscribe Stream try_pull_many_def and_then_Inl)
  qed
next
  case (Incoming send_ok m)
  show ?thesis
  proof (cases "match_filter L st m")
    case (Some k)
    then have "subs_get L (qs_subscribers st) k \<noteq> None"
      using assms match_filter_Some [OF Some] by (force simp: queue_inv_def)
    then show ?thesis
      by (auto simp: Incoming Some split: subscriber.split option.split)
  qed (simp add: Incoming)
qed

lemma queue_live_default: "slots_ok L \<Longrightarrow> queue_live L (queue_default L)"
  by (simp add: queue_live_def queue_inv_default waiting_default)

lemma quiet_default: "slots_ok L \<Longrightarrow> quiet (mailbox_of L (queue_default L))"
  by (simp add: mailbox_of_def waiting_default)

lemma queue_step_conserves:
  assumes "queue_step L st e = Inr (st', outs)"
  shows "mset (qs_messages st) + mset (received e) = mset (List.map snd outs) + mset (qs_messages st')"
proof (cases e)
  case (Subscribe send_ok f chan)
  show ?thesis
  proof (cases chan)
    case (Oneshot tx)
    show ?thesis
      by (rule try_pull_one_cases [of st f send_ok tx])
         (use assms Subscribe Oneshot in auto)
  next
    case (Stream tx)
    then show ?thesis
      using assms Subscribe
      by (auto simp: result_iff try_pull_many_def dest!: pull_indexes_conserves)
  qed
next
  case (Incoming send_ok m)
  then show ?thesis
    using assms by (auto split: option.splits subscriber.splits if_splits)
qed

section \<open>A concrete slot map\<close>

text \<open>Keys are counted up and never reused; the subscribers are an association list.\<close>

definition slots_reference ::
    "(nat, nat \<times> (nat \<times> generic_filter) list, (nat \<times> 'c subscriber) list, 'c) slots" where
  "slots_reference = \<lparr>
     filters_new = (0, []),
     filters_insert = (\<lambda>(n, xs) f. (n, (Suc n, xs @ [(n, f)]))),
     filters_iter = snd,
     filters_remove = (\<lambda>(n, xs) k. (n, List.filter (\<lambda>e. fst e \<noteq> k) xs)),
     subs_new = [],
     subs_insert = (\<lambda>s k v. (k, v) # s),
     subs_get = map_of,
     subs_remove = (\<lambda>s k. List.filter (\<lambda>e. fst e \<noteq> k) s),
     slots_paired = (\<lambda>(n, xs) s. distinct (List.map fst xs) \<and> (\<forall>e \<in> set xs. fst e < n))\<rparr>"

lemma map_of_filter_other: "k' \<noteq> k \<Longrightarrow> map_of (List.filter (\<lambda>e. fst e \<noteq> k) s) k' = map_of s k'"
  by (induction s) auto

lemma slots_reference_ok: "slots_ok slots_reference"
  by (auto simp: slots_ok_def slots_reference_def map_of_filter_other distinct_map
      intro: inj_on_subset)

section \<open>Runs\<close>

lemma queue_run_conserves:
  "run_steps (queue_step L) st es = Inr (st', outs) \<Longrightarrow>
     mset (qs_messages st) + mset (concat (List.map received es)) =
       mset (List.map snd outs) + mset (qs_messages st')"
proof (induction es arbitrary: st outs)
  case (Cons e es)
  then obtain st1 outs1 outs2 where 1: "queue_step L st e = Inr (st1, outs1)"
    and 2: "run_steps (queue_step L) st1 es = Inr (st', outs2)" and "outs = outs1 @ outs2"
    by (auto simp: result_iff)
  with Cons.IH [OF 2] queue_step_conserves [OF 1] show ?case
    by (simp add: ac_simps) (metis (no_types, lifting) union_assoc union_commute)
qed simp

lemma oneshots_run:
  assumes "queue_live L st" "quiet (mailbox_of L st)" "served_run L st es"
    and "run_steps (queue_step L) st es = Inr (st', outs)"
    and "\<forall>f. (f, Stream c) \<notin># waiting L st + mset (concat (List.map subscribed es))"
  shows "count (mset (List.map fst outs)) c + oneshots c (waiting L st') =
           oneshots c (waiting L st) + oneshots c (mset (concat (List.map subscribed es)))"
  using assms
proof (induction es arbitrary: st outs)
  case Nil
  then show ?case by (simp add: oneshots_def)
next
  case (Cons e es)
  obtain st1 outs1 where step: "queue_step L st e = Inr (st1, outs1)" and live1: "queue_live L st1"
    and spec: "mailbox_step (mailbox_of L st) e outs1 (mailbox_of L st1)"
    using queue_implements [OF Cons.prems(1), of e] Cons.prems(3) by (auto simp: implements_def)
  have quiet1: "quiet (mailbox_of L st1)" using mailbox_quiet [OF spec Cons.prems(2)] .
  have run1: "served_run L st1 es" using Cons.prems(3) step by simp
  obtain outs2 where outs2: "run_steps (queue_step L) st1 es = Inr (st', outs2)"
    and outs: "outs = outs1 @ outs2"
    using Cons.prems(4) step by (auto simp: result_iff)
  have spec': "mailbox_step (qs_messages st, waiting L st) e outs1 (qs_messages st1, waiting L st1)"
    using spec by (simp add: mailbox_of_def)
  have no_stream: "\<forall>f. (f, Stream c) \<notin># waiting L st + mset (subscribed e)"
    using Cons.prems(5) by auto
  have "\<forall>f. (f, Stream c) \<notin># waiting L st1 + mset (concat (List.map subscribed es))"
    using Cons.prems(5) mset_subset_eqD [OF mailbox_waiting [OF spec']] by auto
  from Cons.IH [OF live1 quiet1 run1 outs2 this] mailbox_oneshots [OF spec' no_stream]
  show ?case by (simp add: outs oneshots_def)
qed

section \<open>Properties of the message queue\<close>

text \<open>Concrete messages and filters for the witnesses.\<close>

definition sample_message :: "u16 \<Rightarrow> opcode \<Rightarrow> u8 list \<Rightarrow> nat generic_message" where
  "sample_message addr op payload =
     GenericMessage_new 0 \<lparr>msg_opcode = op, msg_payload = payload\<rparr>
       (Meta_Device (MeshAddr addr) MAIN_NET_INDEX)"

definition sample_filter :: "u16 \<Rightarrow> generic_filter" where
  "sample_filter addr = generic_of_dev (DevFilter_source_addr (MeshAddr addr) DevFilter_default)"

lemmas sample_defs = sample_message_def sample_filter_def generic_of_dev_def
  DevFilter_source_addr_def DevFilter_default_def MAIN_NET_INDEX_def is_match_iff

lemma sample_match [simp]: "is_match (sample_filter a) (sample_message b op pl) \<longleftrightarrow> a = b"
  by (auto simp: sample_defs)

lemmas queue_eval = queue_default_def slots_reference_def match_filter_def try_pull_one_def
  try_pull_many_def iter_filter_def vec_remove_def add_subscriber_def remove_subscriber_def

text \<open>
  A filter matches a message exactly when the kinds agree and each of the source address,
  the opcode and the index is either left open by the filter or equal to the message's.
\<close>

lemma filter_match_meaning:
  "is_match f m \<longleftrightarrow>
     gf_kind f = gm_kind m \<and>
     gf_source_addr f \<in> {None, Some (gm_source_addr m)} \<and>
     gf_opcode f \<in> {None, Some (msg_opcode (gm_content m))} \<and>
     gf_index f \<in> {None, Some (gm_index m)}"
  by (rule is_match_iff)

text \<open>
  C3: The queue neither loses nor duplicates a message: over any run that does not panic, what
  was stored and what came in is, as a multiset, what was sent out and what is still stored.
\<close>

theorem queue_conserves_messages:
  assumes "run_steps (queue_step L) st es = Inr (st', outs)"
  shows "mset (qs_messages st) + mset (concat (List.map received es)) =
           mset (List.map snd outs) + mset (qs_messages st')"
  using assms by (rule queue_run_conserves)

theorem queue_conserves_messages_witness:
  "let m1 = sample_message 5 (Sig1 1) []; m2 = sample_message 6 (Sig1 1) [];
       start = queue_default slots_reference;
       es = [Incoming (\<lambda>_ _. True) m1, Incoming (\<lambda>_ _. True) m2,
             Subscribe (\<lambda>_ _. True) (sample_filter 6) (Oneshot (Some ''tx''))]
   in \<exists>st' outs. run_steps (queue_step slots_reference) start es = Inr (st', outs) \<and>
        outs = [(''tx'', m2)] \<and> qs_messages st' = [m1] \<and>
        mset (qs_messages start) + mset (concat (List.map received es)) =
          mset (List.map snd outs) + mset (qs_messages st')"
proof -
  let ?m1 = "sample_message 5 (Sig1 1) []" and ?m2 = "sample_message 6 (Sig1 1) []"
  let ?es = "[Incoming (\<lambda>_ _. True) ?m1, Incoming (\<lambda>_ _. True) ?m2,
              Subscribe (\<lambda>_ _. True) (sample_filter 6) (Oneshot (Some ''tx''))]"
  have run: "run_steps (queue_step slots_reference) (queue_default slots_reference) ?es =
          Inr ((queue_default slots_reference)\<lparr>qs_messages := [?m1]\<rparr>, [(''tx'', ?m2)])"
    by (simp add: queue_eval)
  show ?thesis
    unfolding Let_def
    by (intro exI conjI, rule run) (use queue_conserves_messages [OF run] in simp_all)
qed

text \<open>
  C1: The queue implements the abstract mailbox: while every receiver is alive and a stream
  subscription finds at most one stored match, a turn of the task does not panic, keeps every
  filter paired with a usable subscriber, and is a step of the mailbox, in which a one-shot
  takes the oldest stored match and a message goes to a waiting subscription that matches it.
\<close>

theorem queue_implements_mailbox:
  assumes "queue_live L st" and "served st e"
  shows "\<exists>st' outs. queue_step L st e = Inr (st', outs) \<and> queue_live L st' \<and>
           mailbox_step (mailbox_of L st) e outs (mailbox_of L st')"
  using queue_implements [OF assms] by (simp add: implements_def)

theorem queue_implements_mailbox_witness:
  "\<exists>st' outs. queue_step slots_reference (queue_default slots_reference)
       (Incoming (\<lambda>(_ :: string) _. True) (sample_message 5 (Sig1 1) [])) = Inr (st', outs)"
  using queue_implements_mailbox
    [OF queue_live_default [OF slots_reference_ok],
     of "Incoming (\<lambda>(_ :: string) _. True) (sample_message 5 (Sig1 1) [])"]
  by auto

text \<open>
  C2: From the empty queue, after any run of served events: no panic happened, no stored
  message matches a waiting subscription (nothing is stuck while someone waits for it), and
  everything sent went to the channel of a subscription whose filter matches the message.
\<close>

theorem queue_runs_quiet:
  assumes "slots_ok L" and "served_run L (queue_default L) es"
  shows "\<exists>st' outs. run_steps (queue_step L) (queue_default L) es = Inr (st', outs) \<and>
           quiet (mailbox_of L st') \<and>
           (\<forall>o' \<in> set outs. addressed (mset (concat (List.map subscribed es))) o')"
  using served_run_correct [OF queue_live_default quiet_default, OF assms(1,1,2)]
  by (auto simp: waiting_default [OF assms(1)])

theorem queue_runs_quiet_witness:
  "\<exists>st' outs. run_steps (queue_step slots_reference) (queue_default slots_reference)
     [Subscribe (\<lambda>_ _. True) (sample_filter 5) (Stream ''values''),
      Incoming (\<lambda>_ _. True) (sample_message 5 (Sig1 1) [])] = Inr (st', outs) \<and>
     quiet (mailbox_of slots_reference st')"
  using queue_runs_quiet [OF slots_reference_ok,
    of "[Subscribe (\<lambda>_ _. True) (sample_filter 5) (Stream ''values''),
         Incoming (\<lambda>_ _. True) (sample_message 5 (Sig1 1) [])]"]
  by (auto simp: queue_eval)

text \<open>
  C5: The \<open>expect("Inconsistent state")\<close> of the task never fires: on no run from the empty
  queue, whatever the results of the sends, is a filter without its subscriber.
\<close>

theorem queue_never_inconsistent:
  assumes "slots_ok L"
  shows "run_steps (queue_step L) (queue_default L) es \<noteq> Inl (Expect_Failed ''Inconsistent state'')"
proof -
  have "queue_inv L st \<Longrightarrow> run_steps (queue_step L) st es \<noteq> Inl (Expect_Failed ''Inconsistent state'')" for st
  proof (induction es arbitrary: st)
    case (Cons e es)
    then show ?case
      using queue_step_consistent [OF Cons.prems, of e]
      by (cases "queue_step L st e") (auto simp: and_then_Inl dest: queue.inv_step)
  qed simp
  then show ?thesis using queue_inv_default [OF assms] by blast
qed

theorem queue_never_inconsistent_witness:
  "run_steps (queue_step slots_reference) (queue_default slots_reference)
     [Subscribe (\<lambda>_ _. True) (sample_filter 5) (Oneshot (Some ''tx'')),
      Incoming (\<lambda>_ _. False) (sample_message 5 (Sig1 1) [])]
   \<noteq> Inl (Expect_Failed ''Inconsistent state'')"
  by (rule queue_never_inconsistent [OF slots_reference_ok])

text \<open>
  C4: A one-shot channel is used at most once: over any served run from the empty queue, the
  messages sent on it and the subscriptions still waiting with it together are the
  subscriptions made with it.
\<close>

theorem oneshot_answered_once:
  assumes "slots_ok L" and "served_run L (queue_default L) es"
    and "\<forall>f. (f, Stream c) \<notin> set (concat (List.map subscribed es))"
  shows "\<exists>st' outs. run_steps (queue_step L) (queue_default L) es = Inr (st', outs) \<and>
           count_list (List.map fst outs) c + oneshots c (waiting L st') =
             oneshots c (mset (concat (List.map subscribed es)))"
proof -
  obtain st' outs where run: "run_steps (queue_step L) (queue_default L) es = Inr (st', outs)"
    using served_run_correct [OF queue_live_default quiet_default, OF assms(1,1,2)] by blast
  have "\<forall>f. (f, Stream c) \<notin># waiting L (queue_default L) + mset (concat (List.map subscribed es))"
    using assms(3) by (simp add: waiting_default [OF assms(1)])
  from oneshots_run [OF queue_live_default [OF assms(1)] quiet_default [OF assms(1)] assms(2) run this]
  have "count_list (List.map fst outs) c + oneshots c (waiting L st') =
          oneshots c (mset (concat (List.map subscribed es)))"
    by (simp add: waiting_default [OF assms(1)] oneshots_def count_mset del: mset_map)
  with run show ?thesis by blast
qed

theorem oneshot_answered_once_witness:
  "\<exists>st' outs. run_steps (queue_step slots_reference) (queue_default slots_reference)
     [Subscribe (\<lambda>_ _. True) (sample_filter 5) (Oneshot (Some ''tx'')),
      Incoming (\<lambda>_ _. True) (sample_message 5 (Sig1 1) []),
      Incoming (\<lambda>_ _. True) (sample_message 5 (Sig1 1) [])] = Inr (st', outs) \<and>
     count_list (List.map fst outs) ''tx'' + oneshots ''tx'' (waiting slots_reference st') = 1"
  using oneshot_answered_once [OF slots_reference_ok,
    of "[Subscribe (\<lambda>_ _. True) (sample_filter 5) (Oneshot (Some ''tx'')),
         Incoming (\<lambda>_ _. True) (sample_message 5 (Sig1 1) []),
         Incoming (\<lambda>_ _. True) (sample_message 5 (Sig1 1) [])]" "''tx''"]
  by (simp add: queue_eval oneshots_def)

text \<open>
  C34: A stream subscription that finds stored messages removes them by indices computed
  before the first removal: the \<open>t\<close>-th message it is sent is the one \<open>t\<close> places after
  the \<open>t\<close>-th match, and when that is past the end the task panics with an index out of
  bounds.
\<close>

theorem stream_backlog_is_shifted:
  assumes "\<forall>m. send_ok tx m"
  shows "case try_pull_many send_ok tx f st of
      Inl p \<Rightarrow> p = Index_Out_Of_Bounds \<and>
        (\<exists>t < length (iter_filter f (qs_messages st)).
           length (qs_messages st) \<le> iter_filter f (qs_messages st) ! t + t)
    | Inr (st', outs) \<Rightarrow>
        (\<forall>t < length (iter_filter f (qs_messages st)).
           iter_filter f (qs_messages st) ! t + t < length (qs_messages st)) \<and>
        outs = List.map (\<lambda>t. (tx, qs_messages st ! (iter_filter f (qs_messages st) ! t + t)))
                 [0..<length (iter_filter f (qs_messages st))]"
  using assms by (rule try_pull_many_shift)

theorem stream_backlog_is_shifted_witness:
  "let m = sample_message 5 (Sig1 1) []; n = sample_message 6 (Sig1 1) []
   in \<exists>st'. try_pull_many (\<lambda>_ _. True) ''tx'' (sample_filter 5)
          ((queue_default slots_reference)\<lparr>qs_messages := [m, m, n]\<rparr>)
        = Inr (st', [(''tx'', m), (''tx'', n)])"
  using stream_backlog_is_shifted [of "\<lambda>_ _. True" "''tx''" "sample_filter 5"
      "(queue_default slots_reference)\<lparr>qs_messages :=
         [sample_message 5 (Sig1 1) [], sample_message 5 (Sig1 1) [], sample_message 6 (Sig1 1) []]\<rparr>"]
  by (simp add: queue_eval)

text \<open>
  With two or more stored matches of which the newest stored message is one, a stream
  subscription always brings the queue's task down.
\<close>

lemma stream_backlog_panics:
  assumes "\<forall>m. send_ok tx m" and "qs_messages st = ms @ [m]" and "is_match f m"
    and "\<exists>x \<in> set ms. is_match f x"
  shows "queue_step L st (Subscribe send_ok f (Stream tx)) = Inl Index_Out_Of_Bounds"
proof -
  let ?is = "iter_filter f (qs_messages st)"
  have "length ms \<in> set ?is" using assms(2,3) by (simp add: set_iter_filter)
  then obtain t where t: "t < length ?is" "?is ! t = length ms" by (auto simp: in_set_conv_nth)
  obtain j where "j < length ms" "is_match f (ms ! j)" using assms(4) by (auto simp: in_set_conv_nth)
  then have "j \<in> set ?is" using assms(2) by (simp add: set_iter_filter nth_append)
  then obtain u where u: "u < length ?is" "?is ! u = j" by (auto simp: in_set_conv_nth)
  have "t \<noteq> 0"
  proof
    assume "t = 0"
    then have "?is ! t \<le> ?is ! u"
      using iter_filter_sorted [of f "qs_messages st"] u(1)
      by (cases "u = 0") (auto simp: sorted_wrt_iff_nth_less less_imp_le)
    with t u \<open>j < length ms\<close> show False by simp
  qed
  then have "\<not> (\<forall>t < length ?is. ?is ! t + t < length (qs_messages st))"
    using t assms(2) by auto
  then have "try_pull_many send_ok tx f st = Inl Index_Out_Of_Bounds"
    using try_pull_many_shift [where send_ok = send_ok and tx = tx and f = f and st = st, OF assms(1)]
    by (cases "try_pull_many send_ok tx f st") auto
  then show ?thesis by simp
qed

text \<open>
  C35: When the receiver of a one-shot has gone away, the queue puts the message back but
  registers the subscription without its sender; if it is the only subscription, the next
  message that matches it stops the task.
\<close>

theorem dropped_oneshot_stops_queue:
  assumes "queue_inv L st" and "filters_iter L (qs_filters st) = []"
    and "\<exists>m \<in> set (qs_messages st). is_match f m" and "\<forall>m. \<not> send_ok tx m" and "is_match f n"
  shows "run_steps (queue_step L) st
           [Subscribe send_ok f (Oneshot (Some tx)), Incoming send_ok' n]
         = Inl (Expect_Failed ''Reusing oneshot tx'')"
proof (rule try_pull_one_cases [of st f send_ok "Some tx"])
  fix c xs m ys
  let ?st = "st\<lparr>qs_messages := xs @ ys @ [m]\<rparr>"
  assume "try_pull_one send_ok (Some tx) f st = Inr (False, None, ?st, [])"
  then have step: "queue_step L st (Subscribe send_ok f (Oneshot (Some tx))) =
                     Inr (add_subscriber L f (Oneshot None) ?st, [])"
    by simp
  obtain k m' where ins: "filters_insert L (qs_filters st) f = (k, m')" by force
  from assms(1) have L: "slots_ok L" and p: "slots_paired L (qs_filters st) (qs_subscribers st)"
    by (auto simp: queue_inv_def)
  have iter: "filters_iter L m' = [(k, f)]"
    using slots_insert_mset [OF L p ins] assms(2) by simp
  have "subs_get L (subs_insert L (qs_subscribers st) k (Oneshot None)) k = Some (Oneshot None)"
    using slots_subs_insert(2) [OF L slots_insert(1) [OF L p ins]] iter by simp
  then show ?thesis
    using step ins iter assms(5) by (simp add: add_subscriber_def match_filter_def)
qed (use assms(3,4) in auto)

theorem dropped_oneshot_stops_queue_witness:
  "run_steps (queue_step slots_reference)
     ((queue_default slots_reference)\<lparr>qs_messages := [sample_message 5 (Sig1 1) []]\<rparr>)
     [Subscribe (\<lambda>_ _. False) (sample_filter 5) (Oneshot (Some ''tx'')),
      Incoming (\<lambda>_ _. True) (sample_message 5 (Sig1 2) [])]
   = Inl (Expect_Failed ''Reusing oneshot tx'')"
proof (rule dropped_oneshot_stops_queue)
  show "queue_inv slots_reference
    ((queue_default slots_reference)\<lparr>qs_messages := [sample_message 5 (Sig1 1) []]\<rparr>)"
    by (simp add: queue_inv_default slots_reference_ok)
qed (auto simp: queue_eval)

text \<open>
  C33: Waiting for the reply of a configuration request takes the oldest stored message with
  the reply's opcode that passes the caller's filter, hands it to the waiting caller at once,
  and returns its sender with the decoded status.
\<close>

theorem pull_app_key_status_oldest:
  fixes N :: "'e nom"
  assumes "nom_ok N" and "F = flt\<lparr>gf_opcode := Some ConfigAppKeyStatus_opcode\<rparr>"
    and "qs_messages st = xs @ m # ys" and "is_match F m" and "\<forall>x \<in> set xs. \<not> is_match F x"
    and "app_key_status_payload p (msg_payload (gm_content m))" and "send_ok tx m"
  shows "\<exists>e. pull_msg_request True send_ok ConfigAppKeyStatus_opcode flt tx = Inr e \<and>
           queue_step L st e = Inr (st\<lparr>qs_messages := xs @ ys\<rparr>, [(tx, m)]) \<and>
           pull_msg_reply (ConfigAppKeyStatus_parse_payload N) (Some m) =
             Inr (Some (gm_source_addr m, p))"
proof -
  have step: "queue_step L st (Subscribe send_ok F (Oneshot (Some tx))) =
                Inr (st\<lparr>qs_messages := xs @ ys\<rparr>, [(tx, m)])"
  proof (rule try_pull_one_cases [of st F send_ok "Some tx"])
    fix c xs' m' ys'
    assume tx: "Some tx = Some c" and ms': "qs_messages st = xs' @ m' # ys'" and "is_match F m'"
      and "\<forall>x \<in> set xs'. \<not> is_match F x"
      and step: "try_pull_one send_ok (Some tx) F st =
                   Inr (True, None, st\<lparr>qs_messages := xs' @ ys'\<rparr>, [(c, m')])"
    then have "xs' = takeWhile (\<lambda>x. \<not> is_match F x) (qs_messages st)"
      by (simp add: takeWhile_append2)
    also have "\<dots> = xs" using assms(3,4,5) by (simp add: takeWhile_append2)
    finally have "xs' = xs" .
    then show ?thesis using tx step ms' assms(3) by simp
  next
    fix c xs' m' ys'
    assume tx: "Some tx = Some c" and ms': "qs_messages st = xs' @ m' # ys'" and "is_match F m'"
      and "\<forall>x \<in> set xs'. \<not> is_match F x" and closed: "\<not> send_ok c m'"
    then have "xs' = takeWhile (\<lambda>x. \<not> is_match F x) (qs_messages st)"
      by (simp add: takeWhile_append2)
    also have "\<dots> = xs" using assms(3,4,5) by (simp add: takeWhile_append2)
    finally have "xs' = xs" .
    then show ?thesis using tx ms' assms(3,7) closed by simp
  qed (use assms(3,4) in auto)
  have "ConfigAppKeyStatus_parse_payload N (msg_payload (gm_content m)) = Some p"
    using app_key_status.parse_iff [OF assms(1)] assms(6) by simp
  then show ?thesis
    using step by (simp add: pull_msg_request_def pull_msg_reply_def assms(2))
qed

theorem pull_app_key_status_oldest_witness:
  "let m = sample_message 5 ConfigAppKeyStatus_opcode [0, 0, 0, 0]
   in \<exists>e. pull_msg_request True (\<lambda>_ _. True) ConfigAppKeyStatus_opcode (sample_filter 5) ''tx'' = Inr e \<and>
        queue_step slots_reference ((queue_default slots_reference)\<lparr>qs_messages := [m]\<rparr>) e
          = Inr (queue_default slots_reference, [(''tx'', m)]) \<and>
        pull_msg_reply (ConfigAppKeyStatus_parse_payload nom_reference) (Some m) =
          Inr (Some (MeshAddr 5, \<lparr>aks_status = Success, aks_net_key_index = 0, aks_app_key_index = 0\<rparr>))"
proof -
  let ?m = "sample_message 5 ConfigAppKeyStatus_opcode [0, 0, 0, 0]"
  let ?st = "(queue_default slots_reference)\<lparr>qs_messages := [?m]\<rparr>"
  have payload: "app_key_status_payload
      \<lparr>aks_status = Success, aks_net_key_index = 0, aks_app_key_index = 0\<rparr>
      (msg_payload (gm_content ?m))"
    by (simp add: sample_defs app_key_status_payload_def key_index_payload_def status_from_def
        status_table_def)
  have m: "is_match ((sample_filter 5)\<lparr>gf_opcode := Some ConfigAppKeyStatus_opcode\<rparr>) ?m"
    by (simp add: sample_defs)
  from pull_app_key_status_oldest [OF nom_reference_ok refl _ m _ payload,
      where st = ?st and xs = "[]" and ys = "[]" and send_ok = "\<lambda>_ _. True" and tx = "''tx''"
        and L = slots_reference]
  show ?thesis by (simp add: queue_default_def sample_defs)
qed

end
