(* ===== verification/Store.thy ===== *)
theory Store
  imports Sensor
begin

text \<open>
  The sensor database, \<open>src/db.rs\<close>: the table of known sensors with their labels and one
  log table per sensor, opened once at the start. The environment of the \<open>heed\<close> crate is
  the contents of its tables; a transaction is a copy of them, stored by its commit. Which
  calls of the crate fail is an argument, and so are its tables, with their contract.
\<close>

section \<open>Tables of the database library\<close>

record id_db_entry =
  entry_label :: "string option"

definition IdDbEntry_default :: id_db_entry where
  "IdDbEntry_default = \<lparr>entry_label = None\<rparr>"

text \<open>
  The operations used on the table of sensors. \<open>id_entries\<close> is what a table holds, in the
  order it iterates; an entry that cannot be read is an error in its place.
\<close>

record ('e, 'i) id_table =
  id_get :: "'i \<Rightarrow> u128 \<Rightarrow> 'e + id_db_entry option"
  id_put :: "'i \<Rightarrow> u128 \<Rightarrow> id_db_entry \<Rightarrow> 'e + 'i"
  id_delete :: "'i \<Rightarrow> u128 \<Rightarrow> 'e + bool \<times> 'i"
  id_iter :: "'i \<Rightarrow> 'e + ('e + u128 \<times> id_db_entry) list"
  id_entries :: "'i \<Rightarrow> (u128 \<times> id_db_entry) list"

definition readable :: "('e + 'a) list \<Rightarrow> 'a list \<Rightarrow> bool" where
  "readable rs xs \<longleftrightarrow> list_all2 (\<lambda>r x. isl r \<or> r = Inr x) rs xs"

definition id_table_ok :: "('e, 'i) id_table \<Rightarrow> bool" where
  "id_table_ok I \<longleftrightarrow>
     (\<forall>d. distinct (List.map fst (id_entries I d))) \<and>
     (\<forall>d k r. id_get I d k = Inr r \<longrightarrow> r = map_of (id_entries I d) k) \<and>
     (\<forall>d k v d'. id_put I d k v = Inr d' \<longrightarrow>
        map_of (id_entries I d') = (map_of (id_entries I d))(k \<mapsto> v)) \<and>
     (\<forall>d k b d'. id_delete I d k = Inr (b, d') \<longrightarrow>
        b = (map_of (id_entries I d) k \<noteq> None) \<and>
        map_of (id_entries I d') = (map_of (id_entries I d))(k := None)) \<and>
     (\<forall>d rs. id_iter I d = Inr rs \<longrightarrow> readable rs (id_entries I d))"

text \<open>
  The operations used on a log table, whose big-endian keys are stored in ascending order:
  appending fails unless the key is greater than every stored one, a range is half open.
\<close>

record ('e, 'l) log_table =
  log_append :: "'l \<Rightarrow> u32 \<Rightarrow> raw_sensor_values \<Rightarrow> 'e + 'l"
  log_range :: "'l \<Rightarrow> u32 \<Rightarrow> u32 \<Rightarrow> 'e + ('e + u32 \<times> raw_sensor_values) list"
  log_entries :: "'l \<Rightarrow> (u32 \<times> raw_sensor_values) list"

definition in_range :: "u32 \<Rightarrow> u32 \<Rightarrow> u32 \<times> 'a \<Rightarrow> bool" where
  "in_range lo hi e \<longleftrightarrow> lo \<le> fst e \<and> fst e < hi"

definition log_table_ok :: "('e, 'l) log_table \<Rightarrow> bool" where
  "log_table_ok L \<longleftrightarrow>
     (\<forall>d. sorted_wrt (<) (List.map fst (log_entries L d))) \<and>
     (\<forall>d k v. (\<exists>e \<in> set (log_entries L d). k \<le> fst e) \<longrightarrow> isl (log_append L d k v)) \<and>
     (\<forall>d k v d'. log_append L d k v = Inr d' \<longrightarrow> log_entries L d' = log_entries L d @ [(k, v)]) \<and>
     (\<forall>d lo hi rs. log_range L d lo hi = Inr rs \<longrightarrow>
        readable rs (List.filter (in_range lo hi) (log_entries L d)))"

text \<open>Tables that can be read without an error.\<close>

definition reads_work :: "('e, 'i) id_table \<Rightarrow> ('e, 'l) log_table \<Rightarrow> bool" where
  "reads_work I L \<longleftrightarrow>
     (\<forall>d k. \<not> isl (id_get I d k)) \<and> (\<forall>d. \<exists>xs. id_iter I d = Inr (List.map Inr xs)) \<and>
     (\<forall>d lo hi. \<exists>xs. log_range L d lo hi = Inr (List.map Inr xs))"

text \<open>Concrete tables: lists in key order; appending out of order is the only error.\<close>

definition in_order :: "('k::linorder, 'v) btree_map \<Rightarrow> ('k, 'v) btree_map" where
  "in_order d = (if bt_ok d then d else [])"

definition id_table_reference :: "(unit, (u128, id_db_entry) btree_map) id_table" where
  "id_table_reference = \<lparr>
     id_get = (\<lambda>d k. Inr (bt_get (in_order d) k)),
     id_put = (\<lambda>d k v. Inr (bt_insert k v (in_order d))),
     id_delete = (\<lambda>d k. Inr (bt_get (in_order d) k \<noteq> None, List.filter (\<lambda>(k', _). k' \<noteq> k) (in_order d))),
     id_iter = (\<lambda>d. Inr (List.map Inr (in_order d))),
     id_entries = in_order\<rparr>"

definition log_table_reference :: "(unit, (u32, raw_sensor_values) btree_map) log_table" where
  "log_table_reference = \<lparr>
     log_append = (\<lambda>d k v. if \<forall>e \<in> set (in_order d). fst e < k then Inr (in_order d @ [(k, v)])
                           else Inl ()),
     log_range = (\<lambda>d lo hi. Inr (List.map Inr (List.filter (in_range lo hi) (in_order d)))),
     log_entries = in_order\<rparr>"

lemma in_order_ok [simp]: "bt_ok (in_order d)"
  by (simp add: in_order_def)

lemma in_order_id [simp]: "bt_ok d \<Longrightarrow> in_order d = d"
  by (simp add: in_order_def)

lemma readable_map [simp]: "readable (List.map Inr xs) ys \<longleftrightarrow> xs = ys"
  by (auto simp: readable_def list_all2_conv_all_nth intro: nth_equalityI)

lemma map_of_filter_key:
  "map_of (List.filter (\<lambda>(k', _). k' \<noteq> k) m) = (map_of m)(k := None)"
  by (induction m) (auto simp: fun_eq_iff)

lemma bt_ok_filter: "bt_ok m \<Longrightarrow> bt_ok (List.filter P m)"
  by (simp add: bt_ok_def sorted_wrt_map sorted_wrt_filter)

lemma id_table_reference_ok: "id_table_ok id_table_reference"
proof -
  have "map_of (bt_insert k v m) = (map_of m)(k \<mapsto> v)" if "bt_ok m" for k v and m :: "(u128, id_db_entry) btree_map"
    using bt_get_insert [OF that, of k v] by (auto simp: bt_get_def)
  moreover have "distinct (List.map fst m)" if "bt_ok m" for m :: "(u128, id_db_entry) btree_map"
    using bt_ok_distinct [OF that] by (simp add: bt_keys_def)
  ultimately show ?thesis
    by (auto simp: id_table_ok_def id_table_reference_def bt_get_def map_of_filter_key bt_ok_insert
        bt_ok_filter)
qed

lemma bt_ok_append: "bt_ok m \<Longrightarrow> \<forall>e \<in> set m. fst e < k \<Longrightarrow> bt_ok (m @ [(k, v)])"
  by (auto simp: bt_ok_def sorted_wrt_append)

lemma log_table_reference_ok: "log_table_ok log_table_reference"
  by (auto simp: log_table_ok_def log_table_reference_def bt_ok_append not_less simp flip: bt_ok_def
      split: if_splits intro!: bexI)

lemma reference_reads_work: "reads_work id_table_reference log_table_reference"
  by (auto simp: reads_work_def id_table_reference_def log_table_reference_def)

section \<open>The environment and the database\<close>

text \<open>
  A log table is found by its name; one that was not created yet is the empty table, which
  creating it does not change.
\<close>

record ('i, 'l) env =
  env_ids :: 'i
  env_logs :: "string \<Rightarrow> 'l"

type_synonym id_db = "(u128, string) btree_map"

record ('i, 'l) db =
  db_env :: "('i, 'l) env"
  db_sensor_log :: id_db

datatype 'e db_error = Create_Dir 'e | Heed 'e

text \<open>\<open>Uuid\<close> and its protocol buffer form, of two crates.\<close>

record ('u, 'q) uuid_lib =
  as_u128 :: "'u \<Rightarrow> u128"
  from_u128 :: "u128 \<Rightarrow> 'u"
  uuid_to_proto :: "'u \<Rightarrow> 'q"
  uuid_from_proto :: "'q \<Rightarrow> 'u"

definition uuid_ok :: "('u, 'q) uuid_lib \<Rightarrow> bool" where
  "uuid_ok U \<longleftrightarrow> (\<forall>u. from_u128 U (as_u128 U u) = u) \<and> (\<forall>n. as_u128 U (from_u128 U n) = n) \<and>
     (\<forall>u. uuid_from_proto U (uuid_to_proto U u) = u)"

definition uuid_reference :: "(u128, u128) uuid_lib" where
  "uuid_reference = \<lparr>as_u128 = (\<lambda>u. u), from_u128 = (\<lambda>n. n),
     uuid_to_proto = (\<lambda>u. u), uuid_from_proto = (\<lambda>u. u)\<rparr>"

lemma uuid_reference_ok: "uuid_ok uuid_reference"
  by (simp add: uuid_ok_def uuid_reference_def)

lemma as_u128_eq: "uuid_ok U \<Longrightarrow> as_u128 U u = as_u128 U v \<longleftrightarrow> u = v"
  by (metis uuid_ok_def)

text \<open>
  \<open>DbUuid\<close>'s \<open>Display\<close> is that of its number, in decimal: the name of the log table.
\<close>

fun decimal :: "nat \<Rightarrow> string" where
  "decimal n =
     (if n < 10 then [char_of (48 + n)] else decimal (n div 10) @ [char_of (48 + n mod 10)])"

declare decimal.simps [simp del]

definition table_name :: "u128 \<Rightarrow> string" where
  "table_name n = decimal (unat n)"

section \<open>Operations\<close>

text \<open>
  Transactions. Beginning one copies the tables, a commit stores the copy; each may fail, as
  its first argument says.
\<close>

definition read_txn :: "'e option \<Rightarrow> ('i, 'l) db \<Rightarrow> 'e db_error + ('i, 'l) env" where
  "read_txn err self = map_error Heed (unless_error err (db_env self))"

definition write_txn :: "'e option \<Rightarrow> ('i, 'l) db \<Rightarrow> 'e db_error + ('i, 'l) env" where
  "write_txn err self = map_error Heed (unless_error err (db_env self))"

definition commit_txn :: "'e option \<Rightarrow> ('i, 'l) env \<Rightarrow> ('i, 'l) db \<Rightarrow> 'e db_error + ('i, 'l) db" where
  "commit_txn err txn self = map_error Heed (unless_error err (self\<lparr>db_env := txn\<rparr>))"

definition get_addr ::
    "('u, 'q) uuid_lib \<Rightarrow> ('e, 'i) id_table \<Rightarrow> ('i, 'l) env \<Rightarrow> 'u \<Rightarrow> 'e db_error + id_db_entry option" where
  "get_addr U I txn uid = map_error Heed (id_get I (env_ids txn) (as_u128 U uid))"

definition put_addr ::
    "('u, 'q) uuid_lib \<Rightarrow> ('e, 'i) id_table \<Rightarrow> ('i, 'l) env \<Rightarrow> 'u \<Rightarrow> id_db_entry \<Rightarrow>
     'e db_error + ('i, 'l) env" where
  "put_addr U I txn uid data =
     map_error Heed (and_then (id_put I (env_ids txn) (as_u128 U uid) data) (\<lambda>ids.
       Inr (txn\<lparr>env_ids := ids\<rparr>)))"

definition delete_addr ::
    "('u, 'q) uuid_lib \<Rightarrow> ('e, 'i) id_table \<Rightarrow> ('i, 'l) env \<Rightarrow> 'u \<Rightarrow> 'e db_error + bool \<times> ('i, 'l) env" where
  "delete_addr U I txn uid =
     map_error Heed (and_then (id_delete I (env_ids txn) (as_u128 U uid)) (\<lambda>(deleted, ids).
       Inr (deleted, txn\<lparr>env_ids := ids\<rparr>)))"

definition known_addrs ::
    "('u, 'q) uuid_lib \<Rightarrow> ('e, 'i) id_table \<Rightarrow> ('i, 'l) env \<Rightarrow> 'e db_error + ('e db_error + 'u) list" where
  "known_addrs U I txn =
     map_error Heed (and_then (id_iter I (env_ids txn)) (\<lambda>it.
       Inr (List.map (\<lambda>res. map_sum Heed (\<lambda>(uid, _). from_u128 U uid) res) it)))
   "

text \<open>
  Opening: the sensors known now get their log tables, and only these. The arguments say
  which steps fail.
\<close>

fun create_logs ::
    "(string \<Rightarrow> 'e option) \<Rightarrow> u128 list \<Rightarrow> id_db \<Rightarrow> 'e db_error + id_db" where
  "create_logs create_err [] sensor_log = Inr sensor_log"
| "create_logs create_err (uid # ids) sensor_log =
     and_then (map_error Heed (unless_error (create_err (table_name uid)) (table_name uid))) (\<lambda>table.
       create_logs create_err ids (bt_insert uid table sensor_log))"

definition Db_open ::
    "('u, 'q) uuid_lib \<Rightarrow> ('e, 'i) id_table \<Rightarrow> 'e option \<Rightarrow> 'e option \<Rightarrow> (string \<Rightarrow> 'e option) \<Rightarrow>
     'e option \<Rightarrow> ('i, 'l) env \<Rightarrow> 'e db_error + ('i, 'l) db" where
  "Db_open U I dir_err open_err create_err read_err env =
     and_then (map_error Create_Dir (unless_error dir_err ())) (\<lambda>_.
     and_then (map_error Heed (unless_error open_err env)) (\<lambda>env.
     and_then (map_error Heed (unless_error (create_err ''addr'') ())) (\<lambda>_.
     let ret = \<lparr>db_env = env, db_sensor_log = []\<rparr>
     in and_then (read_txn read_err ret) (\<lambda>txn.
        and_then (known_addrs U I txn) (\<lambda>it.
        and_then (collect_results it) (\<lambda>known_addrs.
        and_then (create_logs create_err (List.map (as_u128 U) known_addrs) (db_sensor_log ret)) (\<lambda>sensor_log.
        Inr (ret\<lparr>db_sensor_log := sensor_log\<rparr>))))))))"

text \<open>A transaction that appends to the logs.\<close>

record ('i, 'l) log_transaction =
  lt_sensor_values :: id_db
  lt_txn :: "('i, 'l) env"

definition log_txn :: "'e option \<Rightarrow> ('i, 'l) db \<Rightarrow> 'e db_error + ('i, 'l) log_transaction" where
  "log_txn err self =
     and_then (write_txn err self) (\<lambda>txn. Inr \<lparr>lt_sensor_values = db_sensor_log self, lt_txn = txn\<rparr>)"

definition log_value ::
    "('u, 'q) uuid_lib \<Rightarrow> ('e, 'l) log_table \<Rightarrow> ('t, 'c, 'p, 'h) api \<Rightarrow> ('i, 'l) log_transaction \<Rightarrow>
     'u \<Rightarrow> ('t, 'c, 'p, 'h) sensor_values \<Rightarrow> 'e + ('i, 'l) log_transaction" where
  "log_value U L A self uid values =
     (case bt_get (lt_sensor_values self) (as_u128 U uid) of
        Some db \<Rightarrow>
          and_then (log_append L (env_logs (lt_txn self) db)
                      (timestamp_as_u32 A (sv_timestamp values)) (raw_from A values)) (\<lambda>table.
            Inr (self\<lparr>lt_txn := (lt_txn self)\<lparr>env_logs := (env_logs (lt_txn self))(db := table)\<rparr>\<rparr>))
      | None \<Rightarrow> Inr self)"

definition log_commit ::
    "'e option \<Rightarrow> ('i, 'l) log_transaction \<Rightarrow> ('i, 'l) db \<Rightarrow> 'e db_error + ('i, 'l) db" where
  "log_commit err self db = commit_txn err (lt_txn self) db"

text \<open>Reading a log; the response has a column per field.\<close>

record sensor_data =
  sd_time :: "u32 list"
  sd_temperature :: "i32 list"
  sd_pressure :: "u32 list"
  sd_humidity :: "u32 list"

definition sensor_data_default :: sensor_data where
  "sensor_data_default = \<lparr>sd_time = [], sd_temperature = [], sd_pressure = [], sd_humidity = []\<rparr>"

definition push_row :: "u32 \<times> raw_sensor_values \<Rightarrow> sensor_data \<Rightarrow> sensor_data" where
  "push_row row data =
     (let (time, values) = row
      in \<lparr>sd_time = sd_time data @ [time],
          sd_temperature = sd_temperature data @ [scast (raw_temperature values)],
          sd_pressure = sd_pressure data @ [raw_pressure values],
          sd_humidity = sd_humidity data @ [ucast (raw_humidity values)]\<rparr>)"

fun push_rows :: "('e + u32 \<times> raw_sensor_values) list \<Rightarrow> sensor_data \<Rightarrow> 'e db_error + sensor_data" where
  "push_rows [] data = Inr data"
| "push_rows (val # vals) data =
     and_then (map_error Heed val) (\<lambda>row. push_rows vals (push_row row data))"

definition get_log ::
    "('u, 'q) uuid_lib \<Rightarrow> ('e, 'l) log_table \<Rightarrow> ('t, 'c, 'p, 'h) api \<Rightarrow> id_db \<Rightarrow> ('i, 'l) env \<Rightarrow> 'u \<Rightarrow>
     't \<Rightarrow> 't \<Rightarrow> nat option \<Rightarrow> 'e db_error + sensor_data option" where
  "get_log U L A sensor_log txn uid range_start range_end limit =
     (case bt_get sensor_log (as_u128 U uid) of
        None \<Rightarrow> Inr None
      | Some db \<Rightarrow>
          (let lo = timestamp_as_u32 A range_start; hi = timestamp_as_u32 A range_end;
               limit = (case limit of None \<Rightarrow> usize_max | Some n \<Rightarrow> n)
           in and_then (map_error Heed (log_range L (env_logs txn db) lo hi)) (\<lambda>vals.
              and_then (push_rows (take limit vals) sensor_data_default) (\<lambda>data. Inr (Some data)))))"

end
