(* ===== verification/Store_Facts.thy ===== *)
theory Store_Facts
  imports Store
begin

text \<open>
  Properties of the database: table names do not collide, what opening makes known, what
  logging appends and what reading a log returns.
\<close>

section \<open>Table names\<close>

definition undecimal :: "string \<Rightarrow> nat" where
  "undecimal s = foldl (\<lambda>n c. 10 * n + (of_char c - 48)) 0 s"

lemma undecimal_decimal: "undecimal (decimal n) = n"
proof (induction n rule: decimal.induct)
  case (1 n)
  show ?case
  proof (cases "n < 10")
    case True
    then show ?thesis
      by (subst decimal.simps) (simp add: undecimal_def)
  next
    case False
    then show ?thesis
      using "1.IH" by (subst decimal.simps) (simp add: undecimal_def)
  qed
qed

lemma table_name_inj: "table_name m = table_name n \<longleftrightarrow> m = n"
  by (metis table_name_def undecimal_decimal word_unat_eq_iff)

lemma decimal_not_addr: "decimal n \<noteq> ''addr''"
proof
  assume eq: "decimal n = ''addr''"
  have "last (decimal n) = char_of (48 + n mod 10)"
  proof (cases "n < 10")
    case True
    then have "decimal n = [char_of (48 + n)]" by (subst decimal.simps) (rule if_P)
    with True show ?thesis by (simp only: last_ConsL mod_less)
  next
    case False
    then have "decimal n = decimal (n div 10) @ [char_of (48 + n mod 10)]"
      by (subst decimal.simps) (rule if_not_P)
    then show ?thesis by (simp only: last_snoc)
  qed
  with eq have "char_of (48 + n mod 10) = CHR ''r''" by simp
  then have "of_char (char_of (48 + n mod 10) :: char) = (114 :: nat)" by simp
  then show False by simp
qed

section \<open>Opening\<close>

definition db_ok :: "('i, 'l) db \<Rightarrow> bool" where
  "db_ok d \<longleftrightarrow> bt_ok (db_sensor_log d) \<and>
     (\<forall>k name. bt_get (db_sensor_log d) k = Some name \<longrightarrow> name = table_name k)"

lemma create_logs_Inr:
  assumes "create_logs err ids m = Inr m'" and "bt_ok m"
    and "\<forall>k name. bt_get m k = Some name \<longrightarrow> name = table_name k"
  shows "bt_ok m' \<and> (\<forall>k. bt_get m' k = (if k \<in> set ids \<or> bt_get m k \<noteq> None then Some (table_name k) else None))"
  using assms
proof (induction err ids m rule: create_logs.induct)
  case (1 err m)
  then show ?case by (auto; metis not_None_eq)
next
  case (2 err i ids m)
  then have rest: "create_logs err ids (bt_insert i (table_name i) m) = Inr m'"
    by (auto simp: result_iff)
  have "bt_ok (bt_insert i (table_name i) m)" using "2.prems"(2) by (rule bt_ok_insert)
  moreover have "\<forall>k name. bt_get (bt_insert i (table_name i) m) k = Some name \<longrightarrow> name = table_name k"
    using "2.prems"(2,3) by (auto simp: bt_get_insert split: if_splits)
  ultimately have "bt_ok m' \<and> (\<forall>k. bt_get m' k =
      (if k \<in> set ids \<or> bt_get (bt_insert i (table_name i) m) k \<noteq> None then Some (table_name k) else None))"
    using "2.IH" rest "2.prems" by (auto simp: result_iff)
  then show ?case using "2.prems"(2) by (auto simp: bt_get_insert)
qed

text \<open>The sensors an environment knows, by their numbers.\<close>

definition known :: "('e, 'i) id_table \<Rightarrow> ('i, 'l) env \<Rightarrow> u128 set" where
  "known I txn = set (List.map fst (id_entries I (env_ids txn)))"

lemma readable_all_Inr: "readable (List.map Inr xs) ys \<Longrightarrow> xs = ys"
  by simp

lemma known_addrs_Inr:
  assumes "id_table_ok I" and "uuid_ok U"
    and "known_addrs U I txn = Inr it" and "collect_results it = Inr us"
  shows "List.map (as_u128 U) us = List.map fst (id_entries I (env_ids txn))"
proof -
  obtain rs where rs: "id_iter I (env_ids txn) = Inr rs"
    and it: "it = List.map (\<lambda>res. map_sum Heed (\<lambda>(i, _). from_u128 U i) res) rs"
    using assms(3) by (auto simp: known_addrs_def result_iff)
  have "\<forall>r \<in> set rs. \<not> isl r"
  proof
    fix r assume "r \<in> set rs"
    then have "map_sum Heed (\<lambda>(i, _). from_u128 U i) r \<in> set it" using it by auto
    then show "\<not> isl r" using assms(4) by (cases r) (auto simp: result_iff)
  qed
  then have "rs = List.map Inr (List.map projr rs)"
    by (simp add: map_idI)
  moreover have "readable rs (id_entries I (env_ids txn))"
    using assms(1) rs by (auto simp: id_table_ok_def)
  ultimately have es: "List.map projr rs = id_entries I (env_ids txn)"
    by (metis readable_all_Inr)
  then have "rs = List.map Inr (id_entries I (env_ids txn))"
    using \<open>rs = List.map Inr (List.map projr rs)\<close> by simp
  then have "it = List.map (\<lambda>e. Inr (from_u128 U (fst e))) (id_entries I (env_ids txn))"
    using it by (simp add: comp_def split_beta)
  moreover have "us = List.map projr it"
    using assms(4) by (simp add: result_iff comp_def)
  ultimately have "us = List.map (\<lambda>e. from_u128 U (fst e)) (id_entries I (env_ids txn))"
    by (simp add: comp_def)
  then show ?thesis
    using assms(2) by (auto simp: uuid_ok_def split_beta)
qed

lemma Db_open_Inr:
  assumes "id_table_ok I" and "uuid_ok U"
    and "Db_open U I dir_err open_err create_err read_err env = Inr d"
  shows "db_ok d \<and> db_env d = env \<and>
         (\<forall>k. bt_get (db_sensor_log d) k = (if k \<in> known I env then Some (table_name k) else None))"
proof -
  obtain it us sensor_log where
    "known_addrs U I env = Inr it" "collect_results it = Inr us"
    and logs: "create_logs create_err (List.map (as_u128 U) us) [] = Inr sensor_log"
    and d: "d = \<lparr>db_env = env, db_sensor_log = sensor_log\<rparr>"
    using assms(3) by (auto simp: Db_open_def read_txn_def Let_def result_iff)
  then have us: "set (List.map (as_u128 U) us) = known I env"
    using arg_cong [OF known_addrs_Inr [OF assms(1,2)], of env it us set] by (simp only: known_def)
  have "bt_ok sensor_log \<and> (\<forall>k. bt_get sensor_log k =
      (if k \<in> set (List.map (as_u128 U) us) \<or> bt_get ([] :: id_db) k \<noteq> None
       then Some (table_name k) else None))"
    using create_logs_Inr [OF logs] by (simp add: bt.get_empty)
  then show ?thesis
    unfolding us d by (simp add: db_ok_def bt.get_empty)
qed

section \<open>Logging\<close>

text \<open>The rows stored for a sensor: those of its log table, none without one.\<close>

definition log_of ::
    "('u, 'q) uuid_lib \<Rightarrow> ('e, 'l) log_table \<Rightarrow> id_db \<Rightarrow> ('i, 'l) env \<Rightarrow> 'u \<Rightarrow>
     (u32 \<times> raw_sensor_values) list" where
  "log_of U L sensor_log txn uid =
     (case bt_get sensor_log (as_u128 U uid) of
        None \<Rightarrow> []
      | Some db \<Rightarrow> log_entries L (env_logs txn db))"

lemma log_value_unknown:
  "bt_get (lt_sensor_values t) (as_u128 U uid) = None \<Longrightarrow> log_value U L A t uid v = Inr t"
  by (simp add: log_value_def)

lemma log_value_keeps:
  "log_value U L A t uid v = Inr t' \<Longrightarrow>
   lt_sensor_values t' = lt_sensor_values t \<and> env_ids (lt_txn t') = env_ids (lt_txn t)"
  by (auto simp: log_value_def result_iff split: option.splits)

text \<open>A table that no sensor has is never written.\<close>

lemma log_value_other:
  assumes "log_value U L A t uid v = Inr t'" and "\<forall>k. bt_get (lt_sensor_values t) k \<noteq> Some name"
  shows "env_logs (lt_txn t') name = env_logs (lt_txn t) name"
  using assms by (cases "bt_get (lt_sensor_values t) (as_u128 U uid)") (auto simp: log_value_def result_iff)

lemma log_value_appends:
  assumes L: "log_table_ok L" and U: "uuid_ok U"
    and names: "\<forall>k name. bt_get (lt_sensor_values t) k = Some name \<longrightarrow> name = table_name k"
    and step: "log_value U L A t uid v = Inr t'"
  shows "log_of U L (lt_sensor_values t) (lt_txn t') w =
           log_of U L (lt_sensor_values t) (lt_txn t) w @
           (if w = uid \<and> bt_get (lt_sensor_values t) (as_u128 U uid) \<noteq> None
            then [(timestamp_as_u32 A (sv_timestamp v), raw_from A v)] else [])"
proof (cases "bt_get (lt_sensor_values t) (as_u128 U uid)")
  case None
  then show ?thesis using step by (auto simp: log_value_def)
next
  case (Some name)
  then obtain table where
    t': "t' = t\<lparr>lt_txn := (lt_txn t)\<lparr>env_logs := (env_logs (lt_txn t))(name := table)\<rparr>\<rparr>"
    and app: "log_append L (env_logs (lt_txn t) name) (timestamp_as_u32 A (sv_timestamp v)) (raw_from A v) = Inr table"
    using step by (auto simp: log_value_def result_iff)
  have entries: "log_entries L table = log_entries L (env_logs (lt_txn t) name) @
      [(timestamp_as_u32 A (sv_timestamp v), raw_from A v)]"
    using L app by (auto simp: log_table_ok_def)
  show ?thesis
  proof (cases "bt_get (lt_sensor_values t) (as_u128 U w)")
    case None
    then show ?thesis using Some by (auto simp: log_of_def)
  next
    case (Some name')
    then have "name' = name \<longleftrightarrow> w = uid"
      using names \<open>bt_get _ (as_u128 U uid) = Some name\<close> table_name_inj as_u128_eq [OF U] by metis
    then show ?thesis
      using Some \<open>bt_get _ (as_u128 U uid) = Some name\<close> t' entries by (auto simp: log_of_def)
  qed
qed

section \<open>Reading\<close>

definition columns :: "(u32 \<times> raw_sensor_values) list \<Rightarrow> sensor_data" where
  "columns rows =
     \<lparr>sd_time = List.map fst rows,
      sd_temperature = List.map (\<lambda>r. scast (raw_temperature (snd r))) rows,
      sd_pressure = List.map (\<lambda>r. raw_pressure (snd r)) rows,
      sd_humidity = List.map (\<lambda>r. ucast (raw_humidity (snd r))) rows\<rparr>"

lemma push_rows_map: "push_rows (List.map Inr rows) (columns before) = Inr (columns (before @ rows))"
proof (induction rows arbitrary: before)
  case (Cons r rows)
  have "push_row r (columns before) = columns (before @ [r])"
    by (simp add: push_row_def columns_def split_beta)
  with Cons.IH [of "before @ [r]"] show ?case by simp
qed simp

lemma push_rows_Inr: "push_rows vals data = Inr data' \<Longrightarrow> \<exists>rows. vals = List.map Inr rows"
proof (induction vals data rule: push_rows.induct)
  case (2 val vals data)
  then obtain row where row: "val = Inr row" "push_rows vals (push_row row data) = Inr data'"
    by (auto simp: result_iff)
  with 2 obtain rows where "vals = List.map Inr rows" by blast
  with row
  show ?case by (intro exI [of _ "row # rows"]) simp
qed simp

lemma columns_Nil [simp]: "columns [] = sensor_data_default"
  by (simp add: columns_def sensor_data_default_def)

lemma length_u32_keys:
  fixes es :: "(u32 \<times> 'a) list"
  assumes "sorted_wrt (<) (List.map fst es)"
  shows "length es \<le> 2 ^ 32"
proof -
  have "distinct (List.map fst es)" using assms by (simp add: strict_sorted_iff)
  then have "length es = card (set (List.map fst es))"
    by (metis distinct_card length_map)
  also have "\<dots> \<le> card (UNIV :: u32 set)" by (rule card_mono) simp_all
  finally show ?thesis by (simp add: card_word)
qed

lemma take_readable: "readable rs xs \<Longrightarrow> readable (take n rs) (take n xs)"
  by (simp add: readable_def list_all2_takeI)

text \<open>The rows a read returns: those in the half-open range, at most as many as the limit.\<close>

definition selected ::
    "u32 \<Rightarrow> u32 \<Rightarrow> nat option \<Rightarrow> (u32 \<times> raw_sensor_values) list \<Rightarrow> (u32 \<times> raw_sensor_values) list" where
  "selected lo hi limit rows =
     (let rows = List.filter (in_range lo hi) rows
      in case limit of None \<Rightarrow> rows | Some n \<Rightarrow> take n rows)"

lemma get_log_Inr:
  assumes L: "log_table_ok L" and get: "get_log U L A sensor_log txn uid start end limit = Inr r"
  shows "r = map_option (\<lambda>_. columns (selected (timestamp_as_u32 A start) (timestamp_as_u32 A end) limit
                (log_of U L sensor_log txn uid))) (bt_get sensor_log (as_u128 U uid))"
proof (cases "bt_get sensor_log (as_u128 U uid)")
  case None
  then show ?thesis using get by (simp add: get_log_def)
next
  case (Some name)
  let ?lo = "timestamp_as_u32 A start" and ?hi = "timestamp_as_u32 A end"
  let ?n = "case limit of None \<Rightarrow> usize_max | Some n \<Rightarrow> n"
  let ?es = "log_entries L (env_logs txn name)"
  obtain vals data where vals: "log_range L (env_logs txn name) ?lo ?hi = Inr vals"
    and push: "push_rows (take ?n vals) sensor_data_default = Inr data" and r: "r = Some data"
    using get Some by (auto simp: get_log_def Let_def result_iff)
  have "readable vals (List.filter (in_range ?lo ?hi) ?es)"
    using L vals by (auto simp: log_table_ok_def)
  then have rd: "readable (take ?n vals) (take ?n (List.filter (in_range ?lo ?hi) ?es))"
    by (rule take_readable)
  obtain rows where rows: "take ?n vals = List.map Inr rows"
    using push_rows_Inr [OF push] by blast
  then have "rows = take ?n (List.filter (in_range ?lo ?hi) ?es)" using rd by simp
  moreover have "length ?es \<le> 2 ^ 32"
    using L by (intro length_u32_keys) (simp add: log_table_ok_def)
  then have "length (List.filter (in_range ?lo ?hi) ?es) \<le> usize_max"
    using length_filter_le [of "in_range ?lo ?hi" ?es] by (simp add: usize_max_def del: length_filter_le)
  ultimately have "rows = selected ?lo ?hi limit ?es"
    by (simp add: selected_def split: option.split)
  moreover have "push_rows (take ?n vals) sensor_data_default = Inr (columns rows)"
    using push_rows_map [of rows "[]"] by (simp add: rows)
  ultimately show ?thesis
    using push r Some by (simp add: log_of_def)
qed

end
