(* ===== verification/Service.thy ===== *)
theory Service
  imports Store_Facts
begin

text \<open>
  The server's shared context (\<open>Context\<close> in \<open>src/main.rs\<close>), the task that feeds it
  (\<open>update\<close> in \<open>src/tasks.rs\<close>) and the gRPC handlers (\<open>src/rpc.rs\<close>). Handlers that
  take the sensors lock and database transactions one after another are split where another
  task can run between them; the handler is their composition. Broadcasts are outputs.
\<close>

section \<open>The context\<close>

record 'v sensor =
  s_label :: "string option"
  s_state :: "'v sensor_state"

record ('u, 'v, 'i, 'l) server_context =
  ctx_sensors :: "('u, 'v sensor) btree_map"
  ctx_db :: "('i, 'l) db"

datatype label = Label (label_name: string)

record current_values =
  cv_temperature :: i32
  cv_pressure :: u32
  cv_humidity :: u32

record sensor_overview =
  so_label :: "label option"
  so_values :: "current_values option"

record 'q overview_field =
  of_id :: "'q option"
  of_overview :: "sensor_overview option"

type_synonym 'q overview_response = "'q overview_field list"

fun overview_values ::
    "('t, 'c, 'p, 'h) api \<Rightarrow> ('t, 'c, 'p, 'h) sensor_values sensor_state \<Rightarrow> current_values option" where
  "overview_values A (Connected values) =
     Some \<lparr>cv_temperature = scast (celsius_as_i16 A (sv_temperature values)),
           cv_pressure = pascal_as_u32 A (sv_pressure values),
           cv_humidity = ucast (humidity_as_u16 A (sv_humidity values))\<rparr>"
| "overview_values A Unconnected = None"

definition create_overview_response ::
    "('u, 'q) uuid_lib \<Rightarrow> ('t, 'c, 'p, 'h) api \<Rightarrow>
     ('u, ('t, 'c, 'p, 'h) sensor_values sensor) btree_map \<Rightarrow> 'q overview_response" where
  "create_overview_response U A sensors =
     List.map (\<lambda>(uid, sensor).
       \<lparr>of_id = Some (uuid_to_proto U uid),
        of_overview = Some \<lparr>so_label = map_option Label (s_label sensor),
                            so_values = overview_values A (s_state sensor)\<rparr>\<rparr>) sensors"

text \<open>\<open>Context::create\<close>: every known sensor starts unconnected, with its stored label.\<close>

fun load_sensors ::
    "('u::linorder, 'q) uuid_lib \<Rightarrow> ('e, 'i) id_table \<Rightarrow> ('i, 'l) env \<Rightarrow> ('e db_error + 'u) list \<Rightarrow>
     ('u, 'v sensor) btree_map \<Rightarrow> 'e db_error + ('u, 'v sensor) btree_map" where
  "load_sensors U I txn [] sensors = Inr sensors"
| "load_sensors U I txn (res # it) sensors =
     and_then res (\<lambda>uid.
     and_then (get_addr U I txn uid) (\<lambda>entry.
     load_sensors U I txn it
       (bt_insert uid \<lparr>s_label = Option.bind entry entry_label, s_state = Unconnected\<rparr> sensors)))"

definition Context_create ::
    "('u::linorder, 'q) uuid_lib \<Rightarrow> ('e, 'i) id_table \<Rightarrow> 'e option \<Rightarrow> 'e db_error + ('i, 'l) db \<Rightarrow>
     'e db_error + ('u, 'v, 'i, 'l) server_context" where
  "Context_create U I read_err opened =
     and_then opened (\<lambda>db.
     and_then (read_txn read_err db) (\<lambda>txn.
     and_then (known_addrs U I txn) (\<lambda>it.
     and_then (load_sensors U I txn it []) (\<lambda>sensors.
     Inr \<lparr>ctx_sensors = sensors, ctx_db = db\<rparr>))))"

text \<open>\<open>modify_sensors\<close> broadcasts the overview it leaves; that nobody listens is no error.\<close>

definition modify_sensors ::
    "('u, 'q) uuid_lib \<Rightarrow> ('t, 'c, 'p, 'h) api \<Rightarrow>
     (('u, ('t, 'c, 'p, 'h) sensor_values sensor) btree_map \<Rightarrow>
      ('u, ('t, 'c, 'p, 'h) sensor_values sensor) btree_map) \<Rightarrow>
     ('u, ('t, 'c, 'p, 'h) sensor_values, 'i, 'l) server_context \<Rightarrow>
     ('u, ('t, 'c, 'p, 'h) sensor_values, 'i, 'l) server_context \<times> 'q overview_response" where
  "modify_sensors U A f self =
     (let sensors = f (ctx_sensors self)
      in (self\<lparr>ctx_sensors := sensors\<rparr>, create_overview_response U A sensors))"

section \<open>The update task\<close>

text \<open>The transactions of one update, whose errors are arguments.\<close>

datatype update_txn = Read_Addrs | Write_Addrs | Commit_Addrs | Write_Logs | Commit_Logs

fun find_new ::
    "('u, 'q) uuid_lib \<Rightarrow> ('e, 'i) id_table \<Rightarrow> ('i, 'l) env \<Rightarrow> 'u list \<Rightarrow> 'u list \<Rightarrow>
     'e db_error + 'u list" where
  "find_new U I txn [] new_sensors = Inr new_sensors"
| "find_new U I txn (addr # addrs) new_sensors =
     and_then (get_addr U I txn addr) (\<lambda>entry.
       find_new U I txn addrs (if entry = None then new_sensors @ [addr] else new_sensors))"

definition update_find ::
    "('u, 'q) uuid_lib \<Rightarrow> ('e, 'i) id_table \<Rightarrow> (update_txn \<Rightarrow> 'e option) \<Rightarrow>
     ('u, 'v sensor_state) btree_map \<Rightarrow> ('u, 'v, 'i, 'l) server_context \<Rightarrow> 'e db_error + 'u list" where
  "update_find U I err update ctx =
     and_then (read_txn (err Read_Addrs) (ctx_db ctx)) (\<lambda>txn.
       find_new U I txn (bt_keys update) [])"

fun put_new ::
    "('u, 'q) uuid_lib \<Rightarrow> ('e, 'i) id_table \<Rightarrow> 'u list \<Rightarrow> ('i, 'l) env \<Rightarrow> 'e db_error + ('i, 'l) env" where
  "put_new U I [] txn = Inr txn"
| "put_new U I (addr # addrs) txn =
     and_then (put_addr U I txn addr IdDbEntry_default) (\<lambda>txn. put_new U I addrs txn)"

definition update_store ::
    "('u, 'q) uuid_lib \<Rightarrow> ('e, 'i) id_table \<Rightarrow> (update_txn \<Rightarrow> 'e option) \<Rightarrow> 'u list \<Rightarrow>
     ('u, 'v, 'i, 'l) server_context \<Rightarrow> 'e db_error + ('u, 'v, 'i, 'l) server_context" where
  "update_store U I err new_sensors ctx =
     (if new_sensors = [] then Inr ctx
      else
        and_then (write_txn (err Write_Addrs) (ctx_db ctx)) (\<lambda>txn.
        and_then (put_new U I new_sensors txn) (\<lambda>txn.
        and_then (commit_txn (err Commit_Addrs) txn (ctx_db ctx)) (\<lambda>db.
        Inr (ctx\<lparr>ctx_db := db\<rparr>)))))"

fun log_states ::
    "('u, 'q) uuid_lib \<Rightarrow> ('e, 'l) log_table \<Rightarrow> ('t, 'c, 'p, 'h) api \<Rightarrow>
     ('u \<times> ('t, 'c, 'p, 'h) sensor_values sensor_state) list \<Rightarrow> ('i, 'l) log_transaction \<Rightarrow>
     'e + ('i, 'l) log_transaction" where
  "log_states U L A [] txn = Inr txn"
| "log_states U L A ((addr, Connected values) # states) txn =
     and_then (log_value U L A txn addr values) (\<lambda>txn. log_states U L A states txn)"
| "log_states U L A ((addr, Unconnected) # states) txn = log_states U L A states txn"

definition update_log ::
    "('u, 'q) uuid_lib \<Rightarrow> ('e, 'l) log_table \<Rightarrow> ('t, 'c, 'p, 'h) api \<Rightarrow> (update_txn \<Rightarrow> 'e option) \<Rightarrow>
     ('u, ('t, 'c, 'p, 'h) sensor_values sensor_state) btree_map \<Rightarrow>
     ('u, 'v, 'i, 'l) server_context \<Rightarrow> 'e db_error + ('u, 'v, 'i, 'l) server_context" where
  "update_log U L A err update ctx =
     and_then (log_txn (err Write_Logs) (ctx_db ctx)) (\<lambda>txn.
     and_then (map_error Heed (log_states U L A update txn)) (\<lambda>txn.
     and_then (log_commit (err Commit_Logs) txn (ctx_db ctx)) (\<lambda>db.
     Inr (ctx\<lparr>ctx_db := db\<rparr>))))"

definition set_state ::
    "'u::linorder \<Rightarrow> 'v sensor_state \<Rightarrow> ('u, 'v sensor) btree_map \<Rightarrow> ('u, 'v sensor) btree_map" where
  "set_state addr state sensors =
     (case bt_get sensors addr of
        Some sensor \<Rightarrow> bt_insert addr (sensor\<lparr>s_state := state\<rparr>) sensors
      | None \<Rightarrow> bt_insert addr \<lparr>s_label = None, s_state = state\<rparr> sensors)"

definition update_memory ::
    "('u::linorder, 'q) uuid_lib \<Rightarrow> ('t, 'c, 'p, 'h) api \<Rightarrow>
     ('u, ('t, 'c, 'p, 'h) sensor_values sensor_state) btree_map \<Rightarrow>
     ('u, ('t, 'c, 'p, 'h) sensor_values, 'i, 'l) server_context \<Rightarrow>
     ('u, ('t, 'c, 'p, 'h) sensor_values, 'i, 'l) server_context \<times> 'q overview_response" where
  "update_memory U A update ctx =
     modify_sensors U A (fold (\<lambda>(addr, state). set_state addr state) update) ctx"

text \<open>
  The task handles the updates one by one and ends with the first database error, which
  leaves what was committed before.
\<close>

definition update_one ::
    "('u::linorder, 'q) uuid_lib \<Rightarrow> ('e, 'i) id_table \<Rightarrow> ('e, 'l) log_table \<Rightarrow> ('t, 'c, 'p, 'h) api \<Rightarrow>
     (update_txn \<Rightarrow> 'e option) \<Rightarrow> ('u, ('t, 'c, 'p, 'h) sensor_values sensor_state) btree_map \<Rightarrow>
     ('u, ('t, 'c, 'p, 'h) sensor_values, 'i, 'l) server_context \<Rightarrow>
     'e db_error \<times> ('u, ('t, 'c, 'p, 'h) sensor_values, 'i, 'l) server_context +
     ('u, ('t, 'c, 'p, 'h) sensor_values, 'i, 'l) server_context \<times> 'q overview_response" where
  "update_one U I L A err update ctx =
     and_then (map_error (\<lambda>e. (e, ctx)) (update_find U I err update ctx)) (\<lambda>new_sensors.
     and_then (map_error (\<lambda>e. (e, ctx)) (update_store U I err new_sensors ctx)) (\<lambda>ctx.
     and_then (map_error (\<lambda>e. (e, ctx)) (update_log U L A err update ctx)) (\<lambda>ctx.
     Inr (update_memory U A update ctx))))"

fun update_task ::
    "('u::linorder, 'q) uuid_lib \<Rightarrow> ('e, 'i) id_table \<Rightarrow> ('e, 'l) log_table \<Rightarrow> ('t, 'c, 'p, 'h) api \<Rightarrow>
     ((update_txn \<Rightarrow> 'e option) \<times> ('u, ('t, 'c, 'p, 'h) sensor_values sensor_state) btree_map) list \<Rightarrow>
     ('u, ('t, 'c, 'p, 'h) sensor_values, 'i, 'l) server_context \<Rightarrow>
     ('q overview_response,
      'e db_error \<times> ('u, ('t, 'c, 'p, 'h) sensor_values, 'i, 'l) server_context,
      ('u, ('t, 'c, 'p, 'h) sensor_values, 'i, 'l) server_context) action" where
  "update_task U I L A [] ctx = done_with ctx"
| "update_task U I L A ((err, update) # updates) ctx =
     (case update_one U I L A err update ctx of
        Inl e \<Rightarrow> stop_with e
      | Inr (ctx, overview) \<Rightarrow>
          bind_action ([overview], Inr ()) (\<lambda>_. update_task U I L A updates ctx))"

section \<open>The gRPC handlers\<close>

datatype rpc_status =
    Status_Internal string
  | Status_Invalid_Argument string
  | Status_Not_Found string
  | Status_Unauthenticated string

text \<open>Any database error is an internal error to the client.\<close>

definition status_of :: "'e db_error + 'a \<Rightarrow> rpc_status + 'a" where
  "status_of r = map_error (\<lambda>_. Status_Internal ''Internal database error'') r"

definition get_id :: "('u, 'q) uuid_lib \<Rightarrow> 'q option \<Rightarrow> rpc_status + 'u" where
  "get_id U a =
     (case a of
        None \<Rightarrow> Inl (Status_Invalid_Argument ''Missing required id'')
      | Some a \<Rightarrow> Inr (uuid_from_proto U a))"

record 'q sensor_data_request =
  sdr_id :: "'q option"
  sdr_start :: u32
  sdr_end :: u32

definition get_sensor_data ::
    "('u, 'q) uuid_lib \<Rightarrow> ('e, 'l) log_table \<Rightarrow> ('t, 'c, 'p, 'h) api \<Rightarrow> 'e option \<Rightarrow>
     'q sensor_data_request \<Rightarrow> ('u, 'v, 'i, 'l) server_context \<Rightarrow>
     panic + rpc_status + sensor_data" where
  "get_sensor_data U L A read_err req ctx =
     (if sdr_start req > sdr_end req
      then Inr (Inl (Status_Invalid_Argument ''Invalid time range''))
      else
        (case status_of (read_txn read_err (ctx_db ctx)) of
           Inl status \<Rightarrow> Inr (Inl status)
         | Inr txn \<Rightarrow>
             (case sdr_id req of
                None \<Rightarrow> Inl Unwrap_Failed
              | Some uid \<Rightarrow>
                  Inr (and_then
                    (status_of (get_log U L A (db_sensor_log (ctx_db ctx)) txn (uuid_from_proto U uid)
                       (timestamp_from A (sdr_start req)) (timestamp_from A (sdr_end req)) None))
                    (\<lambda>log. case log of
                       None \<Rightarrow> Inl (Status_Not_Found ''Sensor never existed'')
                     | Some log \<Rightarrow> Inr log)))))"

text \<open>The overview takes the labels from the database and the states from memory.\<close>

fun overview_fields ::
    "('u, 'q) uuid_lib \<Rightarrow> ('e, 'i) id_table \<Rightarrow> ('t, 'c, 'p, 'h) api \<Rightarrow> ('i, 'l) env \<Rightarrow>
     ('u \<times> ('t, 'c, 'p, 'h) sensor_values sensor) list \<Rightarrow> 'e db_error + 'q overview_response" where
  "overview_fields U I A txn [] = Inr []"
| "overview_fields U I A txn ((uid, sensor) # sensors) =
     and_then (get_addr U I txn uid) (\<lambda>entry.
       let label = map_option Label (Option.bind entry entry_label);
           field = \<lparr>of_id = Some (uuid_to_proto U uid),
                    of_overview = Some \<lparr>so_label = label,
                                        so_values = overview_values A (s_state sensor)\<rparr>\<rparr>
       in and_then (overview_fields U I A txn sensors) (\<lambda>ret. Inr (field # ret)))"

definition overview ::
    "('u, 'q) uuid_lib \<Rightarrow> ('e, 'i) id_table \<Rightarrow> ('t, 'c, 'p, 'h) api \<Rightarrow> 'e option \<Rightarrow>
     ('u, ('t, 'c, 'p, 'h) sensor_values, 'i, 'l) server_context \<Rightarrow>
     rpc_status + 'q overview_response" where
  "overview U I A read_err ctx =
     status_of (and_then (read_txn read_err (ctx_db ctx)) (\<lambda>txn.
       overview_fields U I A txn (ctx_sensors ctx)))"

text \<open>Changing a label: check that the sensor is known, store the label, set it in memory.\<close>

record 'q change_label_request =
  clr_id :: "'q option"
  clr_label :: "label option"

datatype label_txn = Read_Label | Write_Label | Commit_Label

definition label_check ::
    "('u, 'q) uuid_lib \<Rightarrow> ('e, 'i) id_table \<Rightarrow> (label_txn \<Rightarrow> 'e option) \<Rightarrow> 'u \<Rightarrow>
     ('u, 'v, 'i, 'l) server_context \<Rightarrow> rpc_status + unit" where
  "label_check U I err uid ctx =
     and_then (status_of (read_txn (err Read_Label) (ctx_db ctx))) (\<lambda>txn.
     and_then (status_of (get_addr U I txn uid)) (\<lambda>entry.
     if entry = None then Inl (Status_Not_Found ''Sensor not found'') else Inr ()))"

definition label_store ::
    "('u, 'q) uuid_lib \<Rightarrow> ('e, 'i) id_table \<Rightarrow> (label_txn \<Rightarrow> 'e option) \<Rightarrow> 'u \<Rightarrow> string option \<Rightarrow>
     ('u, 'v, 'i, 'l) server_context \<Rightarrow> rpc_status + ('u, 'v, 'i, 'l) server_context" where
  "label_store U I err uid new_label ctx =
     status_of (and_then (write_txn (err Write_Label) (ctx_db ctx)) (\<lambda>txn.
     and_then (put_addr U I txn uid \<lparr>entry_label = new_label\<rparr>) (\<lambda>txn.
     and_then (commit_txn (err Commit_Label) txn (ctx_db ctx)) (\<lambda>db.
     Inr (ctx\<lparr>ctx_db := db\<rparr>)))))"

definition set_label ::
    "'u::linorder \<Rightarrow> string option \<Rightarrow> ('u, 'v sensor) btree_map \<Rightarrow> ('u, 'v sensor) btree_map" where
  "set_label uid new_label sensors =
     (case bt_get sensors uid of
        Some entry \<Rightarrow> bt_insert uid (entry\<lparr>s_label := new_label\<rparr>) sensors
      | None \<Rightarrow> sensors)"

definition label_memory ::
    "('u::linorder, 'q) uuid_lib \<Rightarrow> ('t, 'c, 'p, 'h) api \<Rightarrow> 'u \<Rightarrow> string option \<Rightarrow>
     ('u, ('t, 'c, 'p, 'h) sensor_values, 'i, 'l) server_context \<Rightarrow>
     ('u, ('t, 'c, 'p, 'h) sensor_values, 'i, 'l) server_context \<times> 'q overview_response" where
  "label_memory U A uid new_label ctx = modify_sensors U A (set_label uid new_label) ctx"

definition change_label ::
    "('u::linorder, 'q) uuid_lib \<Rightarrow> ('e, 'i) id_table \<Rightarrow> ('t, 'c, 'p, 'h) api \<Rightarrow>
     (label_txn \<Rightarrow> 'e option) \<Rightarrow> 'q change_label_request \<Rightarrow>
     ('u, ('t, 'c, 'p, 'h) sensor_values, 'i, 'l) server_context \<Rightarrow>
     rpc_status + ('u, ('t, 'c, 'p, 'h) sensor_values, 'i, 'l) server_context \<times> 'q overview_response" where
  "change_label U I A err req ctx =
     and_then (get_id U (clr_id req)) (\<lambda>uid.
     and_then (label_check U I err uid ctx) (\<lambda>_.
     let new_label = map_option label_name (clr_label req)
     in and_then (label_store U I err uid new_label ctx) (\<lambda>ctx.
        Inr (label_memory U A uid new_label ctx))))"

text \<open>
  A backup streams every log in chunks. A chunk that cannot be sent ends it. The loop over
  one log may in general not end; \<open>True\<close>: go on with the next sensor.
\<close>

definition CHUNKSIZE :: nat where
  "CHUNKSIZE = 8192"

partial_function (option) backup_log ::
    "('u, 'q) uuid_lib \<Rightarrow> ('e, 'l) log_table \<Rightarrow> ('t, 'c, 'p, 'h) api \<Rightarrow> id_db \<Rightarrow> ('i, 'l) env \<Rightarrow>
     ('q \<times> sensor_data \<Rightarrow> bool) \<Rightarrow> 'u \<Rightarrow> 't \<Rightarrow>
     (('q \<times> sensor_data) list \<times> (panic + bool)) option" where
  "backup_log U L A sensor_log txn send_ok uid start =
     (case get_log U L A sensor_log txn uid start (timestamp_from A (- 1)) (Some CHUNKSIZE) of
        Inl e \<Rightarrow> Some ([], Inl Unwrap_Failed)
      | Inr None \<Rightarrow> Some ([], Inr True)
      | Inr (Some resp) \<Rightarrow>
          (if sd_time resp = [] then Some ([], Inr True)
           else
             (case checked_succ (last (sd_time resp)) of
                None \<Rightarrow> Some ([], Inl (Expect_Failed ''Timestamp overflow''))
              | Some next \<Rightarrow>
                  if send_ok (uuid_to_proto U uid, resp)
                  then Option.bind
                         (backup_log U L A sensor_log txn send_ok uid (timestamp_from A next))
                         (\<lambda>(chunks, r). Some ((uuid_to_proto U uid, resp) # chunks, r))
                  else Some ([], Inr False))))"

fun backup_sensors ::
    "('u, 'q) uuid_lib \<Rightarrow> ('e, 'l) log_table \<Rightarrow> ('t, 'c, 'p, 'h) api \<Rightarrow> id_db \<Rightarrow> ('i, 'l) env \<Rightarrow>
     ('q \<times> sensor_data \<Rightarrow> bool) \<Rightarrow> ('e db_error + 'u) list \<Rightarrow>
     (('q \<times> sensor_data) list \<times> (panic + bool)) option" where
  "backup_sensors U L A sensor_log txn send_ok [] = Some ([], Inr True)"
| "backup_sensors U L A sensor_log txn send_ok (Inl e # it) = backup_sensors U L A sensor_log txn send_ok it"
| "backup_sensors U L A sensor_log txn send_ok (Inr uid # it) =
     Option.bind (backup_log U L A sensor_log txn send_ok uid (timestamp_from A 0)) (\<lambda>(chunks, r).
       if r = Inr True
       then Option.bind (backup_sensors U L A sensor_log txn send_ok it) (\<lambda>(chunks', r').
              Some (chunks @ chunks', r'))
       else Some (chunks, r))"

definition backup ::
    "('u, 'q) uuid_lib \<Rightarrow> ('e, 'i) id_table \<Rightarrow> ('e, 'l) log_table \<Rightarrow> ('t, 'c, 'p, 'h) api \<Rightarrow> 'e option \<Rightarrow>
     ('q \<times> sensor_data \<Rightarrow> bool) \<Rightarrow> ('u, 'v, 'i, 'l) server_context \<Rightarrow>
     (('q \<times> sensor_data) list \<times> (panic + bool)) option" where
  "backup U I L A read_err send_ok ctx =
     (case read_txn read_err (ctx_db ctx) of
        Inl e \<Rightarrow> Some ([], Inl Unwrap_Failed)
      | Inr txn \<Rightarrow>
          (case known_addrs U I txn of
             Inl e \<Rightarrow> Some ([], Inl Unwrap_Failed)
           | Inr it \<Rightarrow>
               backup_sensors U L A (db_sensor_log (ctx_db ctx)) txn send_ok it))"

end
