(* ===== verification/Service_Facts.thy ===== *)
theory Service_Facts
  imports Service
begin

text \<open>
  Properties of the update task: what each phase of an update does to the database, the logs
  and the memory, when it succeeds and when it fails.
\<close>

section \<open>The table of sensors\<close>

definition ids :: "('e, 'i) id_table \<Rightarrow> ('i, 'l) env \<Rightarrow> u128 \<Rightarrow> id_db_entry option" where
  "ids I txn = map_of (id_entries I (env_ids txn))"

lemma known_ids: "k \<in> known I txn \<longleftrightarrow> ids I txn k \<noteq> None"
  by (simp add: known_def ids_def map_of_eq_None_iff)

lemma get_addr_Inr:
  "id_table_ok I \<Longrightarrow> get_addr U I txn uid = Inr r \<Longrightarrow> r = ids I txn (as_u128 U uid)"
  by (auto simp: get_addr_def ids_def id_table_ok_def result_iff)

lemma put_addr_Inr:
  "id_table_ok I \<Longrightarrow> put_addr U I txn uid e = Inr txn' \<Longrightarrow>
   ids I txn' = (ids I txn)(as_u128 U uid \<mapsto> e) \<and> env_logs txn' = env_logs txn"
  by (auto simp: put_addr_def ids_def id_table_ok_def result_iff)

lemma find_new_Inr:
  assumes "id_table_ok I" and "find_new U I txn addrs new = Inr new'"
  shows "new' = new @ List.filter (\<lambda>a. ids I txn (as_u128 U a) = None) addrs"
  using assms(2)
proof (induction addrs arbitrary: new)
  case (Cons addr addrs)
  then obtain entry where entry: "get_addr U I txn addr = Inr entry"
    and rest: "find_new U I txn addrs (if entry = None then new @ [addr] else new) = Inr new'"
    by (auto simp: result_iff)
  have "entry = ids I txn (as_u128 U addr)"
    by (rule get_addr_Inr [OF assms(1) entry])
  then show ?case using Cons.IH [OF rest] by (simp split: if_splits)
qed simp

lemma put_new_Inr:
  assumes "id_table_ok I" and "put_new U I addrs txn = Inr txn'"
  shows "ids I txn' = (\<lambda>k. if k \<in> as_u128 U ` set addrs then Some IdDbEntry_default else ids I txn k) \<and>
         env_logs txn' = env_logs txn"
  using assms(2)
proof (induction addrs arbitrary: txn)
  case (Cons addr addrs)
  then obtain txn1 where put: "put_addr U I txn addr IdDbEntry_default = Inr txn1"
    and rest: "put_new U I addrs txn1 = Inr txn'"
    by (auto simp: result_iff)
  show ?case
    using put_addr_Inr [OF assms(1) put] Cons.IH [OF rest] by (auto simp: fun_eq_iff)
qed auto

section \<open>The phases of an update\<close>

text \<open>The sensors and their database as one tuple of what the properties speak about.\<close>

abbreviation ctx_ids :: "('e, 'i) id_table \<Rightarrow> ('u, 'v, 'i, 'l) server_context \<Rightarrow> u128 \<Rightarrow> id_db_entry option" where
  "ctx_ids I ctx \<equiv> ids I (db_env (ctx_db ctx))"

abbreviation ctx_log ::
    "('u, 'q) uuid_lib \<Rightarrow> ('e, 'l) log_table \<Rightarrow> ('u, 'v, 'i, 'l) server_context \<Rightarrow> 'u \<Rightarrow>
     (u32 \<times> raw_sensor_values) list" where
  "ctx_log U L ctx \<equiv> log_of U L (db_sensor_log (ctx_db ctx)) (db_env (ctx_db ctx))"

abbreviation opened_logs :: "('u, 'v, 'i, 'l) server_context \<Rightarrow> id_db" where
  "opened_logs ctx \<equiv> db_sensor_log (ctx_db ctx)"

lemma update_find_Inr:
  assumes "id_table_ok I" and "update_find U I err update ctx = Inr new"
  shows "new = List.filter (\<lambda>a. ctx_ids I ctx (as_u128 U a) = None) (bt_keys update)"
proof -
  have "find_new U I (db_env (ctx_db ctx)) (bt_keys update) [] = Inr new"
    using assms(2) by (auto simp: update_find_def read_txn_def result_iff)
  from find_new_Inr [OF assms(1) this] show ?thesis by simp
qed

lemma update_store_Inr:
  assumes "id_table_ok I" and "update_store U I err new ctx = Inr ctx'"
  shows "ctx_sensors ctx' = ctx_sensors ctx \<and> opened_logs ctx' = opened_logs ctx \<and>
         env_logs (db_env (ctx_db ctx')) = env_logs (db_env (ctx_db ctx)) \<and>
         ctx_ids I ctx' = (\<lambda>k. if k \<in> as_u128 U ` set new then Some IdDbEntry_default else ctx_ids I ctx k)"
proof (cases "new = []")
  case True
  then show ?thesis using assms(2) by (simp add: update_store_def)
next
  case False
  then obtain txn where put: "put_new U I new (db_env (ctx_db ctx)) = Inr txn"
    and ctx': "ctx' = ctx\<lparr>ctx_db := (ctx_db ctx)\<lparr>db_env := txn\<rparr>\<rparr>"
    using assms(2) by (auto simp: update_store_def write_txn_def commit_txn_def result_iff)
  show ?thesis using put_new_Inr [OF assms(1) put] ctx' by simp
qed

text \<open>The rows an update adds to a sensor's log.\<close>

fun rows_for ::
    "('t, 'c, 'p, 'h) api \<Rightarrow> 'u \<Rightarrow> ('u \<times> ('t, 'c, 'p, 'h) sensor_values sensor_state) list \<Rightarrow>
     (u32 \<times> raw_sensor_values) list" where
  "rows_for A w [] = []"
| "rows_for A w ((uid, Connected v) # states) =
     (if uid = w then [(timestamp_as_u32 A (sv_timestamp v), raw_from A v)] else []) @ rows_for A w states"
| "rows_for A w ((uid, Unconnected) # states) = rows_for A w states"

definition named :: "id_db \<Rightarrow> bool" where
  "named m \<longleftrightarrow> (\<forall>k name. bt_get m k = Some name \<longrightarrow> name = table_name k)"

lemma log_states_Inr:
  assumes L: "log_table_ok L" and U: "uuid_ok U" and "named (lt_sensor_values t)"
    and "log_states U L A states t = Inr t'"
  shows "lt_sensor_values t' = lt_sensor_values t \<and> env_ids (lt_txn t') = env_ids (lt_txn t) \<and>
         (\<forall>w. log_of U L (lt_sensor_values t) (lt_txn t') w =
                log_of U L (lt_sensor_values t) (lt_txn t) w @
                (if bt_get (lt_sensor_values t) (as_u128 U w) = None then [] else rows_for A w states))"
  using assms(3,4)
proof (induction states arbitrary: t)
  case (Cons s states)
  obtain addr state where s: "s = (addr, state)" by force
  show ?case
  proof (cases state)
    case Unconnected
    then show ?thesis using Cons s by simp
  next
    case (Connected v)
    then obtain t1 where t1: "log_value U L A t addr v = Inr t1"
      and rest: "log_states U L A states t1 = Inr t'"
      using Cons.prems(2) s by (auto simp: result_iff)
    have eq: "lt_sensor_values t1 = lt_sensor_values t" "env_ids (lt_txn t1) = env_ids (lt_txn t)"
      using log_value_keeps [OF t1] by simp_all
    have "named (lt_sensor_values t1)" using Cons.prems(1) eq by simp
    from Cons.IH [OF this rest] log_value_appends [OF L U _ t1] Cons.prems(1) show ?thesis
      by (auto simp: s Connected eq named_def)
  qed
qed simp

lemma update_log_Inr:
  assumes L: "log_table_ok L" and U: "uuid_ok U" and "named (opened_logs ctx)"
    and "update_log U L A err update ctx = Inr ctx'"
  shows "ctx_sensors ctx' = ctx_sensors ctx \<and> opened_logs ctx' = opened_logs ctx \<and>
         env_ids (db_env (ctx_db ctx')) = env_ids (db_env (ctx_db ctx)) \<and>
         (\<forall>w. ctx_log U L ctx' w = ctx_log U L ctx w @
            (if bt_get (opened_logs ctx) (as_u128 U w) = None then [] else rows_for A w update))"
proof -
  let ?t = "\<lparr>lt_sensor_values = opened_logs ctx, lt_txn = db_env (ctx_db ctx)\<rparr>"
  obtain t where t: "log_states U L A update ?t = Inr t"
    and ctx': "ctx' = ctx\<lparr>ctx_db := (ctx_db ctx)\<lparr>db_env := lt_txn t\<rparr>\<rparr>"
    using assms(4)
    by (auto simp: update_log_def log_txn_def write_txn_def log_commit_def commit_txn_def result_iff)
  show ?thesis
    using log_states_Inr [OF L U _ t] assms(3) ctx' by simp
qed

lemma log_states_other:
  assumes "log_states U L A states t = Inr t'" and "\<forall>k. bt_get (lt_sensor_values t) k \<noteq> Some name"
  shows "env_logs (lt_txn t') name = env_logs (lt_txn t) name"
  using assms
proof (induction U L A states t rule: log_states.induct)
  case (2 U L A addr v states t)
  then obtain t1 where t1: "log_value U L A t addr v = Inr t1"
    and rest: "log_states U L A states t1 = Inr t'"
    by (auto simp: result_iff)
  show ?case
    using "2.IH" [OF rest] "2.prems"(2) log_value_keeps [OF t1] log_value_other [OF t1] by simp
qed simp_all

lemma update_log_other:
  assumes "update_log U L A err update ctx = Inr ctx'" and "\<forall>k. bt_get (opened_logs ctx) k \<noteq> Some name"
  shows "env_logs (db_env (ctx_db ctx')) name = env_logs (db_env (ctx_db ctx)) name"
proof -
  let ?t = "\<lparr>lt_sensor_values = opened_logs ctx, lt_txn = db_env (ctx_db ctx)\<rparr>"
  obtain t where t: "log_states U L A update ?t = Inr t"
    and ctx': "ctx' = ctx\<lparr>ctx_db := (ctx_db ctx)\<lparr>db_env := lt_txn t\<rparr>\<rparr>"
    using assms(1)
    by (auto simp: update_log_def log_txn_def write_txn_def log_commit_def commit_txn_def result_iff)
  show ?thesis using log_states_other [OF t, of name] assms(2) ctx' by simp
qed

lemma set_state_get:
  "bt_ok sensors \<Longrightarrow>
   bt_ok (set_state addr state sensors) \<and>
   bt_get (set_state addr state sensors) w =
     (if w = addr
      then Some \<lparr>s_label = Option.bind (bt_get sensors addr) s_label, s_state = state\<rparr>
      else bt_get sensors w)"
  by (auto simp: set_state_def bt_ok_insert bt_get_insert split: option.split)

lemma set_states_get:
  assumes "bt_ok sensors" and "distinct (List.map fst update)"
  shows "bt_ok (fold (\<lambda>(addr, state). set_state addr state) update sensors) \<and>
         bt_get (fold (\<lambda>(addr, state). set_state addr state) update sensors) w =
           (case map_of update w of
              Some state \<Rightarrow> Some \<lparr>s_label = Option.bind (bt_get sensors w) s_label, s_state = state\<rparr>
            | None \<Rightarrow> bt_get sensors w)"
  using assms
proof (induction update arbitrary: sensors)
  case (Cons s update)
  obtain addr state where s: "s = (addr, state)" by force
  have ok: "bt_ok (set_state addr state sensors)" using set_state_get Cons.prems(1) by blast
  have "map_of update addr = None" using Cons.prems(2) s by (simp add: map_of_eq_None_iff)
  then show ?case
    using Cons.IH [OF ok] Cons.prems set_state_get [OF Cons.prems(1), of addr state]
    by (auto simp: s split: option.split)
qed simp

lemma rows_for_notin: "w \<notin> fst ` set update \<Longrightarrow> rows_for A w update = []"
  by (induction A w update rule: rows_for.induct) auto

lemma rows_for_update:
  "distinct (List.map fst update) \<Longrightarrow>
   rows_for A w update =
     (case map_of update w of
        Some (Connected v) \<Rightarrow> [(timestamp_as_u32 A (sv_timestamp v), raw_from A v)]
      | _ \<Rightarrow> [])"
proof (induction A w update rule: rows_for.induct)
  case (2 A w uid v states)
  then show ?case using rows_for_notin [of w states A] by auto
qed (auto simp: rows_for_notin split: option.split sensor_state.split)

section \<open>One update\<close>

lemma update_one_Inr:
  assumes I: "id_table_ok I" and L: "log_table_ok L" and U: "uuid_ok U"
    and named: "named (opened_logs ctx)" and ok: "bt_ok (ctx_sensors ctx)" and upd: "bt_ok update"
    and step: "update_one U I L A err update ctx = Inr (ctx', sent)"
  shows "bt_ok (ctx_sensors ctx') \<and>
         (\<forall>u. bt_get (ctx_sensors ctx') u =
            (case bt_get update u of
               Some state \<Rightarrow> Some \<lparr>s_label = Option.bind (bt_get (ctx_sensors ctx) u) s_label, s_state = state\<rparr>
             | None \<Rightarrow> bt_get (ctx_sensors ctx) u)) \<and>
         (\<forall>u. ctx_ids I ctx' (as_u128 U u) =
            (if u \<in> set (bt_keys update) \<and> ctx_ids I ctx (as_u128 U u) = None
             then Some IdDbEntry_default else ctx_ids I ctx (as_u128 U u))) \<and>
         (\<forall>u. ctx_log U L ctx' u = ctx_log U L ctx u @
            (case (bt_get (opened_logs ctx) (as_u128 U u), bt_get update u) of
               (Some _, Some (Connected v)) \<Rightarrow> [(timestamp_as_u32 A (sv_timestamp v), raw_from A v)]
             | _ \<Rightarrow> [])) \<and>
         opened_logs ctx' = opened_logs ctx \<and>
         sent = create_overview_response U A (ctx_sensors ctx')"
proof -
  obtain new ctx1 ctx2 where find: "update_find U I err update ctx = Inr new"
    and store: "update_store U I err new ctx = Inr ctx1"
    and log: "update_log U L A err update ctx1 = Inr ctx2"
    and mem: "(ctx', sent) = update_memory U A update ctx2"
    using step by (auto simp: update_one_def result_iff)
  note new = update_find_Inr [OF I find]
  note c1 = update_store_Inr [OF I store]
  have "named (opened_logs ctx1)" using named c1 by simp
  note c2 = update_log_Inr [OF L U this log]
  have d: "distinct (List.map fst update)"
    using bt_ok_distinct [OF upd] by (simp add: bt_keys_def)
  have ctx': "ctx' = ctx2\<lparr>ctx_sensors := fold (\<lambda>(addr, state). set_state addr state) update (ctx_sensors ctx)\<rparr>"
    and ov: "sent = create_overview_response U A (ctx_sensors ctx')"
    using mem c1 c2 by (auto simp: update_memory_def modify_sensors_def Let_def)
  have ids2: "ctx_ids I ctx2 = ctx_ids I ctx1" using c2 by (simp add: ids_def)
  have log1: "ctx_log U L ctx1 u = ctx_log U L ctx u" for u
    using c1 by (simp add: log_of_def split: option.split)
  have "ctx_ids I ctx' (as_u128 U u) =
      (if u \<in> set (bt_keys update) \<and> ctx_ids I ctx (as_u128 U u) = None
       then Some IdDbEntry_default else ctx_ids I ctx (as_u128 U u))" for u
  proof -
    have "as_u128 U u \<in> as_u128 U ` set new \<longleftrightarrow>
        u \<in> set (bt_keys update) \<and> ctx_ids I ctx (as_u128 U u) = None"
      using new as_u128_eq [OF U] by auto
    then show ?thesis using ctx' c1 ids2 by simp
  qed
  moreover have "ctx_log U L ctx' u = ctx_log U L ctx u @
      (case (bt_get (opened_logs ctx) (as_u128 U u), bt_get update u) of
         (Some _, Some (Connected v)) \<Rightarrow> [(timestamp_as_u32 A (sv_timestamp v), raw_from A v)]
       | _ \<Rightarrow> [])" for u
  proof -
    have "ctx_log U L ctx2 u = ctx_log U L ctx1 u @
        (if bt_get (opened_logs ctx1) (as_u128 U u) = None then [] else rows_for A u update)"
      using c2 by blast
    moreover have "opened_logs ctx1 = opened_logs ctx" using c1 by blast
    ultimately have "ctx_log U L ctx2 u = ctx_log U L ctx u @
        (if bt_get (opened_logs ctx) (as_u128 U u) = None then [] else rows_for A u update)"
      using log1 [of u] by (simp only:)
    moreover have "ctx_log U L ctx' u = ctx_log U L ctx2 u" using ctx' by simp
    ultimately show ?thesis
      using rows_for_update [OF d, of A u] by (auto simp: bt_get_def split: option.split)
  qed
  ultimately show ?thesis
    using set_states_get [OF ok d] ctx' c1 c2 ov by (simp add: bt_get_def)
qed

lemma update_one_other:
  assumes I: "id_table_ok I" and step: "update_one U I L A err update ctx = Inr (ctx', sent)"
    and "\<forall>k. bt_get (opened_logs ctx) k \<noteq> Some name"
  shows "env_logs (db_env (ctx_db ctx')) name = env_logs (db_env (ctx_db ctx)) name"
proof -
  obtain new ctx1 ctx2 where store: "update_store U I err new ctx = Inr ctx1"
    and log: "update_log U L A err update ctx1 = Inr ctx2"
    and mem: "(ctx', sent) = update_memory U A update ctx2"
    using step by (auto simp: update_one_def result_iff)
  show ?thesis
    using update_store_Inr [OF I store] update_log_other [OF log, of name] assms(3) mem
    by (simp add: update_memory_def modify_sensors_def Let_def)
qed

lemma update_one_Inl:
  assumes I: "id_table_ok I" and U: "uuid_ok U"
    and step: "update_one U I L A err update ctx = Inl (e, ctx')"
  shows "ctx_sensors ctx' = ctx_sensors ctx \<and> opened_logs ctx' = opened_logs ctx \<and>
         env_logs (db_env (ctx_db ctx')) = env_logs (db_env (ctx_db ctx)) \<and>
         (\<forall>k. ctx_ids I ctx k \<noteq> None \<longrightarrow> ctx_ids I ctx' k = ctx_ids I ctx k)"
proof (cases "update_find U I err update ctx")
  case (Inl e)
  then show ?thesis using step by (simp add: update_one_def)
next
  case find: (Inr new)
  note new = update_find_Inr [OF I find]
  show ?thesis
  proof (cases "update_store U I err new ctx")
    case (Inl e)
    then show ?thesis using step find by (simp add: update_one_def)
  next
    case store: (Inr ctx1)
    then have "ctx' = ctx1"
      using step find by (cases "update_log U L A err update ctx1") (simp_all add: update_one_def)
    then show ?thesis using update_store_Inr [OF I store] new by auto
  qed
qed

end
