(* ===== verification/Server.thy ===== *)
theory Server
  imports Service_Facts
begin

text \<open>
  The server as a machine that runs one handler at a time: the update task until its first
  error, and label changes. Stored and broadcast overviews agree in every reachable state;
  when the phases of two handlers interleave they need not.
\<close>

section \<open>One handler at a time\<close>

datatype ('u, 'v, 'e, 'q) server_op =
    Op_Update "update_txn \<Rightarrow> 'e option" "('u, 'v sensor_state) btree_map"
  | Op_Label "label_txn \<Rightarrow> 'e option" "'q change_label_request"

fun server_step ::
    "('u::linorder, 'q) uuid_lib \<Rightarrow> ('e, 'i) id_table \<Rightarrow> ('e, 'l) log_table \<Rightarrow> ('t, 'c, 'p, 'h) api \<Rightarrow>
     ('u, ('t, 'c, 'p, 'h) sensor_values, 'i, 'l) server_context \<times> bool \<Rightarrow>
     ('u, ('t, 'c, 'p, 'h) sensor_values, 'e, 'q) server_op \<Rightarrow>
     panic + (('u, ('t, 'c, 'p, 'h) sensor_values, 'i, 'l) server_context \<times> bool) \<times>
             'q overview_response list" where
  "server_step U I L A (ctx, updating) (Op_Update err update) =
     (if updating then
        (case update_one U I L A err update ctx of
           Inl (e, ctx) \<Rightarrow> Inr ((ctx, False), [])
         | Inr (ctx, sent) \<Rightarrow> Inr ((ctx, True), [sent]))
      else Inr ((ctx, False), []))"
| "server_step U I L A (ctx, updating) (Op_Label err req) =
     (case change_label U I A err req ctx of
        Inl status \<Rightarrow> Inr ((ctx, updating), [])
      | Inr (ctx, sent) \<Rightarrow> Inr ((ctx, updating), [sent]))"

fun op_ok :: "('u::linorder, 'v, 'e, 'q) server_op \<Rightarrow> bool" where
  "op_ok (Op_Update err update) \<longleftrightarrow> bt_ok update"
| "op_ok (Op_Label err req) \<longleftrightarrow> True"

text \<open>
  Every sensor in memory is stored with the same label; while updates run, every stored
  sensor is in memory; the logs are those that were opened at the start.
\<close>

definition labels_agree ::
    "('u, 'q) uuid_lib \<Rightarrow> ('e, 'i) id_table \<Rightarrow> ('u::linorder, 'v, 'i, 'l) server_context \<Rightarrow> bool" where
  "labels_agree U I ctx \<longleftrightarrow>
     (\<forall>u s. bt_get (ctx_sensors ctx) u = Some s \<longrightarrow>
        (\<exists>e. ctx_ids I ctx (as_u128 U u) = Some e \<and> s_label s = entry_label e))"

definition all_loaded ::
    "('u, 'q) uuid_lib \<Rightarrow> ('e, 'i) id_table \<Rightarrow> ('u::linorder, 'v, 'i, 'l) server_context \<Rightarrow> bool" where
  "all_loaded U I ctx \<longleftrightarrow>
     (\<forall>u. ctx_ids I ctx (as_u128 U u) \<noteq> None \<longrightarrow> bt_get (ctx_sensors ctx) u \<noteq> None)"

definition server_inv ::
    "('u, 'q) uuid_lib \<Rightarrow> ('e, 'i) id_table \<Rightarrow> id_db \<Rightarrow>
     ('u::linorder, 'v, 'i, 'l) server_context \<times> bool \<Rightarrow> bool" where
  "server_inv U I logs st \<longleftrightarrow>
     bt_ok (ctx_sensors (fst st)) \<and> opened_logs (fst st) = logs \<and>
     labels_agree U I (fst st) \<and> (snd st \<longrightarrow> all_loaded U I (fst st))"

lemma change_label_Inr:
  assumes I: "id_table_ok I"
    and step: "change_label U I A err req ctx = Inr (ctx', sent)"
  shows "\<exists>q. clr_id req = Some q \<and>
     (let uid = uuid_from_proto U q; new = map_option label_name (clr_label req)
      in ctx_ids I ctx (as_u128 U uid) \<noteq> None \<and>
         ctx_ids I ctx' = (ctx_ids I ctx)(as_u128 U uid \<mapsto> \<lparr>entry_label = new\<rparr>) \<and>
         opened_logs ctx' = opened_logs ctx \<and>
         env_logs (db_env (ctx_db ctx')) = env_logs (db_env (ctx_db ctx)) \<and>
         ctx_sensors ctx' = set_label uid new (ctx_sensors ctx) \<and>
         sent = create_overview_response U A (ctx_sensors ctx'))"
proof -
  obtain q where q: "clr_id req = Some q"
    using step by (cases "clr_id req") (auto simp: change_label_def get_id_def)
  let ?uid = "uuid_from_proto U q" and ?new = "map_option label_name (clr_label req)"
  obtain ctx1 where check: "label_check U I err ?uid ctx = Inr ()"
    and store: "label_store U I err ?uid ?new ctx = Inr ctx1"
    and mem: "(ctx', sent) = label_memory U A ?uid ?new ctx1"
    using step q by (auto simp: change_label_def get_id_def Let_def result_iff)
  obtain entry where get: "get_addr U I (db_env (ctx_db ctx)) ?uid = Inr (Some entry)"
    using check by (auto simp: label_check_def status_of_def read_txn_def result_iff split: if_splits)
  obtain txn where put: "put_addr U I (db_env (ctx_db ctx)) ?uid \<lparr>entry_label = ?new\<rparr> = Inr txn"
    and ctx1: "ctx1 = ctx\<lparr>ctx_db := (ctx_db ctx)\<lparr>db_env := txn\<rparr>\<rparr>"
    using store by (auto simp: label_store_def status_of_def write_txn_def commit_txn_def result_iff)
  show ?thesis
    using q get_addr_Inr [OF I get, symmetric] put_addr_Inr [OF I put] ctx1 mem
    by (auto simp: label_memory_def modify_sensors_def Let_def)
qed

lemma set_label_get:
  "bt_ok sensors \<Longrightarrow>
   bt_ok (set_label uid new sensors) \<and>
   bt_get (set_label uid new sensors) w =
     (if w = uid then map_option (\<lambda>s. s\<lparr>s_label := new\<rparr>) (bt_get sensors uid)
      else bt_get sensors w)"
  by (auto simp: set_label_def bt_ok_insert bt_get_insert split: option.split)

lemma server_inv_step:
  assumes I: "id_table_ok I" and L: "log_table_ok L" and U: "uuid_ok U" and names: "named logs"
    and inv: "server_inv U I logs st" and op: "op_ok op"
    and step: "server_step U I L A st op = Inr (st', sent)"
  shows "server_inv U I logs st'"
proof (cases op)
  case (Op_Label err req)
  obtain ctx updating where st: "st = (ctx, updating)" by force
  show ?thesis
  proof (cases "change_label U I A err req ctx")
    case (Inl status)
    then show ?thesis using step inv st Op_Label by simp
  next
    case (Inr r)
    then obtain ctx' o' where r: "change_label U I A err req ctx = Inr (ctx', o')" by (cases r) auto
    have st': "st' = (ctx', updating)" using step r st Op_Label by simp
    have ok: "bt_ok (ctx_sensors ctx)" using inv st by (simp add: server_inv_def)
    show ?thesis
      using change_label_Inr [OF I r] inv set_label_get [OF ok]
      by (auto simp: st st' server_inv_def labels_agree_def all_loaded_def Let_def as_u128_eq [OF U]
          split: if_splits)
  qed
next
  case (Op_Update err update)
  obtain ctx updating where st: "st = (ctx, updating)" by force
  show ?thesis
  proof (cases updating)
    case False
    then show ?thesis using step inv st Op_Update by simp
  next
    case True
    show ?thesis
    proof (cases "update_one U I L A err update ctx")
      case (Inl r)
      then obtain e ctx' where r: "update_one U I L A err update ctx = Inl (e, ctx')" by (cases r) auto
      have st': "st' = (ctx', False)" using step r st Op_Update True by simp
      show ?thesis
        using update_one_Inl [OF I U r] inv
        by (fastforce simp: st st' server_inv_def labels_agree_def)
    next
      case (Inr r)
      then obtain ctx' o' where r: "update_one U I L A err update ctx = Inr (ctx', o')" by (cases r) auto
      have st': "st' = (ctx', True)" using step r st Op_Update True by simp
      have ok: "bt_ok (ctx_sensors ctx)" "named (opened_logs ctx)" and upd: "bt_ok update"
        using inv st op Op_Update names by (simp_all add: server_inv_def)
      note eff = update_one_Inr [OF I L U ok(2,1) upd r]
      have "labels_agree U I ctx'"
        unfolding labels_agree_def
      proof (intro allI impI)
        fix u s assume s: "bt_get (ctx_sensors ctx') u = Some s"
        show "\<exists>e. ctx_ids I ctx' (as_u128 U u) = Some e \<and> s_label s = entry_label e"
        proof (cases "bt_get (ctx_sensors ctx) u")
          case None
          then obtain state where "bt_get update u = Some state" and sl: "s_label s = None"
            using s eff by (auto split: option.splits)
          then have "u \<in> set (bt_keys update)" by (simp add: bt_get_Some_key)
          moreover have "ctx_ids I ctx (as_u128 U u) = None"
            using inv None st True by (auto simp: server_inv_def all_loaded_def)
          ultimately show ?thesis using eff sl by (simp add: IdDbEntry_default_def)
        next
          case (Some s0)
          then obtain e where e: "ctx_ids I ctx (as_u128 U u) = Some e" "s_label s0 = entry_label e"
            using inv st by (auto simp: server_inv_def labels_agree_def)
          have "s_label s = s_label s0" using s eff Some by (auto split: option.splits)
          then show ?thesis using eff e by simp
        qed
      qed
      moreover have "all_loaded U I ctx'"
        using eff inv st True bt_get_None [of update]
        by (auto simp: server_inv_def all_loaded_def split: option.splits if_splits)
      ultimately show ?thesis
        using eff inv by (simp add: st st' server_inv_def)
    qed
  qed
qed

section \<open>The initial state\<close>

lemma load_sensors_Inr:
  assumes I: "id_table_ok I" and "load_sensors U I txn (List.map Inr us) sensors = Inr sensors'"
    and "bt_ok sensors"
  shows "bt_ok sensors' \<and>
         (\<forall>u. bt_get sensors' u =
            (if u \<in> set us
             then Some \<lparr>s_label = Option.bind (ids I txn (as_u128 U u)) entry_label, s_state = Unconnected\<rparr>
             else bt_get sensors u))"
  using assms(2,3)
proof (induction us arbitrary: sensors)
  case (Cons u us)
  then obtain entry where get: "get_addr U I txn u = Inr entry"
    and rest: "load_sensors U I txn (List.map Inr us)
      (bt_insert u \<lparr>s_label = Option.bind entry entry_label, s_state = Unconnected\<rparr> sensors) = Inr sensors'"
    by (auto simp: result_iff)
  have "bt_ok (bt_insert u \<lparr>s_label = Option.bind entry entry_label, s_state = Unconnected\<rparr> sensors)"
    using Cons.prems(2) by (rule bt_ok_insert)
  from Cons.IH [OF rest this] get_addr_Inr [OF I get] Cons.prems(2) show ?case
    by (simp add: bt_get_insert)
qed simp

lemma load_sensors_all_Inr:
  "load_sensors U I txn it sensors = Inr sensors' \<Longrightarrow> \<exists>us. it = List.map Inr us"
proof (induction it arbitrary: sensors)
  case (Cons res it)
  then obtain u where "res = Inr u" and "\<exists>us. it = List.map Inr us"
    by (auto simp: result_iff)
  then show ?case by (metis list.simps(9))
qed simp

lemma Context_create_Inr:
  assumes I: "id_table_ok I" and U: "uuid_ok U"
    and create: "Context_create U I err (Db_open U I de oe ce re env) = Inr ctx"
  shows "server_inv U I (opened_logs ctx) (ctx, True) \<and> named (opened_logs ctx) \<and>
         db_env (ctx_db ctx) = env \<and>
         (\<forall>k. bt_get (opened_logs ctx) k = (if k \<in> known I env then Some (table_name k) else None))"
proof -
  obtain d it sensors where d: "Db_open U I de oe ce re env = Inr d"
    and it: "known_addrs U I (db_env d) = Inr it"
    and load: "load_sensors U I (db_env d) it [] = Inr sensors"
    and ctx: "ctx = \<lparr>ctx_sensors = sensors, ctx_db = d\<rparr>"
    using create by (auto simp: Context_create_def read_txn_def result_iff)
  note open_ok = Db_open_Inr [OF I U d]
  obtain us where us: "it = List.map Inr us" using load_sensors_all_Inr [OF load] by blast
  then have "collect_results it = Inr us" by (simp add: collect_results_Inr)
  from arg_cong [OF known_addrs_Inr [OF I U it this], of set]
  have known: "as_u128 U ` set us = known I env" using open_ok by (simp add: known_def)
  have all: "u \<in> set us \<longleftrightarrow> ids I env (as_u128 U u) \<noteq> None" for u
    using known known_ids [of _ I env] as_u128_eq [OF U] by (metis (no_types, lifting) imageE imageI)
  have get: "bt_get sensors u = (if u \<in> set us
      then Some \<lparr>s_label = Option.bind (ids I env (as_u128 U u)) entry_label, s_state = Unconnected\<rparr>
      else None)" and ok: "bt_ok sensors" for u
    using load_sensors_Inr [OF I, of U "db_env d" us "[]" sensors] load us open_ok
    by (auto simp: bt.get_empty)
  have "server_inv U I (opened_logs ctx) (ctx, True)"
    using ok open_ok all
    by (auto simp: server_inv_def labels_agree_def all_loaded_def get ctx split: if_splits)
  then show ?thesis using open_ok by (simp add: ctx named_def db_ok_def)
qed

section \<open>Overviews\<close>

lemma overview_fields_Inr:
  assumes I: "id_table_ok I" and "overview_fields U I A txn sensors = Inr r"
    and "\<forall>(u, s) \<in> set sensors. \<exists>e. ids I txn (as_u128 U u) = Some e \<and> s_label s = entry_label e"
  shows "r = create_overview_response U A sensors"
  using assms(2,3)
proof (induction sensors arbitrary: r)
  case Nil
  then show ?case by (simp add: create_overview_response_def)
next
  case (Cons us sensors)
  obtain u s where us: "us = (u, s)" by force
  then obtain entry r' where get: "get_addr U I txn u = Inr entry"
    and rest: "overview_fields U I A txn sensors = Inr r'"
    and r: "r = \<lparr>of_id = Some (uuid_to_proto U u),
        of_overview = Some \<lparr>so_label = map_option Label (Option.bind entry entry_label),
          so_values = overview_values A (s_state s)\<rparr>\<rparr> # r'"
    using Cons.prems(1) by (auto simp: Let_def result_iff)
  have "Option.bind entry entry_label = s_label s"
    using get_addr_Inr [OF I get] Cons.prems(2) us by auto
  then show ?case
    using Cons.IH [OF rest] Cons.prems(2) r us by (simp add: create_overview_response_def)
qed

lemma overview_agrees:
  assumes I: "id_table_ok I" and "server_inv U I logs (ctx, updating)"
    and "overview U I A err ctx = Inr r"
  shows "r = create_overview_response U A (ctx_sensors ctx)"
proof -
  have "overview_fields U I A (db_env (ctx_db ctx)) (ctx_sensors ctx) = Inr r"
    using assms(3) by (auto simp: overview_def status_of_def read_txn_def result_iff)
  moreover have "\<forall>(u, s) \<in> set (ctx_sensors ctx).
      \<exists>e. ctx_ids I ctx (as_u128 U u) = Some e \<and> s_label s = entry_label e"
    using assms(2) by (auto simp: server_inv_def labels_agree_def bt_get_mem)
  ultimately show ?thesis using overview_fields_Inr [OF I] by blast
qed

text \<open>What a step broadcasts is the overview of the state it leaves.\<close>

lemma server_step_sent:
  assumes I: "id_table_ok I" and U: "uuid_ok U"
    and step: "server_step U I L A st op = Inr (st', sent)"
  shows "(sent = [] \<and> ctx_sensors (fst st') = ctx_sensors (fst st)) \<or>
         sent = [create_overview_response U A (ctx_sensors (fst st'))]"
proof (cases op)
  case (Op_Label err req)
  then show ?thesis
    using step
    by (cases st; cases "change_label U I A err req (fst st)")
       (auto simp: change_label_def label_memory_def modify_sensors_def Let_def result_iff)
next
  case (Op_Update err update)
  obtain ctx updating where st: "st = (ctx, updating)" by force
  show ?thesis
  proof (cases "updating \<and> isl (update_one U I L A err update ctx)")
    case True
    then obtain e ctx' where r: "update_one U I L A err update ctx = Inl (e, ctx')"
      by (auto simp: isl_def)
    then show ?thesis using step True st Op_Update update_one_Inl [OF I U r] by auto
  next
    case False
    then show ?thesis
      using step st Op_Update
      by (cases "update_one U I L A err update ctx")
         (auto simp: update_one_def update_memory_def modify_sensors_def Let_def result_iff
           split: if_splits)
  qed
qed

lemma server_run_sent:
  assumes I: "id_table_ok I" and U: "uuid_ok U"
    and "run_steps (server_step U I L A) st ops = Inr (st', sent)"
  shows "if sent = [] then ctx_sensors (fst st') = ctx_sensors (fst st)
         else last sent = create_overview_response U A (ctx_sensors (fst st'))"
  using assms(3)
proof (induction ops arbitrary: st sent)
  case (Cons op ops)
  then obtain st1 sent1 sent2 where one: "server_step U I L A st op = Inr (st1, sent1)"
    and rest: "run_steps (server_step U I L A) st1 ops = Inr (st', sent2)"
    and sent: "sent = sent1 @ sent2"
    by (auto simp: result_iff)
  show ?case
    using server_step_sent [OF I U one] Cons.IH [OF rest] sent by (auto split: if_splits)
qed simp

text \<open>The library's contracts, and the run of the machine as an instance of the stepping interface.\<close>

definition server_libs ::
    "('u, 'q) uuid_lib \<Rightarrow> ('e, 'i) id_table \<Rightarrow> ('e, 'l) log_table \<Rightarrow> bool" where
  "server_libs U I L \<longleftrightarrow> uuid_ok U \<and> id_table_ok I \<and> log_table_ok L"

interpretation server: stepping
    "server_step U I L A"
    "\<lambda>st. server_libs U I L \<and> named logs \<and> server_inv U I logs st" op_ok
  for U :: "('u::linorder, 'q) uuid_lib" and I :: "('e, 'i) id_table" and L :: "('e, 'l) log_table"
    and A :: "('t, 'c, 'p, 'h) api" and logs
  by unfold_locales (auto simp: server_libs_def intro: server_inv_step)

section \<open>What is logged\<close>

text \<open>
  Between two contexts of a run with some operations: tables no sensor has opened are as they
  were, and every new row of a sensor's log is a report of this sensor in one of the updates.
\<close>

definition logs_reports ::
    "('u::linorder, 'q) uuid_lib \<Rightarrow> ('e, 'l) log_table \<Rightarrow> ('t, 'c, 'p, 'h) api \<Rightarrow>
     ('u, ('t, 'c, 'p, 'h) sensor_values, 'e, 'q) server_op set \<Rightarrow>
     ('u, ('t, 'c, 'p, 'h) sensor_values, 'i, 'l) server_context \<Rightarrow>
     ('u, ('t, 'c, 'p, 'h) sensor_values, 'i, 'l) server_context \<Rightarrow> bool" where
  "logs_reports U L A ops ctx0 ctx \<longleftrightarrow>
     (\<forall>name. (\<forall>k. bt_get (opened_logs ctx0) k \<noteq> Some name) \<longrightarrow>
        env_logs (db_env (ctx_db ctx)) name = env_logs (db_env (ctx_db ctx0)) name) \<and>
     (\<forall>w. \<forall>row \<in> set (ctx_log U L ctx w). row \<in> set (ctx_log U L ctx0 w) \<or>
        (\<exists>err update v. Op_Update err update \<in> ops \<and> bt_get update w = Some (Connected v) \<and>
           row = (timestamp_as_u32 A (sv_timestamp v), raw_from A v)))"

lemma logs_reports_refl: "logs_reports U L A ops ctx ctx"
  by (simp add: logs_reports_def)

lemma logs_reports_same:
  assumes "logs_reports U L A ops ctx0 ctx" and "opened_logs ctx' = opened_logs ctx"
    and "env_logs (db_env (ctx_db ctx')) = env_logs (db_env (ctx_db ctx))"
  shows "logs_reports U L A ops ctx0 ctx'"
proof -
  have "ctx_log U L ctx' w = ctx_log U L ctx w" for w
    using assms(2,3) by (simp add: log_of_def split: option.split)
  then show ?thesis using assms(1,3) by (simp add: logs_reports_def)
qed

lemma logs_reports_update:
  assumes libs: "id_table_ok I" "log_table_ok L" "uuid_ok U"
    and ctx: "named (opened_logs ctx)" "bt_ok (ctx_sensors ctx)" "opened_logs ctx = opened_logs ctx0"
    and op: "bt_ok update" "Op_Update err update \<in> ops"
    and step: "update_one U I L A err update ctx = Inr (ctx', sent)"
    and old: "logs_reports U L A ops ctx0 ctx"
  shows "logs_reports U L A ops ctx0 ctx'"
proof -
  note eff = update_one_Inr [OF libs ctx(1,2) op(1) step]
  have tables: "env_logs (db_env (ctx_db ctx')) name = env_logs (db_env (ctx_db ctx)) name"
    if "\<forall>k. bt_get (opened_logs ctx0) k \<noteq> Some name" for name
    using update_one_other [OF libs(1) step, of name] ctx(3) that by simp
  have rows: "row \<in> set (ctx_log U L ctx w) \<or>
      (\<exists>err update v. Op_Update err update \<in> ops \<and> bt_get update w = Some (Connected v) \<and>
         row = (timestamp_as_u32 A (sv_timestamp v), raw_from A v))"
    if "row \<in> set (ctx_log U L ctx' w)" for row w
  proof -
    have "ctx_log U L ctx' w = ctx_log U L ctx w @
        (case (bt_get (opened_logs ctx) (as_u128 U w), bt_get update w) of
           (Some _, Some (Connected v)) \<Rightarrow> [(timestamp_as_u32 A (sv_timestamp v), raw_from A v)]
         | _ \<Rightarrow> [])"
      using eff by blast
    with that op(2) show ?thesis by (fastforce split: option.splits sensor_state.splits)
  qed
  show ?thesis
    unfolding logs_reports_def
  proof (intro conjI allI impI ballI)
    fix name assume "\<forall>k. bt_get (opened_logs ctx0) k \<noteq> Some name"
    with tables old show "env_logs (db_env (ctx_db ctx')) name = env_logs (db_env (ctx_db ctx0)) name"
      by (simp add: logs_reports_def)
  next
    fix w row assume "row \<in> set (ctx_log U L ctx' w)"
    from rows [OF this] old show "row \<in> set (ctx_log U L ctx0 w) \<or>
        (\<exists>err update v. Op_Update err update \<in> ops \<and> bt_get update w = Some (Connected v) \<and>
           row = (timestamp_as_u32 A (sv_timestamp v), raw_from A v))"
      unfolding logs_reports_def by blast
  qed
qed

lemma logs_reports_step:
  assumes libs: "server_libs U I L" and names: "named (opened_logs ctx0)"
    and inv: "server_inv U I (opened_logs ctx0) st" and old: "logs_reports U L A ops ctx0 (fst st)"
    and op: "op_ok op" "op \<in> ops" and step: "server_step U I L A st op = Inr (st', sent)"
  shows "logs_reports U L A ops ctx0 (fst st')"
proof -
  obtain ctx updating where st: "st = (ctx, updating)" by force
  have I: "id_table_ok I" and L: "log_table_ok L" and U: "uuid_ok U"
    using libs by (simp_all add: server_libs_def)
  have ctx: "opened_logs ctx = opened_logs ctx0" "bt_ok (ctx_sensors ctx)"
    and old: "logs_reports U L A ops ctx0 ctx"
    using inv old st by (simp_all add: server_inv_def)
  show ?thesis
  proof (cases op)
    case (Op_Label err req)
    show ?thesis
    proof (cases "change_label U I A err req ctx")
      case (Inr r)
      then obtain ctx' o' where r: "change_label U I A err req ctx = Inr (ctx', o')" by (cases r) auto
      then have "st' = (ctx', updating)" using step st Op_Label by simp
      then show ?thesis
        using change_label_Inr [OF I r] logs_reports_same [OF old, of ctx'] by (auto simp: Let_def)
    qed (use step st Op_Label old in auto)
  next
    case (Op_Update err update)
    show ?thesis
    proof (cases "updating \<and> \<not> isl (update_one U I L A err update ctx)")
      case True
      then obtain ctx' o' where r: "update_one U I L A err update ctx = Inr (ctx', o')"
        by (cases "update_one U I L A err update ctx") auto
      then have "st' = (ctx', True)" using step st Op_Update True by simp
      then show ?thesis
        using logs_reports_update [OF I L U _ ctx(2,1) _ _ r old] names op Op_Update ctx(1) by simp
    next
      case False
      show ?thesis
      proof (cases "updating")
        case True
        then obtain e ctx' where r: "update_one U I L A err update ctx = Inl (e, ctx')"
          using False by (auto simp: isl_def)
        then have "st' = (ctx', False)" using step st Op_Update True by simp
        then show ?thesis using update_one_Inl [OF I U r] logs_reports_same [OF old, of ctx'] by simp
      qed (use step st Op_Update old in auto)
    qed
  qed
qed

interpretation logging: stepping
    "server_step U I L A"
    "\<lambda>st. server_libs U I L \<and> named (opened_logs ctx0) \<and> server_inv U I (opened_logs ctx0) st \<and>
          logs_reports U L A ops ctx0 (fst st)"
    "\<lambda>op. op_ok op \<and> op \<in> ops"
  for U :: "('u::linorder, 'q) uuid_lib" and I :: "('e, 'i) id_table" and L :: "('e, 'l) log_table"
    and A :: "('t, 'c, 'p, 'h) api" and ctx0 ops
  by unfold_locales
     (auto simp: server_libs_def intro: server_inv_step logs_reports_step)

section \<open>Properties of the running server\<close>

lemma server_reachable:
  assumes libs: "server_libs U I L"
    and create: "Context_create U I err (Db_open U I de oe ce re env) = Inr ctx0"
    and ops: "\<forall>op \<in> set ops. op_ok op"
    and run: "run_steps (server_step U I L A) (ctx0, True) ops = Inr ((ctx, updating), sent)"
  shows "server_inv U I (opened_logs ctx0) (ctx, updating) \<and> named (opened_logs ctx) \<and>
         opened_logs ctx = opened_logs ctx0"
proof -
  have "id_table_ok I" "uuid_ok U" using libs by (simp_all add: server_libs_def)
  note start = Context_create_Inr [OF this create]
  then have inv: "server_inv U I (opened_logs ctx0) (ctx, updating)"
    using server.inv_run [of U I L "opened_logs ctx0" "(ctx0, True)" ops A "(ctx, updating)" sent]
      libs ops run by blast
  then show ?thesis using start by (simp add: server_inv_def)
qed

lemma server_logs:
  assumes libs: "server_libs U I L"
    and create: "Context_create U I err (Db_open U I de oe ce re env) = Inr ctx0"
    and ops: "\<forall>op \<in> set ops. op_ok op"
    and run: "run_steps (server_step U I L A) (ctx0, True) ops = Inr ((ctx, updating), sent)"
  shows "logs_reports U L A (set ops) ctx0 ctx"
proof -
  have "id_table_ok I" "uuid_ok U" using libs by (simp_all add: server_libs_def)
  note start = Context_create_Inr [OF this create]
  show ?thesis
    using logging.inv_run [where ops = "set ops" and ?ctx0.0 = ctx0, OF _ _ run]
      start libs ops by (simp add: logs_reports_refl)
qed

text \<open>A stored sensor, a context created from it and a label change, for the witnesses.\<close>

definition sample_env :: "((u128, id_db_entry) btree_map, (u32, raw_sensor_values) btree_map) env" where
  "sample_env = \<lparr>env_ids = [(7, \<lparr>entry_label = None\<rparr>)], env_logs = (\<lambda>_. [])\<rparr>"

definition sample_context ::
    "(u128, (u32, i16, u32, u16) sensor_values, (u128, id_db_entry) btree_map,
      (u32, raw_sensor_values) btree_map) server_context" where
  "sample_context = \<lparr>ctx_sensors = [(7, \<lparr>s_label = None, s_state = Unconnected\<rparr>)],
     ctx_db = \<lparr>db_env = sample_env, db_sensor_log = [(7, table_name 7)]\<rparr>\<rparr>"

lemma sample_create:
  "Context_create uuid_reference id_table_reference None
     (Db_open uuid_reference id_table_reference None None (\<lambda>_. None) None sample_env) = Inr sample_context"
  by (simp add: Context_create_def Db_open_def read_txn_def known_addrs_def uuid_reference_def
      id_table_reference_def sample_env_def sample_context_def get_addr_def bt_get_def in_order_def
      bt_ok_def)

lemma sample_libs: "server_libs uuid_reference id_table_reference log_table_reference"
  by (simp add: server_libs_def uuid_reference_ok id_table_reference_ok log_table_reference_ok)

definition sample_relabel :: "(u128, (u32, i16, u32, u16) sensor_values, unit, u128) server_op" where
  "sample_relabel = Op_Label (\<lambda>_. None) \<lparr>clr_id = Some 7, clr_label = Some (Label ''roof'')\<rparr>"

lemma sample_relabel_run:
  "\<exists>ctx sent r. run_steps (server_step uuid_reference id_table_reference log_table_reference api_reference)
       (sample_context, True) [sample_relabel] = Inr ((ctx, True), [sent]) \<and>
     overview uuid_reference id_table_reference api_reference None ctx = Inr r \<and>
     List.map (\<lambda>f. map_option so_label (of_overview f)) r = [Some (Some (Label ''roof''))]"
  by (simp add: sample_relabel_def sample_context_def sample_env_def change_label_def get_id_def
      uuid_reference_def id_table_reference_def label_check_def status_of_def read_txn_def
      get_addr_def bt_get_def in_order_def bt_ok_def label_store_def write_txn_def put_addr_def
      commit_txn_def label_memory_def modify_sensors_def set_label_def Let_def overview_def)

text \<open>
  C8: Clients see one picture of the sensors. However the update task and label changes follow
  one another after the start, with whatever database errors, the overview a client asks for,
  whose labels are read from the database, is the overview of the sensors in memory, and so
  the last one that was broadcast.
\<close>

theorem overview_is_broadcast:
  assumes "server_libs U I L"
    and "Context_create U I err (Db_open U I de oe ce re env) = Inr ctx0"
    and "\<forall>op \<in> set ops. op_ok op"
    and "run_steps (server_step U I L A) (ctx0, True) ops = Inr ((ctx, updating), sent)"
    and "overview U I A read_err ctx = Inr r"
  shows "r = create_overview_response U A (ctx_sensors ctx) \<and> (sent \<noteq> [] \<longrightarrow> r = last sent)"
proof -
  have I: "id_table_ok I" and U: "uuid_ok U" using assms(1) by (simp_all add: server_libs_def)
  have "r = create_overview_response U A (ctx_sensors ctx)"
    using server_reachable [OF assms(1-4)] overview_agrees [OF I _ assms(5)] by blast
  then show ?thesis using server_run_sent [OF I U assms(4)] by (auto split: if_splits)
qed

theorem overview_is_broadcast_witness:
  "\<exists>ctx sent. run_steps (server_step uuid_reference id_table_reference log_table_reference api_reference)
       (sample_context, True) [sample_relabel] = Inr ((ctx, True), [sent]) \<and>
     List.map (\<lambda>f. map_option so_label (of_overview f)) sent = [Some (Some (Label ''roof''))]"
proof -
  obtain ctx sent r where run: "run_steps (server_step uuid_reference id_table_reference log_table_reference
        api_reference) (sample_context, True) [sample_relabel] = Inr ((ctx, True), [sent])"
    and r: "overview uuid_reference id_table_reference api_reference None ctx = Inr r"
    and l: "List.map (\<lambda>f. map_option so_label (of_overview f)) r = [Some (Some (Label ''roof''))]"
    using sample_relabel_run by (elim exE conjE) (rule that)
  have "\<forall>op \<in> set [sample_relabel]. op_ok op" by (simp add: sample_relabel_def)
  from overview_is_broadcast [OF sample_libs sample_create this run r] have "r = last [sent]"
    by (metis list.distinct(1))
  then have "r = sent" by simp
  with l run show ?thesis by (intro exI [of _ ctx] exI [of _ sent] conjI) simp_all
qed

text \<open>
  C9: An update that succeeds reaches the database, the logs and the memory: every sensor of it is
  in memory with its new state and its old label, and stored from now on (with no label when
  it is new); the value of a connected sensor whose log was opened at the start is appended to
  its log with its timestamp; other sensors, labels and logs are as before; and the overview
  that is broadcast is that of the new memory.
\<close>

theorem update_effect:
  assumes "server_libs U I L" and "named logs" and "server_inv U I logs (ctx, True)"
    and "bt_ok update" and "update_one U I L A err update ctx = Inr (ctx', sent)"
  shows "(\<forall>u. bt_get (ctx_sensors ctx') u =
            (case bt_get update u of
               Some state \<Rightarrow> Some \<lparr>s_label = Option.bind (bt_get (ctx_sensors ctx) u) s_label, s_state = state\<rparr>
             | None \<Rightarrow> bt_get (ctx_sensors ctx) u)) \<and>
         (\<forall>u. ctx_ids I ctx' (as_u128 U u) =
            (if u \<in> set (bt_keys update) \<and> ctx_ids I ctx (as_u128 U u) = None
             then Some IdDbEntry_default else ctx_ids I ctx (as_u128 U u))) \<and>
         (\<forall>u. ctx_log U L ctx' u = ctx_log U L ctx u @
            (case (bt_get logs (as_u128 U u), bt_get update u) of
               (Some _, Some (Connected v)) \<Rightarrow> [(timestamp_as_u32 A (sv_timestamp v), raw_from A v)]
             | _ \<Rightarrow> [])) \<and>
         sent = create_overview_response U A (ctx_sensors ctx')"
proof -
  have I: "id_table_ok I" and L: "log_table_ok L" and U: "uuid_ok U"
    using assms(1) by (simp_all add: server_libs_def)
  have logs: "logs = opened_logs ctx" and "bt_ok (ctx_sensors ctx)" and "named (opened_logs ctx)"
    using assms(2,3) by (simp_all add: server_inv_def)
  from update_one_Inr [OF I L U this(3,2) assms(4,5)] show ?thesis
    unfolding logs by blast
qed

definition sample_report_values :: "u32 \<Rightarrow> (u32, i16, u32, u16) sensor_values" where
  "sample_report_values t =
     \<lparr>sv_timestamp = t, sv_temperature = 2150, sv_pressure = 1000000, sv_humidity = 4000\<rparr>"

lemmas context_defs = sample_context_def sample_env_def uuid_reference_def id_table_reference_def
  log_table_reference_def

lemmas update_defs = update_one_def update_find_def read_txn_def get_addr_def update_store_def
  write_txn_def put_addr_def commit_txn_def update_log_def log_txn_def log_value_def log_commit_def
  update_memory_def modify_sensors_def set_state_def bt_get_def bt_keys_def in_order_def bt_ok_def Let_def

lemma sample_inv: "server_inv uuid_reference id_table_reference [(7, table_name 7)] (sample_context, True)"
  by (simp add: server_inv_def labels_agree_def all_loaded_def context_defs ids_def bt_get_def bt_ok_def
      in_order_def)

lemma sample_named: "named [(7, table_name 7)]"
  by (simp add: named_def bt_get_def)

theorem update_effect_witness:
  "\<exists>ctx sent. update_one uuid_reference id_table_reference log_table_reference api_reference (\<lambda>_. None)
       [(7, Connected (sample_report_values 100)), (9, Unconnected)] sample_context = Inr (ctx, sent) \<and>
     ctx_log uuid_reference log_table_reference ctx 7 =
       [(100, raw_from api_reference (sample_report_values 100))] \<and>
     ctx_ids id_table_reference ctx 9 = Some IdDbEntry_default"
proof -
  let ?upd = "[(7 :: u128, Connected (sample_report_values 100)), (9, Unconnected)]"
  obtain ctx sent where one: "update_one uuid_reference id_table_reference log_table_reference
      api_reference (\<lambda>_. None) ?upd sample_context = Inr (ctx, sent)"
    by (simp add: update_defs context_defs)
  have "bt_ok ?upd" by (simp add: bt_ok_def)
  note eff = update_effect [OF sample_libs sample_named sample_inv this one]
  have "ctx_log uuid_reference log_table_reference ctx 7 =
      ctx_log uuid_reference log_table_reference sample_context 7 @
      [(100, raw_from api_reference (sample_report_values 100))]"
    using eff by (simp add: bt_get_def uuid_reference_def sample_report_values_def api_reference_def)
  moreover have "ctx_log uuid_reference log_table_reference sample_context 7 = []"
    by (simp add: log_of_def context_defs bt_get_def in_order_def)
  moreover have "ctx_ids id_table_reference ctx 9 = Some IdDbEntry_default"
  proof -
    have "ctx_ids id_table_reference sample_context 9 = None"
      by (simp add: ids_def context_defs in_order_def bt_ok_def)
    then show ?thesis using eff by (simp add: uuid_reference_def bt_keys_def)
  qed
  ultimately show ?thesis using one by auto
qed

text \<open>
  C14: A sensor that was not known when the server started is never logged, whatever updates and
  label changes follow: only the log tables of the sensors known then are ever written, what is
  new in them are reports of their own sensors, and a valid request for the data of the other
  sensor is answered with "Sensor never existed".
\<close>

theorem new_sensor_has_no_data:
  assumes "server_libs U I L"
    and "Context_create U I err (Db_open U I de oe ce re env) = Inr ctx0"
    and "\<forall>op \<in> set ops. op_ok op"
    and "run_steps (server_step U I L A) (ctx0, True) ops = Inr ((ctx, updating), sent)"
    and "as_u128 U (uuid_from_proto U q) \<notin> known I env"
  shows "(\<forall>name. name \<notin> table_name ` known I env \<longrightarrow>
            env_logs (db_env (ctx_db ctx)) name = env_logs env name) \<and>
         (\<forall>w. \<forall>row \<in> set (ctx_log U L ctx w). row \<in> set (ctx_log U L ctx0 w) \<or>
            (\<exists>err update v. Op_Update err update \<in> set ops \<and> bt_get update w = Some (Connected v) \<and>
               row = (timestamp_as_u32 A (sv_timestamp v), raw_from A v))) \<and>
         table_name (as_u128 U (uuid_from_proto U q)) \<notin> table_name ` known I env \<and>
         (\<forall>start end. get_sensor_data U L A None \<lparr>sdr_id = Some q, sdr_start = start, sdr_end = end\<rparr> ctx =
            Inr (Inl (if end < start then Status_Invalid_Argument ''Invalid time range''
                      else Status_Not_Found ''Sensor never existed'')))"
proof -
  have I: "id_table_ok I" and U: "uuid_ok U" using assms(1) by (simp_all add: server_libs_def)
  note start = Context_create_Inr [OF I U assms(2)]
  have "bt_get (opened_logs ctx) (as_u128 U (uuid_from_proto U q)) = None"
    using server_reachable [OF assms(1-4)] start assms(5) by simp
  then have "\<forall>start end. get_sensor_data U L A None \<lparr>sdr_id = Some q, sdr_start = start, sdr_end = end\<rparr> ctx =
      Inr (Inl (if end < start then Status_Invalid_Argument ''Invalid time range''
                else Status_Not_Found ''Sensor never existed''))"
    by (simp add: get_sensor_data_def status_of_def read_txn_def get_log_def)
  moreover have "\<forall>k. bt_get (opened_logs ctx0) k \<noteq> Some name"
    if "name \<notin> table_name ` known I env" for name
    using that start by auto
  moreover have "table_name (as_u128 U (uuid_from_proto U q)) \<notin> table_name ` known I env"
    using assms(5) table_name_inj by auto
  ultimately show ?thesis
    using server_logs [OF assms(1-4)] start unfolding logs_reports_def by auto
qed

theorem new_sensor_has_no_data_witness:
  "\<exists>ctx sent. run_steps (server_step uuid_reference id_table_reference log_table_reference api_reference)
       (sample_context, True) [Op_Update (\<lambda>_. None) [(9, Connected (sample_report_values 100))]] =
         Inr ((ctx, True), [sent]) \<and>
     bt_get (ctx_sensors ctx) 9 \<noteq> None \<and>
     env_logs (db_env (ctx_db ctx)) (table_name 9) = [] \<and>
     get_sensor_data uuid_reference log_table_reference api_reference None
       \<lparr>sdr_id = Some 9, sdr_start = 0, sdr_end = 200\<rparr> ctx =
       Inr (Inl (Status_Not_Found ''Sensor never existed''))"
proof -
  let ?ops = "[Op_Update (\<lambda>_. None) [(9, Connected (sample_report_values 100))]]
    :: (u128, (u32, i16, u32, u16) sensor_values, unit, u128) server_op list"
  obtain ctx sent where run: "run_steps (server_step uuid_reference id_table_reference log_table_reference
      api_reference) (sample_context, True) ?ops = Inr ((ctx, True), [sent])"
    and shown: "bt_get (ctx_sensors ctx) 9 \<noteq> None"
    by (simp add: update_defs context_defs)
  have ops: "\<forall>op \<in> set ?ops. op_ok op" by (simp add: bt_ok_def)
  have new: "as_u128 uuid_reference (uuid_from_proto uuid_reference 9) \<notin> known id_table_reference sample_env"
    by (simp add: known_def context_defs in_order_def bt_ok_def)
  note never = new_sensor_has_no_data [OF sample_libs sample_create ops run new]
  have "env_logs (db_env (ctx_db ctx)) (table_name 9) = env_logs sample_env (table_name 9)"
    using never [THEN conjunct1] never [THEN conjunct2, THEN conjunct2, THEN conjunct1]
    by (simp add: uuid_reference_def)
  moreover have "get_sensor_data uuid_reference log_table_reference api_reference None
       \<lparr>sdr_id = Some 9, sdr_start = 0, sdr_end = 200\<rparr> ctx =
       Inr (Inl (Status_Not_Found ''Sensor never existed''))"
    using never by simp
  ultimately show ?thesis
    using run shown by (intro exI [of _ ctx] exI [of _ sent] conjI) (simp_all add: sample_env_def)
qed

text \<open>
  C15: A report that is not newer than the last logged one of its sensor ends the update task: the
  update fails, no log and no sensor in memory changes, and none of the updates that follow is
  handled.
\<close>

theorem stale_report_ends_updates:
  fixes U :: "('u::linorder, 'q) uuid_lib"
  assumes "server_libs U I L" and "named (opened_logs ctx)" and "bt_ok (ctx_sensors ctx)"
    and "bt_ok update" and "bt_get update u = Some (Connected v)"
    and "\<exists>e \<in> set (ctx_log U L ctx u). timestamp_as_u32 A (sv_timestamp v) \<le> fst e"
  shows "\<exists>e ctx'. ctx_sensors ctx' = ctx_sensors ctx \<and> (\<forall>w. ctx_log U L ctx' w = ctx_log U L ctx w) \<and>
           (\<forall>rest. update_task U I L A ((err, update) # rest) ctx =
              (([] :: 'q overview_response list), Inl (e, ctx')))"
proof -
  have I: "id_table_ok I" and L: "log_table_ok L" and U: "uuid_ok U"
    using assms(1) by (simp_all add: server_libs_def)
  have "isl (update_one U I L A err update ctx)"
  proof (rule ccontr)
    assume "\<not> isl (update_one U I L A err update ctx)"
    then obtain ctx' and sent where r: "update_one U I L A err update ctx = Inr (ctx', sent)"
      by (metis isl_def old.sum.exhaust surj_pair)
    obtain name where name: "bt_get (opened_logs ctx) (as_u128 U u) = Some name"
      using assms(6) by (cases "bt_get (opened_logs ctx) (as_u128 U u)") (auto simp: log_of_def)
    let ?t = "timestamp_as_u32 A (sv_timestamp v)"
    have "ctx_log U L ctx' u = ctx_log U L ctx u @ [(?t, raw_from A v)]"
      and same: "opened_logs ctx' = opened_logs ctx"
      using update_one_Inr [OF I L U assms(2-4) r] assms(5) name by auto
    moreover have "sorted_wrt (<) (List.map fst (ctx_log U L ctx' u))"
      using L name same by (simp add: log_of_def log_table_ok_def)
    ultimately have "\<forall>e \<in> set (ctx_log U L ctx u). fst e < ?t"
      by (simp add: sorted_wrt_append)
    then show False using assms(6) by auto
  qed
  then obtain e ctx' where r: "update_one U I L A err update ctx = Inl (e, ctx')"
    by (auto simp: isl_def)
  note same = update_one_Inl [OF I U r]
  have "ctx_log U L ctx' w = ctx_log U L ctx w" for w
    using same by (simp add: log_of_def split: option.split)
  then show ?thesis
    using same r by (intro exI [of _ e] exI [of _ ctx']) (simp add: stop_with_def)
qed

definition logged_context ::
    "(u128, (u32, i16, u32, u16) sensor_values, (u128, id_db_entry) btree_map,
      (u32, raw_sensor_values) btree_map) server_context" where
  "logged_context = sample_context\<lparr>ctx_db := \<lparr>db_env = sample_env\<lparr>env_logs :=
       (\<lambda>_. [(100, raw_from api_reference (sample_report_values 100))])\<rparr>,
     db_sensor_log = [(7, table_name 7)]\<rparr>\<rparr>"

theorem stale_report_ends_updates_witness:
  "\<exists>e ctx. update_task uuid_reference id_table_reference log_table_reference api_reference
       [(\<lambda>_. None, [(7, Connected (sample_report_values 100))]),
        (\<lambda>_. None, [(7, Connected (sample_report_values 101))])] logged_context = ([], Inl (e, ctx))"
proof -
  let ?upd = "[(7 :: u128, Connected (sample_report_values 100))]"
  have "named (opened_logs logged_context)" "bt_ok (ctx_sensors logged_context)" "bt_ok ?upd"
    "bt_get ?upd 7 = Some (Connected (sample_report_values 100))"
    by (simp_all add: logged_context_def sample_named sample_context_def bt_ok_def bt_get_def)
  moreover have "\<exists>e \<in> set (ctx_log uuid_reference log_table_reference logged_context 7).
      timestamp_as_u32 api_reference (sv_timestamp (sample_report_values 100)) \<le> fst e"
    by (simp add: logged_context_def log_of_def context_defs bt_get_def in_order_def bt_ok_def
        sample_report_values_def api_reference_def)
  ultimately obtain e ctx' where "\<forall>rest. update_task uuid_reference id_table_reference log_table_reference
      api_reference ((\<lambda>_. None, ?upd) # rest) logged_context = ([], Inl (e, ctx'))"
    using stale_report_ends_updates [OF sample_libs, of logged_context ?upd 7
        "sample_report_values 100" api_reference "\<lambda>_. None"] by blast
  then show ?thesis by blast
qed

text \<open>
  C16: A label change can be lost to the clients. When a label change of a new sensor runs between
  the moment the update task stored the sensor and the moment it puts it in memory, both
  succeed, and the label is stored but the sensor is in memory, and in what is broadcast,
  without it.
\<close>

theorem label_change_race:
  assumes "server_libs U I L" and "named logs" and "server_inv U I logs (ctx0, True)" and "bt_ok update"
    and "update_find U I err update ctx0 = Inr new" and "update_store U I err new ctx0 = Inr ctx1"
    and "clr_id req = Some q" and "uuid_from_proto U q \<in> set new"
    and "change_label U I A lerr req ctx1 = Inr (ctx2, sent2)"
    and "update_log U L A err update ctx2 = Inr ctx3"
    and "update_memory U A update ctx3 = (ctx4, sent4)"
  shows "map_option s_label (bt_get (ctx_sensors ctx4) (uuid_from_proto U q)) = Some None \<and>
         ctx_ids I ctx4 (as_u128 U (uuid_from_proto U q)) =
           Some \<lparr>entry_label = map_option label_name (clr_label req)\<rparr> \<and>
         sent4 = create_overview_response U A (ctx_sensors ctx4)"
proof -
  let ?uid = "uuid_from_proto U q" and ?new = "map_option label_name (clr_label req)"
  have I: "id_table_ok I" and L: "log_table_ok L" and U: "uuid_ok U"
    using assms(1) by (simp_all add: server_libs_def)
  have uid: "?uid \<in> set (bt_keys update)" "ctx_ids I ctx0 (as_u128 U ?uid) = None"
    using update_find_Inr [OF I assms(5)] assms(8) by auto
  have absent: "bt_get (ctx_sensors ctx0) ?uid = None"
    using assms(3) uid(2) unfolding server_inv_def labels_agree_def
    by (metis fst_conv not_None_eq)
  note c1 = update_store_Inr [OF I assms(6)]
  have c2: "ctx_ids I ctx2 = (ctx_ids I ctx1)(as_u128 U ?uid \<mapsto> \<lparr>entry_label = ?new\<rparr>)"
    "opened_logs ctx2 = opened_logs ctx1" "ctx_sensors ctx2 = set_label ?uid ?new (ctx_sensors ctx1)"
    using change_label_Inr [OF I assms(9)] assms(7) by (auto simp: Let_def)
  have ok: "bt_ok (ctx_sensors ctx1)" and logs: "named (opened_logs ctx2)"
    using assms(2,3) c1 c2 by (simp_all add: server_inv_def)
  have absent2: "bt_get (ctx_sensors ctx2) ?uid = None" "bt_ok (ctx_sensors ctx2)"
    using set_label_get [OF ok, of ?uid ?new] c1 c2 absent by simp_all
  note c3 = update_log_Inr [OF L U logs assms(10)]
  have ids3: "ctx_ids I ctx3 = ctx_ids I ctx2" using c3 by (simp add: ids_def)
  have ctx4: "ctx4 = ctx3\<lparr>ctx_sensors := fold (\<lambda>(addr, state). set_state addr state) update (ctx_sensors ctx2)\<rparr>"
    and sent4: "sent4 = create_overview_response U A (ctx_sensors ctx4)"
    using assms(11) c3 by (auto simp: update_memory_def modify_sensors_def Let_def)
  have d: "distinct (List.map fst update)" using bt_ok_distinct [OF assms(4)] by (simp add: bt_keys_def)
  obtain state where "map_of update ?uid = Some state"
    using uid(1) bt_get_None [of update ?uid] by (auto simp: bt_get_def)
  then have "bt_get (ctx_sensors ctx4) ?uid = Some \<lparr>s_label = None, s_state = state\<rparr>"
    using set_states_get [OF absent2(2) d] absent2(1) ctx4 by simp
  then show ?thesis using ctx4 ids3 c2 sent4 by simp
qed

theorem label_change_race_witness:
  "\<exists>ctx1 ctx2 ctx3 sent2.
     update_store uuid_reference id_table_reference (\<lambda>_. None) [9] sample_context = Inr ctx1 \<and>
     change_label uuid_reference id_table_reference api_reference (\<lambda>_. None)
       \<lparr>clr_id = Some 9, clr_label = Some (Label ''roof'')\<rparr> ctx1 = Inr (ctx2, sent2) \<and>
     update_log uuid_reference log_table_reference api_reference (\<lambda>_. None) [(9, Unconnected)] ctx2 = Inr ctx3 \<and>
     map_option s_label (bt_get (ctx_sensors (fst
       (update_memory uuid_reference api_reference [(9, Unconnected)] ctx3))) 9) = Some None"
proof -
  let ?upd = "[(9 :: u128, Unconnected :: (u32, i16, u32, u16) sensor_values sensor_state)]"
  let ?req = "\<lparr>clr_id = Some (9 :: u128), clr_label = Some (Label ''roof'')\<rparr>"
  have find: "update_find uuid_reference id_table_reference (\<lambda>_. None) ?upd sample_context = Inr [9]"
    by (simp add: update_defs context_defs)
  obtain ctx1 where store: "update_store uuid_reference id_table_reference (\<lambda>_. None) [9] sample_context = Inr ctx1"
    and ctx1: "ctx1 = sample_context\<lparr>ctx_db := \<lparr>db_env = sample_env\<lparr>env_ids :=
        [(7, \<lparr>entry_label = None\<rparr>), (9, \<lparr>entry_label = None\<rparr>)]\<rparr>, db_sensor_log = [(7, table_name 7)]\<rparr>\<rparr>"
    by (simp add: update_defs context_defs IdDbEntry_default_def)
  obtain ctx2 sent2 where label: "change_label uuid_reference id_table_reference api_reference (\<lambda>_. None)
       ?req ctx1 = Inr (ctx2, sent2)"
    by (simp add: ctx1 change_label_def get_id_def label_check_def status_of_def label_store_def
        label_memory_def set_label_def update_defs context_defs)
  obtain ctx3 where log: "update_log uuid_reference log_table_reference api_reference (\<lambda>_. None) ?upd ctx2 = Inr ctx3"
    by (simp add: update_defs)
  have "bt_ok ?upd" "clr_id ?req = Some 9" "uuid_from_proto uuid_reference 9 \<in> set [9]"
    by (simp_all add: bt_ok_def uuid_reference_def)
  note race = label_change_race [OF sample_libs sample_named sample_inv this(1) find store this(2,3) label log]
  have "map_option s_label (bt_get (ctx_sensors (fst
       (update_memory uuid_reference api_reference ?upd ctx3))) 9) = Some None"
    using race [of "fst (update_memory uuid_reference api_reference ?upd ctx3)"
        "snd (update_memory uuid_reference api_reference ?upd ctx3)"]
    by (simp add: uuid_reference_def)
  with store label log show ?thesis
    by (intro exI [of _ ctx1] exI [of _ ctx2] exI [of _ ctx3] exI [of _ sent2] conjI) simp_all
qed

end
