(* ===== verification/Backup.thy ===== *)
theory Backup
  imports Server
begin

text \<open>
  Reading the logs through the gRPC handlers: what a data request returns, and the completeness
  and termination of a backup.
\<close>

section \<open>Chunks of a log\<close>

lemma succ_le_iff: "k \<noteq> - 1 \<Longrightarrow> k + 1 \<le> x \<longleftrightarrow> k < (x :: 'a::len word)"
  using unat_succ [of k] by (simp add: word_le_nat_alt word_less_nat_alt Suc_le_eq)

lemma next_chunk:
  fixes es :: "(u32 \<times> 'a) list"
  assumes sorted: "sorted_wrt (<) (List.map fst es)"
    and p: "p = take n (List.filter (in_range lo hi) es)" and "p \<noteq> []"
  shows "fst (last p) \<noteq> - 1"
    and "List.filter (in_range (fst (last p) + 1) hi) es = drop n (List.filter (in_range lo hi) es)"
proof -
  let ?ys = "List.filter (in_range lo hi) es" and ?k = "fst (last p)"
  have ys: "?ys = p @ drop n ?ys" using p by simp
  have "last p \<in> set ?ys" using \<open>p \<noteq> []\<close> p by (metis in_set_takeD last_in_set)
  then have k: "lo \<le> ?k" "?k < hi" by (auto simp: in_range_def)
  then show k1: "?k \<noteq> - 1" by (metis word_n1_ge leD)
  have "sorted_wrt (<) (List.map fst ?ys)"
    using sorted by (simp add: sorted_wrt_map sorted_wrt_filter)
  then have s: "sorted_wrt (<) (List.map fst (p @ drop n ?ys))" using ys by simp
  have "in_range (?k + 1) hi e \<longleftrightarrow> in_range lo hi e \<and> ?k < fst e" for e :: "u32 \<times> 'a"
    using k(1) succ_le_iff [OF k1, of "fst e"] by (auto simp: in_range_def)
  then have "List.filter (in_range (?k + 1) hi) es = List.filter (\<lambda>e. ?k < fst e) ?ys"
    by (simp add: conj_commute cong: filter_cong)
  also have "\<dots> = List.filter (\<lambda>e. ?k < fst e) p @ List.filter (\<lambda>e. ?k < fst e) (drop n ?ys)"
    by (subst ys) simp
  also have "List.filter (\<lambda>e. ?k < fst e) p = []"
  proof -
    obtain q where q: "p = q @ [last p]" using \<open>p \<noteq> []\<close> by (metis append_butlast_last_id)
    have "sorted_wrt (<) (List.map fst (q @ [last p]))"
      using s q by (metis map_append sorted_wrt_append)
    then have "\<forall>e \<in> set q. fst e < ?k" by (simp add: sorted_wrt_append)
    then have "\<forall>e \<in> set (q @ [last p]). \<not> ?k < fst e" by auto
    then show ?thesis using q by (metis filter_False)
  qed
  also have "List.filter (\<lambda>e. ?k < fst e) (drop n ?ys) = drop n ?ys"
    using s \<open>p \<noteq> []\<close> by (auto simp: sorted_wrt_append filter_id_conv)
  finally show "List.filter (in_range (?k + 1) hi) es = drop n ?ys" by simp
qed

lemma get_log_reads:
  assumes L: "log_table_ok L" and reads: "\<exists>xs. log_range L (env_logs txn name)
      (timestamp_as_u32 A start) (timestamp_as_u32 A till) = Inr (List.map Inr xs)"
    and name: "bt_get sensor_log (as_u128 U uid) = Some name"
  shows "get_log U L A sensor_log txn uid start till limit =
           Inr (Some (columns (selected (timestamp_as_u32 A start) (timestamp_as_u32 A till) limit
             (log_entries L (env_logs txn name)))))"
proof -
  obtain xs where "log_range L (env_logs txn name) (timestamp_as_u32 A start) (timestamp_as_u32 A till) =
      Inr (List.map Inr xs)"
    using reads by blast
  then obtain r where r: "get_log U L A sensor_log txn uid start till limit = Inr r"
    using name by (simp add: get_log_def Let_def take_map push_rows_map [of _ "[]", simplified])
  then show ?thesis using get_log_Inr [OF L r] name by (simp add: log_of_def)
qed

lemma sd_time_columns [simp]: "sd_time (columns rows) = List.map fst rows"
  by (simp add: columns_def)

lemma backup_log_complete:
  assumes L: "log_table_ok L" and A: "api_ok A"
    and reads: "\<forall>d lo hi. \<exists>xs. log_range L d lo hi = Inr (List.map Inr xs)"
    and name: "bt_get sensor_log (as_u128 U uid) = Some name"
  shows "\<exists>parts. backup_log U L A sensor_log txn (\<lambda>_. True) uid (timestamp_from A lo) =
             Some (List.map (\<lambda>rows. (uuid_to_proto U uid, columns rows)) parts, Inr True) \<and>
           concat parts = List.filter (in_range lo (- 1)) (log_entries L (env_logs txn name)) \<and>
           (\<forall>rows \<in> set parts. rows \<noteq> [] \<and> length rows \<le> CHUNKSIZE)"
proof (induction "length (List.filter (in_range lo (- 1)) (log_entries L (env_logs txn name)))"
    arbitrary: lo rule: less_induct)
  case less
  let ?es = "log_entries L (env_logs txn name)"
  let ?ys = "List.filter (in_range lo (- 1)) ?es"
  let ?p = "take CHUNKSIZE ?ys"
  have ts: "timestamp_as_u32 A (timestamp_from A n) = n" for n
    using A by (simp add: api_ok_def)
  have get: "get_log U L A sensor_log txn uid (timestamp_from A lo) (timestamp_from A (- 1)) (Some CHUNKSIZE) =
      Inr (Some (columns ?p))"
    using get_log_reads [OF L _ name, where txn = txn and A = A and start = "timestamp_from A lo"
        and till = "timestamp_from A (- 1)" and limit = "Some CHUNKSIZE"] reads
    by (simp add: ts selected_def Let_def)
  have step: "backup_log U L A sensor_log txn (\<lambda>_. True) uid (timestamp_from A lo) =
      (if ?p = [] then Some ([], Inr True)
       else case checked_succ (fst (last ?p)) of
           None \<Rightarrow> Some ([], Inl (Expect_Failed ''Timestamp overflow''))
         | Some next \<Rightarrow>
             Option.bind (backup_log U L A sensor_log txn (\<lambda>_. True) uid (timestamp_from A next))
               (\<lambda>(chunks, r). Some ((uuid_to_proto U uid, columns ?p) # chunks, r)))"
    by (subst backup_log.simps) (simp add: get last_map split: option.split)
  show ?case
  proof (cases "?p = []")
    case True
    then have "?ys = []" by (simp add: CHUNKSIZE_def)
    with step True show ?thesis by (intro exI [of _ "[]"]) simp
  next
    case False
    have sorted: "sorted_wrt (<) (List.map fst ?es)" using L by (simp add: log_table_ok_def)
    let ?next = "fst (last ?p) + 1"
    note nc = next_chunk [OF sorted refl False]
    have rest: "List.filter (in_range ?next (- 1)) ?es = drop CHUNKSIZE ?ys" by (rule nc(2))
    have "length (List.filter (in_range ?next (- 1)) ?es) < length ?ys"
      unfolding rest using False by (simp add: CHUNKSIZE_def)
    from less [OF this] obtain parts where
      parts: "backup_log U L A sensor_log txn (\<lambda>_. True) uid (timestamp_from A ?next) =
          Some (List.map (\<lambda>rows. (uuid_to_proto U uid, columns rows)) parts, Inr True)"
      and cat: "concat parts = drop CHUNKSIZE ?ys"
      and sizes: "\<forall>rows \<in> set parts. rows \<noteq> [] \<and> length rows \<le> CHUNKSIZE"
      unfolding rest by blast
    have "checked_succ (fst (last ?p)) = Some ?next" using nc(1) by (simp add: checked_succ_Some)
    then show ?thesis
      using step False parts cat sizes by (intro exI [of _ "?p # parts"]) simp
  qed
qed

text \<open>The loop over a log ends, whatever the client does and whichever reads fail.\<close>

lemma backup_log_ends:
  assumes L: "log_table_ok L" and A: "api_ok A"
  shows "\<exists>chunks r. backup_log U L A sensor_log txn send_ok uid (timestamp_from A lo) = Some (chunks, r) \<and>
           r \<noteq> Inl (Expect_Failed ''Timestamp overflow'')"
proof (induction "length (List.filter (in_range lo (- 1)) (log_of U L sensor_log txn uid))"
    arbitrary: lo rule: less_induct)
  case less
  let ?es = "log_of U L sensor_log txn uid"
  let ?ys = "List.filter (in_range lo (- 1)) ?es"
  let ?p = "take CHUNKSIZE ?ys"
  have ts: "timestamp_as_u32 A (timestamp_from A n) = n" for n
    using A by (simp add: api_ok_def)
  show ?case
  proof (cases "get_log U L A sensor_log txn uid (timestamp_from A lo) (timestamp_from A (- 1)) (Some CHUNKSIZE)")
    case (Inl e)
    then show ?thesis by (subst backup_log.simps) simp
  next
    case (Inr r)
    note r = get_log_Inr [OF L Inr]
    show ?thesis
    proof (cases "r = None \<or> ?p = []")
      case True
      then show ?thesis
        using Inr r by (subst backup_log.simps)
          (auto simp: ts selected_def Let_def split: option.splits)
    next
      case False
      then have resp: "r = Some (columns ?p)"
        using r by (auto simp: ts selected_def Let_def split: option.splits)
      have sorted: "sorted_wrt (<) (List.map fst ?es)"
        using L by (auto simp: log_of_def log_table_ok_def split: option.split)
      let ?next = "fst (last ?p) + 1"
      have "?p \<noteq> []" using False by blast
      note nc = next_chunk [OF sorted refl this]
      have "length (List.filter (in_range ?next (- 1)) ?es) < length ?ys"
        unfolding nc(2) using \<open>?p \<noteq> []\<close> by (simp add: CHUNKSIZE_def)
      from less [OF this] obtain chunks r' where
        rest: "backup_log U L A sensor_log txn send_ok uid (timestamp_from A ?next) = Some (chunks, r')"
        and r': "r' \<noteq> Inl (Expect_Failed ''Timestamp overflow'')"
        by blast
      have succ: "checked_succ (fst (last ?p)) = Some ?next" using nc(1) by (simp add: checked_succ_Some)
      have times: "sd_time (columns ?p) \<noteq> []" "last (sd_time (columns ?p)) = fst (last ?p)"
        using \<open>?p \<noteq> []\<close> by (simp_all only: sd_time_columns last_map map_is_Nil_conv not_False_eq_True)
      have "backup_log U L A sensor_log txn send_ok uid (timestamp_from A lo) =
          (if send_ok (uuid_to_proto U uid, columns ?p)
           then Some ((uuid_to_proto U uid, columns ?p) # chunks, r') else Some ([], Inr False))"
        by (subst backup_log.simps)
          (simp only: Inr resp times succ rest sum.case option.case if_False Option.bind.simps prod.case)
      then show ?thesis using r' by simp
    qed
  qed
qed

lemma backup_sensors_ends:
  assumes L: "log_table_ok L" and A: "api_ok A"
  shows "\<exists>chunks r. backup_sensors U L A sensor_log txn send_ok it = Some (chunks, r) \<and>
           r \<noteq> Inl (Expect_Failed ''Timestamp overflow'')"
proof (induction it)
  case (Cons res it)
  then obtain cs' r' where it: "backup_sensors U L A sensor_log txn send_ok it = Some (cs', r')"
    "r' \<noteq> Inl (Expect_Failed ''Timestamp overflow'')"
    by blast
  show ?case
  proof (cases res)
    case (Inl e)
    then show ?thesis using it by simp
  next
    case (Inr uid)
    obtain cs r where "backup_log U L A sensor_log txn send_ok uid (timestamp_from A 0) = Some (cs, r)"
      "r \<noteq> Inl (Expect_Failed ''Timestamp overflow'')"
      using backup_log_ends [OF L A, of U sensor_log txn send_ok uid 0] by blast
    then show ?thesis using it Inr by simp
  qed
qed simp

lemma backup_sensors_complete:
  assumes L: "log_table_ok L" and A: "api_ok A"
    and reads: "\<forall>d lo hi. \<exists>xs. log_range L d lo hi = Inr (List.map Inr xs)" and "distinct us"
  shows "\<exists>parts. backup_sensors U L A sensor_log txn (\<lambda>_. True) (List.map Inr us) =
             Some (List.map (\<lambda>(uid, rows). (uuid_to_proto U uid, columns rows)) parts, Inr True) \<and>
           (\<forall>uid. concat (List.map snd (List.filter (\<lambda>p. fst p = uid) parts)) =
              (if uid \<in> set us
               then List.filter (in_range 0 (- 1)) (log_of U L sensor_log txn uid) else [])) \<and>
           (\<forall>p \<in> set parts. snd p \<noteq> [] \<and> length (snd p) \<le> CHUNKSIZE)"
  using \<open>distinct us\<close>
proof (induction us)
  case (Cons u us)
  then obtain parts where
    it: "backup_sensors U L A sensor_log txn (\<lambda>_. True) (List.map Inr us) =
        Some (List.map (\<lambda>(uid, rows). (uuid_to_proto U uid, columns rows)) parts, Inr True)"
    and cat: "\<forall>uid. concat (List.map snd (List.filter (\<lambda>p. fst p = uid) parts)) =
        (if uid \<in> set us
         then List.filter (in_range 0 (- 1)) (log_of U L sensor_log txn uid) else [])"
    and sizes: "\<forall>p \<in> set parts. snd p \<noteq> [] \<and> length (snd p) \<le> CHUNKSIZE"
    by auto
  obtain mine where
    mine: "backup_log U L A sensor_log txn (\<lambda>_. True) u (timestamp_from A 0) =
        Some (List.map (\<lambda>rows. (uuid_to_proto U u, columns rows)) mine, Inr True)"
    and cat': "concat mine = List.filter (in_range 0 (- 1)) (log_of U L sensor_log txn u)"
    and sizes': "\<forall>rows \<in> set mine. rows \<noteq> [] \<and> length rows \<le> CHUNKSIZE"
  proof (cases "bt_get sensor_log (as_u128 U u)")
    case None
    then have "backup_log U L A sensor_log txn (\<lambda>_. True) u (timestamp_from A 0) = Some ([], Inr True)"
      by (subst backup_log.simps) (simp add: get_log_def)
    with None show ?thesis using that [of "[]"] by (simp add: log_of_def)
  next
    case (Some name)
    then show ?thesis
      using backup_log_complete [OF L A reads Some, where lo = 0 and txn = txn] that
      by (auto simp: log_of_def)
  qed
  let ?parts = "List.map (Pair u) mine @ parts"
  have own: "List.filter (\<lambda>p. fst p = uid) (List.map (Pair u) mine) =
      (if uid = u then List.map (Pair u) mine else [])" for uid
    by (simp add: filter_map comp_def)
  have "concat (List.map snd (List.filter (\<lambda>p. fst p = uid) ?parts)) =
      (if uid \<in> set (u # us)
       then List.filter (in_range 0 (- 1)) (log_of U L sensor_log txn uid) else [])" for uid
    using cat cat' Cons.prems own [of uid] by (simp add: comp_def split: if_splits)
  moreover have "backup_sensors U L A sensor_log txn (\<lambda>_. True) (List.map Inr (u # us)) =
      Some (List.map (\<lambda>(uid, rows). (uuid_to_proto U uid, columns rows)) ?parts, Inr True)"
    using it mine by (simp add: comp_def)
  moreover have "\<forall>p \<in> set ?parts. snd p \<noteq> [] \<and> length (snd p) \<le> CHUNKSIZE"
    using sizes sizes' by auto
  ultimately show ?case by blast
qed simp

section \<open>Properties of the data handlers\<close>

text \<open>
  C13: A data request is answered with exactly the stored rows of the sensor, oldest first, from
  the start of the requested range and before its end, one column per field; a successful
  answer names a sensor whose log is open and a range that does not end before it starts.
\<close>

theorem sensor_data_is_log:
  assumes "log_table_ok L" and "api_ok A"
    and "get_sensor_data U L A err req ctx = Inr (Inr data)"
  shows "\<exists>q name. sdr_id req = Some q \<and> sdr_start req \<le> sdr_end req \<and>
           bt_get (opened_logs ctx) (as_u128 U (uuid_from_proto U q)) = Some name \<and>
           data = columns (List.filter (in_range (sdr_start req) (sdr_end req))
                    (ctx_log U L ctx (uuid_from_proto U q)))"
proof -
  obtain q r where q: "sdr_id req = Some q" "sdr_start req \<le> sdr_end req"
    and get: "get_log U L A (opened_logs ctx) (db_env (ctx_db ctx)) (uuid_from_proto U q)
        (timestamp_from A (sdr_start req)) (timestamp_from A (sdr_end req)) None = Inr (Some r)"
    and data: "data = r"
    using assms(3)
    by (auto simp: get_sensor_data_def status_of_def read_txn_def result_iff not_less
        split: if_splits sum.splits option.splits)
  have "timestamp_as_u32 A (timestamp_from A n) = n" for n
    using assms(2) by (simp add: api_ok_def)
  then show ?thesis
    using get_log_Inr [OF assms(1) get] q data
    by (cases "bt_get (opened_logs ctx) (as_u128 U (uuid_from_proto U q))")
       (auto simp: selected_def Let_def)
qed

theorem sensor_data_is_log_witness:
  "\<exists>data. get_sensor_data uuid_reference log_table_reference api_reference None
       \<lparr>sdr_id = Some 7, sdr_start = 50, sdr_end = 200\<rparr> logged_context = Inr (Inr data) \<and>
     data = columns [(100, raw_from api_reference (sample_report_values 100))]"
proof -
  let ?req = "\<lparr>sdr_id = Some (7 :: u128), sdr_start = 50, sdr_end = 200\<rparr>"
  obtain data where data: "get_sensor_data uuid_reference log_table_reference api_reference None
      ?req logged_context = Inr (Inr data)"
    by (simp add: get_sensor_data_def status_of_def read_txn_def get_log_def logged_context_def
        context_defs bt_get_def Let_def api_reference_def in_order_def bt_ok_def in_range_def
        usize_max_def)
  have "data = columns (List.filter (in_range 50 200) (ctx_log uuid_reference log_table_reference logged_context 7))"
    using sensor_data_is_log [OF log_table_reference_ok api_reference_ok data] by (auto simp: uuid_reference_def)
  then have "data = columns [(100, raw_from api_reference (sample_report_values 100))]"
    by (simp add: logged_context_def log_of_def context_defs bt_get_def in_order_def bt_ok_def in_range_def)
  with data show ?thesis by blast
qed

text \<open>
  C11: A backup that can read the database and whose client takes every chunk is complete: it ends
  without a panic, every chunk has between one and 8192 rows, and the chunks of a stored sensor,
  one after another, are its whole log in order, but for a row with the largest timestamp.
\<close>

theorem backup_is_complete:
  assumes "server_libs U I L" and "api_ok A" and "reads_work I L"
  shows "\<exists>parts. backup U I L A None (\<lambda>_. True) ctx =
             Some (List.map (\<lambda>(uid, rows). (uuid_to_proto U uid, columns rows)) parts, Inr True) \<and>
           (\<forall>uid. concat (List.map snd (List.filter (\<lambda>p. fst p = uid) parts)) =
              (if as_u128 U uid \<in> known I (db_env (ctx_db ctx))
               then List.filter (\<lambda>row. fst row \<noteq> - 1) (ctx_log U L ctx uid) else [])) \<and>
           (\<forall>p \<in> set parts. 1 \<le> length (snd p) \<and> length (snd p) \<le> 8192)"
proof -
  have I: "id_table_ok I" and L: "log_table_ok L" and U: "uuid_ok U"
    using assms(1) by (simp_all add: server_libs_def)
  let ?txn = "db_env (ctx_db ctx)"
  obtain xs where xs: "id_iter I (env_ids ?txn) = Inr (List.map Inr xs)"
    using assms(3) unfolding reads_work_def by metis
  let ?us = "List.map (\<lambda>e. from_u128 U (fst e)) xs"
  have it: "known_addrs U I ?txn = Inr (List.map Inr ?us)"
    by (simp add: known_addrs_def xs comp_def split_beta)
  have "collect_results (List.map Inr ?us) = Inr ?us" by (simp add: collect_results_Inr)
  note us = known_addrs_Inr [OF I U it this]
  have "distinct (List.map (as_u128 U) ?us)"
    unfolding us using I by (simp add: id_table_ok_def)
  then have d: "distinct ?us" by (simp only: distinct_map)
  have known: "uid \<in> set ?us \<longleftrightarrow> as_u128 U uid \<in> known I ?txn" for uid
  proof -
    have "as_u128 U uid \<in> as_u128 U ` set ?us \<longleftrightarrow> as_u128 U uid \<in> known I ?txn"
      using arg_cong [OF us, of set] by (simp only: known_def set_map [symmetric])
    moreover have "inj (as_u128 U)" using as_u128_eq [OF U] by (simp add: inj_def)
    ultimately show ?thesis by (simp only: inj_image_mem_iff)
  qed
  have range: "in_range 0 (- 1) = (\<lambda>row :: u32 \<times> raw_sensor_values. fst row \<noteq> - 1)"
    by (auto simp: in_range_def fun_eq_iff word_less_1 less_le)
  have reads: "\<forall>d lo hi. \<exists>xs. log_range L d lo hi = Inr (List.map Inr xs)"
    using assms(3) by (simp add: reads_work_def)
  have "backup U I L A None (\<lambda>_. True) ctx =
      backup_sensors U L A (opened_logs ctx) ?txn (\<lambda>_. True) (List.map Inr ?us)"
    by (simp add: backup_def read_txn_def it)
  with backup_sensors_complete [OF L assms(2) reads d, of U "opened_logs ctx" ?txn]
  show ?thesis unfolding known range CHUNKSIZE_def by (simp add: Suc_le_eq)
qed

theorem backup_is_complete_witness:
  "\<exists>chunks. backup uuid_reference id_table_reference log_table_reference api_reference None
     (\<lambda>_. True) logged_context = Some (chunks, Inr True)"
  using backup_is_complete [OF sample_libs api_reference_ok reference_reads_work, of logged_context] by blast

text \<open>
  C12: A backup always ends: whichever reads fail and whenever the client stops taking chunks, the
  handler's loop returns, and the next start of a chunk never overflows.
\<close>

theorem backup_ends:
  assumes "log_table_ok L" and "api_ok A"
  shows "\<exists>chunks r. backup U I L A err send_ok ctx = Some (chunks, r) \<and>
           r \<noteq> Inl (Expect_Failed ''Timestamp overflow'')"
  using backup_sensors_ends [OF assms, of U "opened_logs ctx" "db_env (ctx_db ctx)" send_ok]
  by (auto simp: backup_def read_txn_def unless_error_def split: sum.split option.split)

theorem backup_ends_witness:
  "\<exists>chunks r. backup uuid_reference id_table_reference log_table_reference api_reference None
     (\<lambda>_. False) logged_context = Some (chunks, r)"
  using backup_ends [OF log_table_reference_ok api_reference_ok] by blast

end
