(* ===== verification/Mqtt_Codec.thy ===== *)
theory Mqtt_Codec
  imports Prelude
begin

text \<open>
  The frame decoder and encoder of the MQTT client, \<open>tokio-mqtt/src/codec.rs\<close>. The packet
  formats of the \<open>mqtt\<close> crate are fields of a record; what its documentation says of a
  frame (one byte of type and flags, a remaining length of one to four bytes, then that many
  bytes) is \<open>is_frame\<close>.
\<close>

section \<open>The codec\<close>

record ('p, 'e) mqtt_lib =
  remaining_length :: "u8 list \<Rightarrow> 'e + u32"
  packet_decode :: "u8 list \<Rightarrow> 'e + 'p"
  packet_length :: "'p \<Rightarrow> u32"
  packet_encode :: "'p \<Rightarrow> u8 list \<times> 'e option"

datatype 'e codec_error = Codec_Other 'e | Encode_Failed string | Invalid_Data string

datatype mqtt_decoder = Need_Fixed_Header | Need_Bytes nat

definition MqttDecoder_default :: mqtt_decoder where
  "MqttDecoder_default = Need_Fixed_Header"

type_synonym ('p, 'e) decoded =
  "panic + ('e codec_error + 'p option) \<times> mqtt_decoder \<times> u8 list"

text \<open>\<open>split_to\<close> panics when the buffer is too short; a decoding error keeps the state.\<close>

definition consume_full_packet ::
    "('p, 'e) mqtt_lib \<Rightarrow> mqtt_decoder \<Rightarrow> u8 list \<Rightarrow> nat \<Rightarrow> ('p, 'e) decoded" where
  "consume_full_packet M self src nbytes =
     (if nbytes + 1 \<le> length src then
        (let packet = take (nbytes + 1) src; src = drop (nbytes + 1) src
         in case packet_decode M packet of
              Inl e \<Rightarrow> Inr (Inl (Codec_Other e), self, src)
            | Inr ret \<Rightarrow> Inr (Inr (Some ret), Need_Fixed_Header, src))
      else Inl Index_Out_Of_Bounds)"

definition packet_bytes :: "u32 \<Rightarrow> nat option" where
  "packet_bytes len =
     (if unat len \<le> usize_max \<and> unat len + 1 \<le> usize_max then Some (unat len + 1) else None)"

definition mqtt_decode ::
    "('p, 'e) mqtt_lib \<Rightarrow> mqtt_decoder \<Rightarrow> u8 list \<Rightarrow> ('p, 'e) decoded" where
  "mqtt_decode M self src =
     (case self of
        Need_Fixed_Header \<Rightarrow>
          (if length src > 0 then
             (case remaining_length M src of
                Inl e \<Rightarrow> Inr (Inl (Codec_Other e), self, src)
              | Inr len \<Rightarrow>
                  (case packet_bytes len of
                     None \<Rightarrow> Inr (Inl (Invalid_Data ''Packet too big for this system''), self, src)
                   | Some nbytes \<Rightarrow>
                       if length src \<ge> nbytes then consume_full_packet M self src nbytes
                       else Inr (Inr None, Need_Bytes nbytes, src)))
           else Inr (Inr None, self, src))
      | Need_Bytes nbytes \<Rightarrow>
          (if nbytes \<ge> length src then consume_full_packet M self src nbytes
           else Inr (Inr None, self, src)))"

text \<open>
  The encoder with the buffer it leaves. \<open>packet_encode\<close> is what the packet writes before it is
  done or fails: a failing one may have written a part of the packet, which stays.
\<close>

definition mqtt_encode ::
    "('p, 'e) mqtt_lib \<Rightarrow> 'p \<Rightarrow> u8 list \<Rightarrow> ('e codec_error + unit) \<times> u8 list" where
  "mqtt_encode M item dst =
     (if unat (packet_length M item) \<le> usize_max
      then (let (written, failed) = packet_encode M item; dst = dst @ written
            in case failed of
                 Some e \<Rightarrow> (Inl (Encode_Failed ''Failed encoding package''), dst)
               | None \<Rightarrow> (Inr (), dst))
      else (Inl (Invalid_Data ''Packet too big for this system''), dst))"

section \<open>Reading a stream\<close>

text \<open>
  How a framed reader calls the decoder: again and again while it yields packets. The first
  result that is not a packet ends the calls until more bytes arrive. After an error the reader
  is not followed further: the decoder has either dropped bytes or would fail again on the
  same ones.
\<close>

lemma consume_shorter:
  "consume_full_packet M self src nbytes = Inr (Inr (Some p), self', src') \<Longrightarrow> length src' < length src"
  by (auto simp: consume_full_packet_def Let_def split: if_splits sum.splits)

lemma mqtt_decode_shorter:
  "mqtt_decode M self src = Inr (Inr (Some p), self', src') \<Longrightarrow> length src' < length src"
  by (auto simp: mqtt_decode_def dest: consume_shorter
      split: mqtt_decoder.splits if_splits sum.splits option.splits)

function drain ::
    "('p, 'e) mqtt_lib \<Rightarrow> mqtt_decoder \<Rightarrow> u8 list \<Rightarrow>
     'p list \<times> (panic + 'e codec_error option \<times> mqtt_decoder \<times> u8 list)" where
  "drain M self src =
     (case mqtt_decode M self src of
        Inl p \<Rightarrow> ([], Inl p)
      | Inr (Inl e, self, src) \<Rightarrow> ([], Inr (Some e, self, src))
      | Inr (Inr None, self, src) \<Rightarrow> ([], Inr (None, self, src))
      | Inr (Inr (Some p), self, src) \<Rightarrow> apfst (\<lambda>ps. p # ps) (drain M self src))"
  by auto

termination
  by (relation "measure (\<lambda>(M, self, src). length src)") (auto dest!: mqtt_decode_shorter)

declare drain.simps [simp del]

text \<open>
  The stream as the chunks it arrives in: the packets of all of them, until the decoder
  panics or fails.
\<close>

fun feed ::
    "('p, 'e) mqtt_lib \<Rightarrow> mqtt_decoder \<Rightarrow> u8 list \<Rightarrow> u8 list list \<Rightarrow> 'p list" where
  "feed M self src [] = []"
| "feed M self src (chunk # chunks) =
     (case drain M self (src @ chunk) of
        (ps, Inr (None, self, src)) \<Rightarrow> ps @ feed M self src chunks
      | (ps, _) \<Rightarrow> ps)"

section \<open>Frames\<close>

text \<open>
  The bytes of one packet with a length field of \<open>k\<close> bytes: the header can be read from
  what holds it whole, whatever follows, and not from less, and the bytes are read as the
  packet. Nothing is said of what the crate does with a part of them.
\<close>

definition is_frame :: "('p, 'e) mqtt_lib \<Rightarrow> nat \<Rightarrow> 'p \<Rightarrow> u8 list \<Rightarrow> bool" where
  "is_frame M k p bs \<longleftrightarrow>
     1 \<le> k \<and> k \<le> 4 \<and> 1 + k \<le> length bs \<and> length bs - (1 + k) < 2 ^ 28 \<and>
     (\<forall>rest. remaining_length M (bs @ rest) = Inr (of_nat (length bs - (1 + k)))) \<and>
     (\<forall>n < length bs. 1 + k \<le> n \<longrightarrow>
        remaining_length M (take n bs) = Inr (of_nat (length bs - (1 + k)))) \<and>
     (\<forall>n < 1 + k. isl (remaining_length M (take n bs))) \<and>
     packet_decode M bs = Inr p"

text \<open>A concrete instance: a packet is its frame, the length field is read as documented.\<close>

fun varint :: "nat \<Rightarrow> u8 list \<Rightarrow> (nat \<times> nat) option" where
  "varint 0 bs = None"
| "varint (Suc n) [] = None"
| "varint (Suc n) (b # bs) =
     (if b < 128 then Some (unat b, 1)
      else map_option (\<lambda>(v, k). (unat b - 128 + 128 * v, k + 1)) (varint n bs))"

definition mqtt_reference :: "(u8 list, unit) mqtt_lib" where
  "mqtt_reference = \<lparr>
     remaining_length = (\<lambda>bs. case varint 4 (tl bs) of None \<Rightarrow> Inl () | Some (v, k) \<Rightarrow> Inr (of_nat v)),
     packet_decode = (\<lambda>bs. case varint 4 (tl bs) of
        None \<Rightarrow> Inl ()
      | Some (v, k) \<Rightarrow> if bs \<noteq> [] \<and> length bs = 1 + k + v then Inr bs else Inl ()),
     packet_length = (\<lambda>p. of_nat (length p)), packet_encode = (\<lambda>p. (p, None))\<rparr>"

lemma packet_bytes_frame: "n < 2 ^ 28 \<Longrightarrow> packet_bytes (of_nat n) = Some (n + 1)"
  by (simp add: packet_bytes_def usize_max_def unat_of_nat take_bit_nat_eq_self)

lemma decode_frame:
  assumes "is_frame M k p bs"
  shows "mqtt_decode M Need_Fixed_Header (bs @ rest) =
           consume_full_packet M Need_Fixed_Header (bs @ rest) (length bs - k)"
proof -
  have "packet_bytes (of_nat (length bs - (1 + k))) = Some (length bs - k)"
    using assms packet_bytes_frame [of "length bs - (1 + k)"] by (auto simp: is_frame_def)
  then show ?thesis
    using assms by (auto simp: mqtt_decode_def is_frame_def)
qed

lemma decode_short_frame:
  assumes "is_frame M 1 p bs"
  shows "mqtt_decode M Need_Fixed_Header (bs @ rest) = Inr (Inr (Some p), Need_Fixed_Header, rest)"
proof -
  have "2 \<le> length bs" "packet_decode M bs = Inr p" using assms by (auto simp: is_frame_def)
  then show ?thesis
    unfolding decode_frame [OF assms] by (simp add: consume_full_packet_def)
qed

lemma decode_empty: "mqtt_decode M Need_Fixed_Header [] = Inr (Inr None, Need_Fixed_Header, [])"
  by (simp add: mqtt_decode_def)

text \<open>A decoder that waits for bytes never yields a packet again.\<close>

lemma decode_waiting:
  "mqtt_decode M (Need_Bytes n) src =
     (if length src \<le> n then Inl Index_Out_Of_Bounds else Inr (Inr None, Need_Bytes n, src))"
  by (simp add: mqtt_decode_def consume_full_packet_def)

lemma feed_waiting: "feed M (Need_Bytes n) src chunks = []"
proof (induction chunks arbitrary: src)
  case (Cons chunk chunks)
  then show ?case by (simp add: drain.simps [of M "Need_Bytes n"] decode_waiting)
qed simp

lemma decode_partial:
  assumes "is_frame M 1 p bs" and "0 < n" and "n < length bs"
  shows "(\<exists>m. mqtt_decode M Need_Fixed_Header (take n bs) = Inr (Inr None, Need_Bytes m, take n bs)) \<or>
         (\<exists>e. mqtt_decode M Need_Fixed_Header (take n bs) = Inr (Inl e, Need_Fixed_Header, take n bs)) \<or>
         mqtt_decode M Need_Fixed_Header (take n bs) = Inl Index_Out_Of_Bounds"
proof (cases "n < 2")
  case True
  then have "isl (remaining_length M (take n bs))" using assms by (auto simp: is_frame_def)
  then show ?thesis using assms(2,3) by (auto simp: isl_def mqtt_decode_def)
next
  case False
  have "packet_bytes (of_nat (length bs - 2)) = Some (length bs - 1)"
    using assms packet_bytes_frame [of "length bs - 2"] by (auto simp: is_frame_def)
  moreover have "remaining_length M (take n bs) = Inr (of_nat (length bs - 2))"
    using assms False by (auto simp: is_frame_def)
  ultimately show ?thesis
    using assms(2,3) by (auto simp: mqtt_decode_def consume_full_packet_def)
qed

section \<open>Properties of the codec\<close>

lemma varint_short: "b < 128 \<Longrightarrow> varint 4 (b # bs) = Some (unat b, 1)"
  by (simp add: numeral_eq_Suc)

lemma varint_empty: "varint 4 [] = None"
  by (simp add: numeral_eq_Suc)

lemma concrete_frame: "is_frame mqtt_reference 1 [0x30, 2, 7, 8] [0x30, 2, 7, 8]"
  by (simp add: is_frame_def mqtt_reference_def All_less_Suc varint_short varint_empty)

text \<open>
  C25: Packets of fewer than 128 bytes after the header that arrive whole are read as they were
  sent: from a buffer that holds any number of such frames the decoder yields exactly their
  packets, in order, and leaves an empty buffer and its initial state.
\<close>

theorem short_frames_decoded:
  assumes "\<forall>(p, bs) \<in> set frames. is_frame M 1 p bs"
  shows "drain M MqttDecoder_default (concat (List.map snd frames)) =
           (List.map fst frames, Inr (None, MqttDecoder_default, []))"
  using assms
proof (induction frames)
  case Nil
  then show ?case by (simp add: drain.simps [of M _ "[]"] MqttDecoder_default_def decode_empty)
next
  case (Cons f frames)
  obtain p bs where f: "f = (p, bs)" by force
  with Cons.prems have "is_frame M 1 p bs" by simp
  from decode_short_frame [OF this] Cons f show ?case
    by (subst drain.simps) (simp add: MqttDecoder_default_def)
qed

theorem short_frames_decoded_witness:
  "drain mqtt_reference MqttDecoder_default [0x30, 2, 7, 8, 0x30, 2, 7, 8] =
     ([[0x30, 2, 7, 8], [0x30, 2, 7, 8]], Inr (None, MqttDecoder_default, []))"
  using short_frames_decoded [of "[([0x30, 2, 7, 8], [0x30, 2, 7, 8]), ([0x30, 2, 7, 8], [0x30, 2, 7, 8])]"
      mqtt_reference] concrete_frame
  by simp

text \<open>
  C26: A packet that arrives in two pieces stops the client: when the first bytes that arrive are a
  proper part of a short frame, the decoder yields no packet from them nor from anything that
  arrives later.
\<close>

theorem split_frame_stops_decoder:
  assumes "is_frame M 1 p bs" and "0 < n" and "n < length bs"
  shows "feed M MqttDecoder_default [] (take n bs # chunks) = []"
  using decode_partial [OF assms]
  by (auto simp: MqttDecoder_default_def drain.simps [of M Need_Fixed_Header] feed_waiting)

theorem split_frame_stops_decoder_witness:
  "feed mqtt_reference MqttDecoder_default [] ([0x30, 2, 7] # [8] # [0x30, 2, 7, 8] # []) = []"
  using split_frame_stops_decoder [OF concrete_frame, of 3 "[[8], [0x30, 2, 7, 8]]"] by simp

definition long_frame :: "u8 list" where
  "long_frame = 0x30 # 0x80 # 1 # replicate 128 0"

lemma four: "(4 :: nat) = Suc (Suc (Suc (Suc 0)))"
  by simp

lemma varint_long: "varint 4 (0x80 # 1 # bs) = Some (128, 2)"
  by (simp only: four varint.simps) simp

lemma varint_cut: "varint 4 [0x80] = None"
  by (simp only: four varint.simps) simp

lemma concrete_long_frame: "is_frame mqtt_reference 2 long_frame long_frame"
proof -
  have cut: "take n long_frame = 0x30 # 0x80 # 1 # take (n - 3) (replicate 128 0)" if "3 \<le> n" for n
  proof -
    obtain m where "n = Suc (Suc (Suc m))"
      using \<open>3 \<le> n\<close> by (metis Suc_le_D numeral_3_eq_3 Suc_le_mono)
    then show ?thesis by (simp add: long_frame_def)
  qed
  have len: "length long_frame = 131" by (simp add: long_frame_def)
  have header: "remaining_length mqtt_reference (long_frame @ rest) = Inr 128" for rest
    by (simp add: mqtt_reference_def long_frame_def varint_long)
  have part: "remaining_length mqtt_reference (take n long_frame) = Inr 128" if "3 \<le> n" for n
    unfolding cut [OF that] by (simp add: mqtt_reference_def varint_long)
  have short: "isl (remaining_length mqtt_reference (take n long_frame))" if "n < 3" for n
  proof -
    have "n = 0 \<or> n = 1 \<or> n = 2" using that by auto
    then show ?thesis
      by (auto simp: mqtt_reference_def long_frame_def varint_empty varint_cut numeral_2_eq_2)
  qed
  have whole: "packet_decode mqtt_reference long_frame = Inr long_frame"
    by (simp add: mqtt_reference_def long_frame_def varint_long)
  show ?thesis
    unfolding is_frame_def len
    using header part short whole by (auto simp: not_le [symmetric])
qed

text \<open>
  C27: A packet of 128 bytes or more after the header is cut short: even when all of it has
  arrived, the decoder takes its length field of \<open>k\<close> bytes for one byte and hands over the packet
  without its last \<open>k - 1\<close> bytes. They stay in front of the buffer, where they are read as the
  beginning of the next packet, or are what is left when the cut packet is an error.
\<close>

theorem long_frame_cut_short:
  assumes "is_frame M k p bs" and "2 \<le> k"
  shows "\<exists>packet tail. bs = packet @ tail \<and> length tail = k - 1 \<and> tail \<noteq> [] \<and>
           drain M MqttDecoder_default (bs @ rest) =
             (case packet_decode M packet of
                Inl e \<Rightarrow> ([], Inr (Some (Codec_Other e), MqttDecoder_default, tail @ rest))
              | Inr q \<Rightarrow> apfst (\<lambda>qs. q # qs) (drain M MqttDecoder_default (tail @ rest)))"
proof (intro exI conjI)
  let ?n = "length bs - k + 1"
  have len: "?n < length bs" and k: "1 + k \<le> length bs"
    using assms by (auto simp: is_frame_def)
  show "bs = take ?n bs @ drop ?n bs" by simp
  show "length (drop ?n bs) = k - 1" and "drop ?n bs \<noteq> []" using k assms(2) by auto
  show "drain M MqttDecoder_default (bs @ rest) =
      (case packet_decode M (take ?n bs) of
         Inl e \<Rightarrow> ([], Inr (Some (Codec_Other e), MqttDecoder_default, drop ?n bs @ rest))
       | Inr q \<Rightarrow> apfst (\<lambda>qs. q # qs) (drain M MqttDecoder_default (drop ?n bs @ rest)))"
    unfolding MqttDecoder_default_def
    by (subst drain.simps)
       (use len in \<open>simp add: decode_frame [OF assms(1)] consume_full_packet_def split: sum.split\<close>)
qed

theorem long_frame_cut_short_witness:
  "drain mqtt_reference MqttDecoder_default (long_frame @ [0x30, 0]) =
     ([], Inr (Some (Codec_Other ()), MqttDecoder_default, [0, 0x30, 0]))"
proof -
  obtain packet tail where bs: "long_frame = packet @ tail" and len: "length tail = 1"
    and drain: "drain mqtt_reference MqttDecoder_default (long_frame @ [0x30, 0]) =
      (case packet_decode mqtt_reference packet of
         Inl e \<Rightarrow> ([], Inr (Some (Codec_Other e), MqttDecoder_default, tail @ [0x30, 0]))
       | Inr q \<Rightarrow> apfst (\<lambda>qs. q # qs) (drain mqtt_reference MqttDecoder_default (tail @ [0x30, 0])))"
    using long_frame_cut_short [OF concrete_long_frame, of "[0x30, 0]"] by auto
  have "length packet = 130" using bs len by (auto simp: long_frame_def dest: arg_cong [where f = length])
  then have "packet = take 130 long_frame" and "tail = drop 130 long_frame"
    unfolding bs by simp_all
  then have "packet = 0x30 # 0x80 # 1 # replicate 127 0" and "tail = [0]"
    by (simp_all add: long_frame_def take_Cons' drop_Cons')
  then show ?thesis
    unfolding drain by (simp add: mqtt_reference_def varint_long)
qed

end
