(* ===== verification/Mqtt_Client.thy ===== *)
theory Mqtt_Client
  imports Service Mqtt_Codec
begin

text \<open>
  The MQTT client, \<open>tokio-mqtt/src/lib.rs\<close>, and the task that publishes the sensors
  (\<open>mqtt_publish\<close> in \<open>src/tasks.rs\<close>). What a URL of the \<open>url\<close> crate answers to the
  accessors the program calls is a record; what arrives on the connection, and which sends
  fail, are arguments; packets sent are outputs.
\<close>

section \<open>Connection options\<close>

record url =
  url_scheme :: string
  url_host_str :: "string option"
  url_port :: "u16 option"
  url_username :: string
  url_password :: "string option"

datatype ssl = Ssl_None | Ssl_With_Cert "u8 list"

datatype scheme = Scheme_Mqtt | Scheme_MqttS (ca_pem: "u8 list") (domain: string)

record connect_options =
  co_host :: string
  co_port :: u16
  co_username :: "string option"
  co_password :: "string option"
  co_scheme :: scheme

datatype 'io mqtt_error =
    Connection_Refused u8
  | Mqtt_Io 'io
  | Unexpected_Packet
  | Invalid_Url url

text \<open>
  \<open>dns_name\<close> says which hosts are DNS names. A panic comes before an error: the scheme is
  matched before the host is used.
\<close>

definition ConnectOptions_new ::
    "(string \<Rightarrow> bool) \<Rightarrow> url \<Rightarrow> ssl \<Rightarrow> panic + 'io mqtt_error + connect_options" where
  "ConnectOptions_new dns_name url ssl =
     (case url_host_str url of
        None \<Rightarrow> Inr (Inl (Invalid_Url url))
      | Some host \<Rightarrow>
          and_then
            (if url_scheme url = ''mqtt'' then Inr (Inr (1883, Scheme_Mqtt))
             else if url_scheme url = ''mqtts'' then
               (case ssl of
                  Ssl_None \<Rightarrow> Inl (Explicit_Panic '''')
                | Ssl_With_Cert cert \<Rightarrow>
                    if dns_name host then Inr (Inr (8883, Scheme_MqttS cert host))
                    else Inl Unwrap_Failed)
             else Inr (Inl (Invalid_Url url)))
            (\<lambda>r. Inr (and_then r (\<lambda>(port, scheme).
               let port = (case url_port url of None \<Rightarrow> port | Some p \<Rightarrow> p)
               in Inr \<lparr>co_host = host, co_port = port,
                       co_username = (if url_username url = [] then None else Some (url_username url)),
                       co_password = url_password url, co_scheme = scheme\<rparr>))))"

section \<open>Connecting\<close>

text \<open>The packets of the \<open>mqtt\<close> crate the client sends or distinguishes.\<close>

datatype 'o packet =
    Connect_Packet string "string option" "string option" bool u16
  | Connack u8
  | Pingreq
  | Pingresp
  | Suback u16
  | Publish string "u8 list"
  | Other_Packet 'o

definition CONNECTION_ACCEPTED :: u8 where
  "CONNECTION_ACCEPTED = 0"

text \<open>What \<open>connect\<close> spawns: the driver always, the ping task unless the interval is 0.\<close>

datatype spawned = Driver_Task | Ping_Task u16

text \<open>
  Opening the stream: what the TCP connection, the certificates and the TLS handshake answer
  are arguments; a certificate file that cannot be parsed panics. The reading half starts with
  the default decoder.
\<close>

definition ConnectOptions_connect ::
    "(string \<Rightarrow> u16 \<Rightarrow> 'io option) \<Rightarrow> (u8 list \<Rightarrow> bool) \<Rightarrow> (string \<Rightarrow> 'io option) \<Rightarrow> connect_options \<Rightarrow>
     panic + 'io mqtt_error + mqtt_decoder" where
  "ConnectOptions_connect tcp_err pem_ok tls_err self =
     (case tcp_err (co_host self) (co_port self) of
        Some e \<Rightarrow> Inr (Inl (Mqtt_Io e))
      | None \<Rightarrow>
          (case co_scheme self of
             Scheme_Mqtt \<Rightarrow> Inr (Inr MqttDecoder_default)
           | Scheme_MqttS pem dns \<Rightarrow>
               if pem_ok pem
               then (case tls_err dns of
                       Some e \<Rightarrow> Inr (Inl (Mqtt_Io e))
                     | None \<Rightarrow> Inr (Inr MqttDecoder_default))
               else Inl Unwrap_Failed))"

text \<open>
  \<open>Connection::connect\<close> unwraps the stream, sends the connect packet and waits for one answer:
  \<open>None\<close> when the stream ends, an error of the decoder, or a packet.
\<close>

definition Connection_connect ::
    "(connect_options \<Rightarrow> panic + 'io mqtt_error + mqtt_decoder) \<Rightarrow> ('o packet \<Rightarrow> 'io option) \<Rightarrow>
     ('x + 'o packet) option \<Rightarrow> connect_options \<Rightarrow> string \<Rightarrow> u16 \<Rightarrow>
     'o packet list \<times> (panic + 'io mqtt_error + spawned list)" where
  "Connection_connect connect send_err answer options client_id keep_alive =
     (case connect options of
        Inl p \<Rightarrow> ([], Inl p)
      | Inr (Inl e) \<Rightarrow> ([], Inl Unwrap_Failed)
      | Inr (Inr decoder) \<Rightarrow>
          (let packet = Connect_Packet client_id (co_username options) (co_password options) True keep_alive
           in case send_err packet of
                Some e \<Rightarrow> ([], Inr (Inl (Mqtt_Io e)))
              | None \<Rightarrow>
                  ([packet],
                   case answer of
                     None \<Rightarrow> Inl Unwrap_Failed
                   | Some (Inr (Connack return_code)) \<Rightarrow>
                       Inr (if return_code = CONNECTION_ACCEPTED
                            then Inr (Driver_Task # (if keep_alive \<noteq> 0 then [Ping_Task keep_alive] else []))
                            else Inl (Connection_Refused return_code))
                   | Some _ \<Rightarrow> Inr (Inl Unexpected_Packet))))"

text \<open>
  The driver answers pings and passes published messages on; a failed answer and a dropped
  receiver are ignored, as are packets it does not expect and errors of the stream.
\<close>

datatype 'o driver_output = Answered "'o packet" | Passed_On string "u8 list"

fun driver_packet :: "('o packet \<Rightarrow> 'io option) \<Rightarrow> bool \<Rightarrow> 'x + 'o packet \<Rightarrow> 'o driver_output list" where
  "driver_packet send_err alive (Inr Pingreq) =
     (if send_err Pingresp = None then [Answered Pingresp] else [])"
| "driver_packet send_err alive (Inr Pingresp) = []"
| "driver_packet send_err alive (Inr (Suback n)) = []"
| "driver_packet send_err alive (Inr (Publish topic payload)) =
     (if alive then [Passed_On topic payload] else [])"
| "driver_packet send_err alive (Inr other) = []"
| "driver_packet send_err alive (Inl e) = []"

fun driver_task ::
    "('o packet \<Rightarrow> 'io option) \<Rightarrow> (bool \<times> ('x + 'o packet)) list \<Rightarrow> 'o driver_output list" where
  "driver_task send_err [] = []"
| "driver_task send_err ((alive, item) # r) =
     driver_packet send_err alive item @ driver_task send_err r"

definition Connection_publish ::
    "('o packet \<Rightarrow> 'io option) \<Rightarrow> string \<Rightarrow> u8 list \<Rightarrow> 'io mqtt_error + 'o packet" where
  "Connection_publish send_err topic_name msg =
     (let packet = Publish topic_name msg
      in case send_err packet of Some e \<Rightarrow> Inl (Mqtt_Io e) | None \<Rightarrow> Inr packet)"

text \<open>Each tick of the ping task sends one packet; a failure is only logged.\<close>

definition ping_tick :: "('o packet \<Rightarrow> 'io option) \<Rightarrow> 'o packet list" where
  "ping_tick send_err = (if send_err Pingreq = None then [Pingreq] else [])"

section \<open>Publishing the sensors\<close>

text \<open>
  \<open>io::Cursor\<close> over a vector writes from its beginning and leaves what lies behind.
  \<open>to_json\<close> and \<open>display\<close> are the serialiser and the \<open>Display\<close> of a UUID.
\<close>

definition cursor_write :: "u8 list \<Rightarrow> u8 list \<Rightarrow> u8 list" where
  "cursor_write bytes buf = bytes @ drop (length bytes) buf"

definition sensor_topic :: "('u \<Rightarrow> string) \<Rightarrow> 'u \<Rightarrow> string" where
  "sensor_topic display addr = ''sensors/weatherstation/'' @ display addr"

text \<open>\<open>valid_topic\<close>: which names \<open>TopicName::new\<close> accepts; another one panics.\<close>

fun publish_sensors ::
    "('u \<Rightarrow> string) \<Rightarrow> ('v \<Rightarrow> u8 list) \<Rightarrow> (string \<Rightarrow> bool) \<Rightarrow> ('u \<times> 'v sensor) list \<Rightarrow> u8 list \<Rightarrow>
     (string \<times> u8 list, panic, u8 list) action" where
  "publish_sensors display to_json valid_topic [] json_buf = done_with json_buf"
| "publish_sensors display to_json valid_topic ((addr, sensor) # sensors) json_buf =
     (case s_state sensor of
        Unconnected \<Rightarrow> publish_sensors display to_json valid_topic sensors json_buf
      | Connected values \<Rightarrow>
          (let topic = sensor_topic display addr;
               json_buf = cursor_write (to_json values) json_buf
           in if valid_topic topic
              then bind_action ([(topic, json_buf)], Inr ())
                     (\<lambda>_. publish_sensors display to_json valid_topic sensors json_buf)
              else stop_with Unwrap_Failed))"

text \<open>One round per tick, on the sensors at that moment; the buffer outlives the rounds.\<close>

fun publish_rounds ::
    "('u \<Rightarrow> string) \<Rightarrow> ('v \<Rightarrow> u8 list) \<Rightarrow> (string \<Rightarrow> bool) \<Rightarrow> ('u \<times> 'v sensor) list list \<Rightarrow> u8 list \<Rightarrow>
     (string \<times> u8 list, panic, u8 list) action" where
  "publish_rounds display to_json valid_topic [] json_buf = done_with json_buf"
| "publish_rounds display to_json valid_topic (sensors # rounds) json_buf =
     bind_action (publish_sensors display to_json valid_topic sensors json_buf)
       (\<lambda>json_buf. publish_rounds display to_json valid_topic rounds json_buf)"

definition mqtt_publish ::
    "('u \<Rightarrow> string) \<Rightarrow> ('v \<Rightarrow> u8 list) \<Rightarrow> (string \<Rightarrow> bool) \<Rightarrow> ('u \<times> 'v sensor) list list \<Rightarrow>
     (string \<times> u8 list, panic, u8 list) action" where
  "mqtt_publish display to_json valid_topic rounds = publish_rounds display to_json valid_topic rounds []"

section \<open>What is published\<close>

text \<open>The values to publish in a run, with their sensors, in order.\<close>

definition to_publish :: "('u \<times> 'v sensor) list list \<Rightarrow> ('u \<times> 'v) list" where
  "to_publish rounds =
     List.map_filter (\<lambda>(u, s). case s_state s of Connected v \<Rightarrow> Some (u, v) | Unconnected \<Rightarrow> None)
       (concat rounds)"

text \<open>The payloads a buffer goes through, as the code keeps it.\<close>

fun buffers :: "('v \<Rightarrow> u8 list) \<Rightarrow> ('u \<times> 'v) list \<Rightarrow> u8 list \<Rightarrow> u8 list list" where
  "buffers to_json [] buf = []"
| "buffers to_json ((u, v) # vs) buf =
     cursor_write (to_json v) buf # buffers to_json vs (cursor_write (to_json v) buf)"

lemma length_cursor_write: "length (cursor_write bytes buf) = max (length bytes) (length buf)"
  by (simp add: cursor_write_def)

lemma length_buffers [simp]: "length (buffers to_json vs buf) = length vs"
  by (induction to_json vs buf rule: buffers.induct) auto

lemma buffers_nth_prefix:
  "i < length vs \<Longrightarrow> \<exists>rest. buffers to_json vs buf ! i = to_json (snd (vs ! i)) @ rest"
proof (induction to_json vs buf arbitrary: i rule: buffers.induct)
  case (2 to_json u v vs buf)
  then show ?case by (cases i) (auto simp: cursor_write_def)
qed simp

lemma buffers_nth_exact:
  "i < length vs \<Longrightarrow>
   length (buffers to_json vs buf ! i) = length (to_json (snd (vs ! i))) \<longleftrightarrow>
     length buf \<le> length (to_json (snd (vs ! i))) \<and>
     (\<forall>j < i. length (to_json (snd (vs ! j))) \<le> length (to_json (snd (vs ! i))))"
proof (induction to_json vs buf arbitrary: i rule: buffers.induct)
  case (2 to_json u v vs buf)
  then show ?case
    by (cases i) (auto simp: length_cursor_write less_Suc_eq_0_disj)
qed simp

lemma publish_sensors_buffers:
  assumes "\<forall>u. valid_topic (sensor_topic display u)"
  shows "publish_sensors display to_json valid_topic sensors buf =
           (zip (List.map (\<lambda>(u, v). sensor_topic display u) (to_publish [sensors]))
              (buffers to_json (to_publish [sensors]) buf),
            Inr (last (buf # buffers to_json (to_publish [sensors]) buf)))"
proof (induction sensors arbitrary: buf)
  case Nil
  then show ?case by (simp add: to_publish_def done_with_def)
next
  case (Cons us sensors)
  obtain u s where us: "us = (u, s)" by force
  show ?case
    using Cons.IH assms
    by (cases "s_state s") (simp_all add: us to_publish_def List.map_filter_simps Let_def)
qed

lemma to_publish_Cons: "to_publish (sensors # rounds) = to_publish [sensors] @ to_publish rounds"
  by (simp add: to_publish_def List.map_filter_def)

lemma buffers_append:
  "buffers to_json (xs @ ys) buf =
   buffers to_json xs buf @ buffers to_json ys (last (buf # buffers to_json xs buf))"
  by (induction to_json xs buf rule: buffers.induct) auto

lemma publish_rounds_buffers:
  assumes "\<forall>u. valid_topic (sensor_topic display u)"
  shows "fst (publish_rounds display to_json valid_topic rounds buf) =
           zip (List.map (\<lambda>(u, v). sensor_topic display u) (to_publish rounds))
             (buffers to_json (to_publish rounds) buf)"
proof (induction rounds arbitrary: buf)
  case Nil
  then show ?case by (simp add: to_publish_def done_with_def List.map_filter_def)
next
  case (Cons sensors rounds)
  then show ?case
    by (simp add: publish_sensors_buffers [OF assms] to_publish_Cons [of sensors rounds] buffers_append
        zip_append)
qed

text \<open>
  C28: What is published for a sensor begins with its values, but is exactly its values only when no
  value published before was longer: the buffer is never cut, so a longer one leaves its end
  behind the shorter one.
\<close>

theorem published_payloads:
  assumes "\<forall>u. valid_topic (sensor_topic display u)"
  shows "length (fst (mqtt_publish display to_json valid_topic rounds)) = length (to_publish rounds) \<and>
         (\<forall>i < length (to_publish rounds).
            let out = fst (mqtt_publish display to_json valid_topic rounds) ! i;
                value_at = (\<lambda>j. to_json (snd (to_publish rounds ! j)))
            in fst out = sensor_topic display (fst (to_publish rounds ! i)) \<and>
               (\<exists>rest. snd out = value_at i @ rest) \<and>
               (snd out = value_at i \<longleftrightarrow> (\<forall>j < i. length (value_at j) \<le> length (value_at i))))"
proof -
  let ?vs = "to_publish rounds"
  have out: "fst (mqtt_publish display to_json valid_topic rounds) =
      zip (List.map (\<lambda>(u, v). sensor_topic display u) ?vs) (buffers to_json ?vs [])"
    by (simp add: mqtt_publish_def publish_rounds_buffers [OF assms])
  have "buffers to_json ?vs [] ! i = to_json (snd (?vs ! i)) \<longleftrightarrow>
      (\<forall>j < i. length (to_json (snd (?vs ! j))) \<le> length (to_json (snd (?vs ! i))))"
    if i: "i < length ?vs" for i
  proof -
    obtain rest where "buffers to_json ?vs [] ! i = to_json (snd (?vs ! i)) @ rest"
      using buffers_nth_prefix [OF i] by blast
    then show ?thesis using buffers_nth_exact [OF i, of to_json "[]"] by auto
  qed
  then show ?thesis
    using buffers_nth_prefix [of _ ?vs to_json "[]"] by (simp add: out Let_def split_beta)
qed

theorem published_payloads_witness:
  "let rounds = [[(4 :: nat, \<lparr>s_label = None, s_state = Connected [7 :: u8, 8, 9]\<rparr>)],
                 [(4, \<lparr>s_label = None, s_state = Connected [5, 6]\<rparr>)]]
   in snd (fst (mqtt_publish (\<lambda>_. ''4'') (\<lambda>v. v) (\<lambda>_. True) rounds) ! 1) \<noteq> [5, 6]"
proof -
  let ?rounds = "[[(4 :: nat, \<lparr>s_label = None, s_state = Connected [7 :: u8, 8, 9]\<rparr>)],
                 [(4, \<lparr>s_label = None, s_state = Connected [5, 6]\<rparr>)]]"
  have vs: "to_publish ?rounds = [(4, [7, 8, 9]), (4, [5, 6])]"
    by (simp add: to_publish_def List.map_filter_def)
  have "\<forall>u :: nat. (\<lambda>_. True) (sensor_topic (\<lambda>_. ''4'') u)" by simp
  note all = published_payloads [where valid_topic = "\<lambda>_. True" and display = "\<lambda>_ :: nat. ''4''"
      and to_json = "\<lambda>v. v" and rounds = ?rounds, OF this]
  show ?thesis
    using spec [OF conjunct2 [OF all], of 1] by (simp add: vs Let_def)
qed

end
