(* ===== verification/Startup.thy ===== *)
theory Startup
  imports Server Mqtt_Client
begin

text \<open>
  Configuration (\<open>src/config.rs\<close>), command line (\<open>src/opt.rs\<close>) and the wiring of the
  program (\<open>main\<close> and \<open>run\<close> in \<open>src/main.rs\<close>): which tasks are started, which requests
  are let through and what ends the server. Files, the environment and the random generator are
  arguments; effects on files are outputs. Text is ASCII.
\<close>

section \<open>Configuration\<close>

text \<open>The environment as deserialised: a variable that is not set is \<open>None\<close>.\<close>

record 'h env_vars =
  ev_mqtt_server_url :: "url option"
  ev_mqtt_cert_file :: "string option"
  ev_enable_mesh :: "bool option"
  ev_host :: "'h option"
  ev_port :: "u16 option"
  ev_data_dir :: "string option"
  ev_demo :: "u8 option"
  ev_token :: "string option"

record 'h env_config =
  ec_mqtt_server_url :: "url option"
  ec_mqtt_cert_file :: "string option"
  ec_enable_mesh :: bool
  ec_host :: 'h
  ec_port :: u16
  ec_data_dir :: string
  ec_demo :: "u8 option"
  ec_token :: "string option"

definition tru :: bool where
  "tru = True"

definition default_port :: u16 where
  "default_port = 5841"

definition default_data_dir :: "string option \<Rightarrow> panic + string" where
  "default_data_dir project_dir =
     (case project_dir of None \<Rightarrow> Inl Unwrap_Failed | Some dir \<Rightarrow> Inr dir)"

definition env_config_of :: "string option \<Rightarrow> 'h \<Rightarrow> 'h env_vars \<Rightarrow> panic + 'h env_config" where
  "env_config_of project_dir localhost ev =
     and_then (case ev_data_dir ev of None \<Rightarrow> default_data_dir project_dir | Some dir \<Rightarrow> Inr dir) (\<lambda>dir.
       Inr \<lparr>ec_mqtt_server_url = ev_mqtt_server_url ev, ec_mqtt_cert_file = ev_mqtt_cert_file ev,
            ec_enable_mesh = (case ev_enable_mesh ev of None \<Rightarrow> tru | Some b \<Rightarrow> b),
            ec_host = (case ev_host ev of None \<Rightarrow> localhost | Some h \<Rightarrow> h),
            ec_port = (case ev_port ev of None \<Rightarrow> default_port | Some p \<Rightarrow> p),
            ec_data_dir = dir, ec_demo = ev_demo ev, ec_token = ev_token ev\<rparr>)"

definition Secret_check :: "string \<Rightarrow> string \<Rightarrow> bool" where
  "Secret_check self s \<longleftrightarrow> self = s"

datatype config_error =
    No_Cert_File
  | Cert_Unreadable string
  | Bad_Mqtt_Url
  | Token_Empty string
  | Token_Unreadable string
  | Token_Not_Opened string
  | Token_Not_Written string
  | Token_Corrupted string

text \<open>The MQTT options: an \<open>mqtts\<close> URL needs a certificate file that can be read.\<close>

definition mqtt_ssl ::
    "(string \<Rightarrow> u8 list option) \<Rightarrow> 'h env_config \<Rightarrow> url \<Rightarrow> config_error + ssl" where
  "mqtt_ssl read_file ec url =
     (if url_scheme url = ''mqtts'' then
        (case ec_mqtt_cert_file ec of
           None \<Rightarrow> Inl No_Cert_File
         | Some cert_path \<Rightarrow>
             (case read_file cert_path of
                None \<Rightarrow> Inl (Cert_Unreadable cert_path)
              | Some pem \<Rightarrow> Inr (Ssl_With_Cert pem)))
      else Inr Ssl_None)"

definition mqtt_options ::
    "(string \<Rightarrow> bool) \<Rightarrow> (string \<Rightarrow> u8 list option) \<Rightarrow> 'h env_config \<Rightarrow>
     panic + config_error + connect_options option" where
  "mqtt_options dns_name read_file ec =
     (case ec_mqtt_server_url ec of
        None \<Rightarrow> Inr (Inr None)
      | Some url \<Rightarrow>
          (case mqtt_ssl read_file ec url of
             Inl e \<Rightarrow> Inr (Inl e)
           | Inr ssl \<Rightarrow>
               map_sum (\<lambda>p. p) (\<lambda>r. map_sum (\<lambda>_ :: unit mqtt_error. Bad_Mqtt_Url) Some r)
                 (ConnectOptions_new dns_name url ssl)))"

text \<open>
  The token: the environment's, the file's without the white space around it, or a new one of
  64 random letters and digits that is written to a new file.
\<close>

definition white_space :: "char \<Rightarrow> bool" where
  "white_space c \<longleftrightarrow> of_char c \<in> {9, 10, 11, 12, 13, 32 :: nat}"

definition trim :: "string \<Rightarrow> string" where
  "trim s = rev (dropWhile white_space (rev (dropWhile white_space s)))"

definition path_join :: "string \<Rightarrow> string \<Rightarrow> string" where
  "path_join dir name =
     (if dir = [] then name else if last dir = CHR ''/'' then dir @ name else dir @ ''/'' @ name)"

datatype token_file = Token_Text string | Token_Not_Found | Token_Read_Error

datatype file_effect = Create_Dir_All string | Create_New_File string nat | Write_File string string

text \<open>The mode of the new file, octal 600.\<close>

definition mode_600 :: nat where
  "mode_600 = 6 * 8 * 8"

text \<open>
  \<open>written\<close> is the answer of \<open>write\<close>: an error, or how many bytes it took, which may be fewer
  than it was given.
\<close>

definition new_token ::
    "string \<Rightarrow> string \<Rightarrow> bool \<Rightarrow> nat option \<Rightarrow> string \<Rightarrow> (file_effect, config_error, string) action" where
  "new_token dir token_path open_ok written token =
     bind_action ([Create_Dir_All dir], Inr ()) (\<lambda>_.
     bind_action (if open_ok then ([Create_New_File token_path mode_600], Inr ())
                  else stop_with (Token_Not_Opened token_path)) (\<lambda>_.
     bind_action (case written of
                    Some n \<Rightarrow> ([Write_File token_path (take n token)], Inr ())
                  | None \<Rightarrow> stop_with (Token_Not_Written token_path)) (\<lambda>_.
     done_with token)))"

definition load_token ::
    "(string \<Rightarrow> bool) \<Rightarrow> token_file \<Rightarrow> bool \<Rightarrow> nat option \<Rightarrow> string \<Rightarrow> 'h env_config \<Rightarrow>
     (file_effect, config_error, string) action" where
  "load_token valid_metadata file open_ok written sample ec =
     (let token_path = path_join (ec_data_dir ec) ''token''
      in bind_action
           (case ec_token ec of
              Some token \<Rightarrow> done_with token
            | None \<Rightarrow>
                (case file of
                   Token_Text text \<Rightarrow>
                     (let token = trim text
                      in if token = [] then stop_with (Token_Empty token_path) else done_with token)
                 | Token_Not_Found \<Rightarrow> new_token (ec_data_dir ec) token_path open_ok written sample
                 | Token_Read_Error \<Rightarrow> stop_with (Token_Unreadable token_path)))
           (\<lambda>token. if valid_metadata token then done_with token
                    else stop_with (Token_Corrupted token_path)))"

definition db_path :: "string \<Rightarrow> string" where
  "db_path dir = path_join dir ''ble-ws-central.mdb''"

record 'h config =
  cfg_mqtt_options :: "connect_options option"
  cfg_enable_mesh :: bool
  cfg_host :: 'h
  cfg_port :: u16
  cfg_db_path :: string
  cfg_demo :: "u8 option"
  cfg_token :: string

definition Config_from_env ::
    "(string \<Rightarrow> bool) \<Rightarrow> (string \<Rightarrow> u8 list option) \<Rightarrow> (string \<Rightarrow> bool) \<Rightarrow> token_file \<Rightarrow> bool \<Rightarrow>
     nat option \<Rightarrow> string \<Rightarrow> 'h env_config \<Rightarrow> (file_effect, panic + config_error, 'h config) action" where
  "Config_from_env dns_name read_file valid_metadata file open_ok written sample ec =
     (case mqtt_options dns_name read_file ec of
        Inl p \<Rightarrow> stop_with (Inl p)
      | Inr (Inl e) \<Rightarrow> stop_with (Inr e)
      | Inr (Inr options) \<Rightarrow>
          (let (effects, r) = load_token valid_metadata file open_ok written sample ec
           in (effects,
               case r of
                 Inl e \<Rightarrow> Inl (Inr e)
               | Inr token \<Rightarrow>
                   Inr \<lparr>cfg_mqtt_options = options, cfg_enable_mesh = ec_enable_mesh ec,
                        cfg_host = ec_host ec, cfg_port = ec_port ec,
                        cfg_db_path = db_path (ec_data_dir ec), cfg_demo = ec_demo ec,
                        cfg_token = token\<rparr>)))"

section \<open>Command line\<close>

datatype rt = MultiThread | CurrentThread

definition Rt_from_str :: "string \<Rightarrow> string + rt" where
  "Rt_from_str s =
     (if s = ''current_thread'' then Inr CurrentThread
      else if s = ''multi_thread'' then Inr MultiThread
      else Inl ''Executor must be either `current_thread` or `multi_thread`'')"

record opt =
  opt_workers :: "nat option"
  opt_executor :: rt

datatype runtime = Multi_Thread_Runtime "nat option" | Current_Thread_Runtime

definition main_runtime :: "opt \<Rightarrow> runtime" where
  "main_runtime args =
     (case opt_executor args of
        MultiThread \<Rightarrow> Multi_Thread_Runtime (opt_workers args)
      | CurrentThread \<Rightarrow> Current_Thread_Runtime)"

section \<open>Running\<close>

text \<open>
  \<open>run\<close> after the configuration: what it starts, in order. \<open>fails\<close> says how a step fails: it
  returns an error, which \<open>run\<close> returns, or it panics, as \<open>Connection::connect\<close> does when there is
  no connection. The handlers of the signals are unwrapped, so there an error panics as well.
\<close>

datatype 'h start_step =
    Create_Context string
  | Listen_Mesh
  | Dummy_Sensors nat
  | Spawn_Update nat
  | Connect_Mqtt connect_options string u16
  | Spawn_Publish
  | Handle_Terminate
  | Handle_Interrupt
  | Serve 'h u16

datatype failure = Step_Error | Step_Panic panic

text \<open>\<open>run\<close> stops with a panic or with the error of a step.\<close>

definition try_step ::
    "('h start_step \<Rightarrow> failure option) \<Rightarrow> 'h start_step \<Rightarrow>
     ('h start_step, panic + 'h start_step, unit) action" where
  "try_step fails s =
     ([s], case fails s of
             None \<Rightarrow> Inr ()
           | Some Step_Error \<Rightarrow> Inl (Inr s)
           | Some (Step_Panic p) \<Rightarrow> Inl (Inl p))"

definition unwrap_step ::
    "('h start_step \<Rightarrow> failure option) \<Rightarrow> 'h start_step \<Rightarrow>
     ('h start_step, panic + 'h start_step, unit) action" where
  "unwrap_step fails s =
     ([s], case fails s of
             None \<Rightarrow> Inr ()
           | Some Step_Error \<Rightarrow> Inl (Inl Unwrap_Failed)
           | Some (Step_Panic p) \<Rightarrow> Inl (Inl p))"

definition run ::
    "('h start_step \<Rightarrow> failure option) \<Rightarrow> 'h config \<Rightarrow>
     ('h start_step, panic + 'h start_step, unit) action" where
  "run fails config =
     bind_action (try_step fails (Create_Context (cfg_db_path config))) (\<lambda>_.
     bind_action (if cfg_enable_mesh config
                  then bind_action (try_step fails Listen_Mesh) (\<lambda>_. done_with (1 :: nat))
                  else done_with 0) (\<lambda>sources.
     bind_action (case cfg_demo config of
                    Some n \<Rightarrow> ([Dummy_Sensors (unat n)], Inr (sources + 1))
                  | None \<Rightarrow> done_with sources) (\<lambda>sources.
     bind_action ([Spawn_Update sources], Inr ()) (\<lambda>_.
     bind_action (case cfg_mqtt_options config of
                    Some options \<Rightarrow>
                      bind_action (try_step fails (Connect_Mqtt options ''ble-weatherstation-central'' 60))
                        (\<lambda>_. ([Spawn_Publish], Inr ()))
                  | None \<Rightarrow> done_with ()) (\<lambda>_.
     bind_action (unwrap_step fails Handle_Terminate) (\<lambda>_.
     bind_action (unwrap_step fails Handle_Interrupt) (\<lambda>_.
     try_step fails (Serve (cfg_host config) (cfg_port config)))))))))"

text \<open>The interceptor every request passes.\<close>

definition intercept :: "string \<Rightarrow> string option \<Rightarrow> rpc_status + unit" where
  "intercept token authorization =
     (case authorization of
        Some t \<Rightarrow>
          if token = t then Inr () else Inl (Status_Unauthenticated ''No valid auth token'')
      | None \<Rightarrow> Inl (Status_Unauthenticated ''No valid auth token''))"

text \<open>
  What ends the server: a signal, or the update task when it could not be joined. A task that
  returns, with an error or not, does not match the arm's pattern and disables it.
\<close>

datatype ('j, 'e) shutdown_event = Update_Ended "'j + ('e db_error + unit)" | Terminate | Interrupt

fun shutdown :: "bool \<Rightarrow> ('j, 'e) shutdown_event list \<Rightarrow> bool" where
  "shutdown watching [] = False"
| "shutdown watching (Terminate # events) = True"
| "shutdown watching (Interrupt # events) = True"
| "shutdown watching (Update_Ended (Inl e) # events) = (if watching then True else shutdown False events)"
| "shutdown watching (Update_Ended (Inr r) # events) = shutdown False events"

section \<open>Properties\<close>

text \<open>
  Of the panics of \<open>ConnectOptions::new\<close> only one can be reached from the configuration: the
  explicit one cannot, because an \<open>mqtts\<close> URL always comes with a certificate.
\<close>

lemma mqtt_options_panics:
  "mqtt_options dns_name read_file ec = Inl p \<longleftrightarrow>
     p = Unwrap_Failed \<and>
     (\<exists>url host cert_path pem. ec_mqtt_server_url ec = Some url \<and> url_scheme url = ''mqtts'' \<and>
        url_host_str url = Some host \<and> \<not> dns_name host \<and>
        ec_mqtt_cert_file ec = Some cert_path \<and> read_file cert_path = Some pem)"
  by (cases "ec_mqtt_server_url ec")
     (auto simp: mqtt_options_def mqtt_ssl_def ConnectOptions_new_def Let_def
       split: option.splits if_splits sum.splits)

lemma dropWhile_none: "\<forall>c \<in> set s. \<not> P c \<Longrightarrow> dropWhile P s = s"
  by (cases s) auto

lemma trim_none: "\<forall>c \<in> set s. \<not> white_space c \<Longrightarrow> trim s = s"
  by (simp add: trim_def dropWhile_none)

definition alphanumeric :: "char \<Rightarrow> bool" where
  "alphanumeric c \<longleftrightarrow> of_char c \<in> {48 .. 57 :: nat} \<union> {65 .. 90} \<union> {97 .. 122}"

lemma alphanumeric_not_white: "alphanumeric c \<Longrightarrow> \<not> white_space c"
  by (auto simp: alphanumeric_def white_space_def)

text \<open>What the file at a path holds after effects on files.\<close>

fun file_effect_on :: "string \<Rightarrow> file_effect \<Rightarrow> token_file \<Rightarrow> token_file" where
  "file_effect_on path (Create_Dir_All dir) file = file"
| "file_effect_on path (Create_New_File p mode) file = (if p = path then Token_Text [] else file)"
| "file_effect_on path (Write_File p text) file = (if p = path then Token_Text text else file)"

definition file_after :: "string \<Rightarrow> file_effect list \<Rightarrow> token_file" where
  "file_after path effects = fold (file_effect_on path) effects Token_Not_Found"

lemma load_token_from_file:
  assumes "ec_token ec = None" and "\<forall>c \<in> set text. \<not> white_space c"
  shows "load_token valid (Token_Text text) open_ok written sample ec =
           ([], if text = [] then Inl (Token_Empty (path_join (ec_data_dir ec) ''token''))
                else if valid text then Inr text
                else Inl (Token_Corrupted (path_join (ec_data_dir ec) ''token'')))"
  using assms
  by (simp add: load_token_def Let_def trim_none action_simps stop_with_def done_with_def)

text \<open>
  C29: When there is no token yet and the file can be created, it is created for its owner only
  and the program uses all of the 64 letters and digits it made up, whatever part of them the one
  \<open>write\<close> took. What the next start does with the file this left behind depends on that part: it
  uses the same token exactly when all 64 bytes were taken, a shorter one when some were, and
  it refuses the file, as every later start, when none were or the write failed.
\<close>

theorem new_token_at_restart:
  assumes "ec_token ec = None" and "length sample = 64" and "\<forall>c \<in> set sample. alphanumeric c"
    and "\<And>s. \<forall>c \<in> set s. alphanumeric c \<Longrightarrow> valid s"
    and "written \<in> {None} \<union> Some ` {0 .. 64}"
    and "path = path_join (ec_data_dir ec) ''token''"
    and "load_token valid Token_Not_Found True written sample ec = (effects, r)"
  shows "r = (if written = None then Inl (Token_Not_Written path) else Inr sample) \<and>
         take 2 effects = [Create_Dir_All (ec_data_dir ec), Create_New_File path mode_600] \<and>
         load_token valid (file_after path effects) open_ok written' sample' ec =
           ([], if written \<in> {None, Some 0} then Inl (Token_Empty path)
                else Inr (take (the written) sample)) \<and>
         (snd (load_token valid (file_after path effects) open_ok written' sample' ec) = Inr sample
            \<longleftrightarrow> written = Some 64)"
proof -
  have valid: "valid (take n sample)" for n
    using assms(3) by (intro assms(4)) (auto dest: in_set_takeD)
  have plain: "\<forall>c \<in> set (take n sample). \<not> white_space c" for n
    using assms(3) alphanumeric_not_white by (auto dest: in_set_takeD)
  have new: "(effects, r) =
      (case written of
         None \<Rightarrow> ([Create_Dir_All (ec_data_dir ec), Create_New_File path mode_600],
                  Inl (Token_Not_Written path))
       | Some n \<Rightarrow> ([Create_Dir_All (ec_data_dir ec), Create_New_File path mode_600,
                     Write_File path (take n sample)], Inr sample))"
    using assms(1,7) valid [of 64] assms(2)
    by (simp add: assms(6) load_token_def new_token_def Let_def action_simps stop_with_def
        done_with_def split: option.splits)
  obtain kept where kept_def: "kept = (case written of None \<Rightarrow> [] | Some n \<Rightarrow> take n sample)" by simp
  have left: "file_after path effects = Token_Text kept"
    using new by (simp add: file_after_def kept_def split: option.splits)
  have empty: "kept = [] \<longleftrightarrow> written \<in> {None, Some 0}"
    using assms(2) by (auto simp: kept_def split: option.splits)
  have same: "kept = sample \<longleftrightarrow> written = Some 64"
    using assms(2,5) arg_cong [of kept sample length] by (auto simp: kept_def split: option.splits)
  have restart: "load_token valid (file_after path effects) open_ok written' sample' ec =
      ([], if kept = [] then Inl (Token_Empty path) else Inr kept)"
    unfolding left using valid plain
    by (subst load_token_from_file [OF assms(1)])
       (auto simp: kept_def assms(6) split: option.splits)
  have "sample \<noteq> []" using assms(2) by auto
  with new restart empty same show ?thesis
    by (auto simp: kept_def split: option.splits)
qed

definition sample_config :: "unit env_config" where
  "sample_config = \<lparr>ec_mqtt_server_url = None, ec_mqtt_cert_file = None, ec_enable_mesh = True,
     ec_host = (), ec_port = 5841, ec_data_dir = ''/d'', ec_demo = None, ec_token = None\<rparr>"

theorem new_token_at_restart_witness:
  "let sample = replicate 64 CHR ''x'';
       start = load_token (\<lambda>_. True) Token_Not_Found True (Some 10) sample sample_config
   in snd start = Inr sample \<and>
      load_token (\<lambda>_. True) (file_after ''/d/token'' (fst start)) True None [] sample_config =
        ([], Inr (take 10 sample))"
proof -
  have path: "''/d/token'' = path_join (ec_data_dir sample_config) ''token''"
    by (simp add: path_join_def sample_config_def)
  have no_token: "ec_token sample_config = None" by (simp add: sample_config_def)
  show ?thesis
    unfolding Let_def
    using new_token_at_restart [OF no_token _ _ _ _ path prod.collapse [symmetric],
        of "replicate 64 CHR ''x''" "\<lambda>_. True" "Some 10" True None "[]"]
    by (simp add: alphanumeric_def)
qed

end
