(* ===== verification/Pipeline.thy ===== *)
theory Pipeline
  imports Collector Mesh_Objects Mesh_Loop_Facts Queue_Refinement Backup Startup
begin

text \<open>
  Properties that span components: the way of a sensor report from the mesh daemon's call
  through the message queue, the collection task and the update task into memory and log, and
  what is left of the server when the update task has failed.
\<close>

section \<open>From the daemon to the queue\<close>

definition report_message :: "'t \<Rightarrow> mesh_addr \<Rightarrow> ble_ws_sensor_values \<Rightarrow> 't generic_message" where
  "report_message now addr v =
     GenericMessage_new now \<lparr>msg_opcode = BleWsSensorValues_opcode, msg_payload = sensor_values_bytes v\<rparr>
       (Meta_Normal addr MAIN_APP_INDEX)"

lemma report_received:
  assumes "nom_ok N" and "destination_text dest = Inr text"
  shows "message_received N True send_ok now addr MAIN_APP_INDEX dest
           (opcode_bytes BleWsSensorValues_opcode @ sensor_values_bytes v) =
         Inr (Some (Incoming send_ok (report_message now addr v)))"
proof -
  have "parse_message N (opcode_bytes BleWsSensorValues_opcode @ sensor_values_bytes v) =
      Inr \<lparr>msg_opcode = BleWsSensorValues_opcode, msg_payload = sensor_values_bytes v\<rparr>"
    by (simp add: parse_message_iff [OF assms(1)] packet_opcodes_canonical)
  then show ?thesis
    using assms(2) by (simp add: message_received_def push_msg_def report_message_def)
qed

lemma sensor_filter_matches: "is_match sensor_filter (report_message now addr v)"
  by (simp add: is_match_def sensor_filter_def generic_of_filter_def Filter_app_index_def
      Filter_opcode_def Filter_default_def report_message_def)

text \<open>A queue whose only subscription to application messages is the sensor stream.\<close>

definition sensor_stream ::
    "('k, 'm, 's, 'c) slots \<Rightarrow> ('m, 's, 't) queue_state \<Rightarrow> 'c \<Rightarrow> bool" where
  "sensor_stream L st ch \<longleftrightarrow>
     (\<exists>k. (k, sensor_filter) \<in> set (filters_iter L (qs_filters st)) \<and>
          subs_get L (qs_subscribers st) k = Some (Stream ch) \<and>
          (\<forall>(k', f) \<in> set (filters_iter L (qs_filters st)). k' = k \<or> gf_kind f = Kind_Device))"

lemma report_key:
  assumes "match_filter L st (report_message now addr v) = Some k"
  shows "\<exists>f. (k, f) \<in> set (filters_iter L (qs_filters st)) \<and> gf_kind f \<noteq> Kind_Device"
  using match_filter_Some [OF assms]
  by (elim exE conjE) (auto simp: is_match_def report_message_def split: if_splits)

lemma report_matched:
  assumes "sensor_stream L st ch"
  shows "\<exists>k. match_filter L st (report_message now addr v) = Some k \<and>
             subs_get L (qs_subscribers st) k = Some (Stream ch)"
proof -
  let ?m = "report_message now addr v"
  obtain k where k: "(k, sensor_filter) \<in> set (filters_iter L (qs_filters st))"
    "subs_get L (qs_subscribers st) k = Some (Stream ch)"
    "\<forall>(k', f) \<in> set (filters_iter L (qs_filters st)). k' = k \<or> gf_kind f = Kind_Device"
    using assms by (auto simp: sensor_stream_def)
  have "match_filter L st ?m \<noteq> None"
    using k(1) sensor_filter_matches [of now addr v] by (auto simp: match_filter_def find_None_iff)
  then obtain k' where k': "match_filter L st ?m = Some k'" by blast
  then obtain f where kf: "(k', f) \<in> set (filters_iter L (qs_filters st))" "gf_kind f \<noteq> Kind_Device"
    using report_key [OF k'] by (elim exE conjE) (rule that)
  then have "k' = k" using k(3) by auto
  then show ?thesis using k' k(2) by blast
qed

lemma report_sent:
  assumes "sensor_stream L st ch" and "send_ok ch (report_message now addr v)"
  shows "queue_step L st (Incoming send_ok (report_message now addr v)) =
           Inr (st, [(ch, report_message now addr v)])"
  using report_matched [OF assms(1), of now addr v] assms(2) by auto

section \<open>From the queue to the batch\<close>

definition report_values ::
    "('t, 'c, 'p, 'h) api \<Rightarrow> 't \<Rightarrow> 'c \<Rightarrow> 'h \<Rightarrow> ble_ws_sensor_values \<Rightarrow> ('t, 'c, 'p, 'h) sensor_values" where
  "report_values A now temperature humidity v =
     \<lparr>sv_timestamp = now, sv_temperature = temperature, sv_pressure = pascal_from A (bws_pressure v),
      sv_humidity = humidity\<rparr>"

lemma report_converts:
  assumes "nom_ok N" and "celsius_try_from A (bws_temperature v) = Some temperature"
    and "humidity_try_from A (bws_humidity v) = Some humidity"
  shows "convert_msg_to_values N A (report_message now addr v) =
           Inr (report_values A now temperature humidity v)"
proof -
  have "BleWsSensorValues_parse_payload N (sensor_values_bytes v) = Some v"
    using assms(1) by (simp add: sensor_values_parse_iff)
  then show ?thesis
    using assms(2,3) by (simp add: convert_msg_to_values_def report_message_def report_values_def)
qed

lemma report_batched:
  assumes "convert_msg_to_values N A (report_message now addr v) = Inr values"
    and "bt_get C addr = Some dev"
  shows "\<exists>batch. collect_round N A C [Sensor_Message (report_message now addr v), Batch_Timeout] =
             Some (Inr batch) \<and> bt_ok batch \<and> bt_get batch dev = Some (Connected values)"
proof -
  have addr: "gm_source_addr (report_message now addr v) = addr" by (simp add: report_message_def)
  define b where "b = bt_insert dev (Connected values) []"
  define t where "t = bs_remove dev (bs_collect (bt_values C))"
  have "collect_round N A C [Sensor_Message (report_message now addr v), Batch_Timeout] =
      Some (Inr (finish_batch b t))"
    using assms by (simp add: collect_round_def addr b_def t_def Let_def)
  moreover have "bt_ok b" by (simp add: b_def bt_ok_def)
  moreover have "bt_get b dev = Some (Connected values)" by (simp add: b_def bt_get_def)
  ultimately show ?thesis using finish_batch_get [of b t dev] by simp
qed

lemma batch_updates:
  assumes "server_libs U I T" and "named logs" and "server_inv U I logs (ctx, True)"
    and "bt_ok batch" and "bt_get batch dev = Some (Connected v)"
    and "update_one U I T A err batch ctx = Inr (ctx', sent)"
  shows "map_option s_state (bt_get (ctx_sensors ctx') dev) = Some (Connected v) \<and>
         (bt_get logs (as_u128 U dev) \<noteq> None \<longrightarrow>
            ctx_log U T ctx' dev =
              ctx_log U T ctx dev @ [(timestamp_as_u32 A (sv_timestamp v), raw_from A v)])"
proof -
  have I: "id_table_ok I" and T: "log_table_ok T" and U: "uuid_ok U"
    using assms(1) by (simp_all add: server_libs_def)
  have ctx: "named (opened_logs ctx)" "bt_ok (ctx_sensors ctx)" and logs: "opened_logs ctx = logs"
    using assms(2,3) by (simp_all add: server_inv_def)
  note eff = update_one_Inr [OF I T U ctx assms(4,6)]
  have "bt_get (ctx_sensors ctx') dev =
      Some \<lparr>s_label = Option.bind (bt_get (ctx_sensors ctx) dev) s_label, s_state = Connected v\<rparr>"
    using eff assms(5) by simp
  moreover have "ctx_log U T ctx' dev = ctx_log U T ctx dev @
      (case bt_get logs (as_u128 U dev) of None \<Rightarrow> []
       | Some name \<Rightarrow> [(timestamp_as_u32 A (sv_timestamp v), raw_from A v)])"
    using eff [THEN conjunct2, THEN conjunct2, THEN conjunct2, THEN conjunct1, rule_format, of dev] assms(5)
    unfolding logs [symmetric] by (cases "bt_get (opened_logs ctx) (as_u128 U dev)") simp_all
  ultimately show ?thesis by (cases "bt_get logs (as_u128 U dev)") simp_all
qed

section \<open>Properties of the whole\<close>

text \<open>
  C6: A report reaches the clients as it was measured. When the mesh daemon delivers the bytes of
  a report of a connected node under the application key, the message is pushed to the queue,
  the queue sends it to the sensor stream and to nobody else, the batch of that round has
  these numbers for the node's device, and once the update task has handled the batch the device has
  them in memory and, when its log is open, as the newest row of its log, where the three numbers
  are those of the payload.
\<close>

theorem report_reaches_memory_and_log:
  assumes "nom_ok N" and "api_ok A" and "server_libs U I T" and "named logs"
    and "server_inv U I logs (ctx, True)"
    and "sensor_stream L st ch" and "\<And>m. send_ok ch m" and "destination_text dest = Inr text"
    and "bt_get C addr = Some dev"
    and "celsius_try_from A (bws_temperature v) = Some temperature"
    and "humidity_try_from A (bws_humidity v) = Some humidity"
  shows "\<exists>msg batch vals.
           message_received N True send_ok now addr MAIN_APP_INDEX dest
             (opcode_bytes BleWsSensorValues_opcode @ sensor_values_bytes v) = Inr (Some (Incoming send_ok msg)) \<and>
           queue_step L st (Incoming send_ok msg) = Inr (st, [(ch, msg)]) \<and>
           collect_round N A C [Sensor_Message msg, Batch_Timeout] = Some (Inr batch) \<and>
           raw_from A vals = \<lparr>raw_temperature = bws_temperature v, raw_humidity = bws_humidity v,
                                raw_pressure = bws_pressure v\<rparr> \<and>
           (\<forall>err ctx' sent. update_one U I T A err batch ctx = Inr (ctx', sent) \<longrightarrow>
              map_option s_state (bt_get (ctx_sensors ctx') dev) = Some (Connected vals) \<and>
              (bt_get logs (as_u128 U dev) \<noteq> None \<longrightarrow>
                 ctx_log U T ctx' dev = ctx_log U T ctx dev @ [(timestamp_as_u32 A now, raw_from A vals)]))"
proof -
  let ?msg = "report_message now addr v" and ?vals = "report_values A now temperature humidity v"
  have conv: "convert_msg_to_values N A ?msg = Inr ?vals"
    by (rule report_converts [OF assms(1,10,11)])
  obtain batch where batch: "collect_round N A C [Sensor_Message ?msg, Batch_Timeout] = Some (Inr batch)"
    "bt_ok batch" "bt_get batch dev = Some (Connected ?vals)"
    using report_batched [OF conv assms(9)] by blast
  have raw: "raw_from A ?vals = \<lparr>raw_temperature = bws_temperature v, raw_humidity = bws_humidity v,
      raw_pressure = bws_pressure v\<rparr>"
    using assms(2,10,11) by (simp add: raw_from_def report_values_def api_ok_def)
  note upd = batch_updates [OF assms(3,4,5) batch(2,3)]
  have "map_option s_state (bt_get (ctx_sensors ctx') dev) = Some (Connected ?vals) \<and>
      (bt_get logs (as_u128 U dev) \<noteq> None \<longrightarrow>
         ctx_log U T ctx' dev = ctx_log U T ctx dev @ [(timestamp_as_u32 A now, raw_from A ?vals)])"
    if "update_one U I T A err batch ctx = Inr (ctx', sent)" for err ctx' sent
    using upd [OF that] by (simp add: report_values_def)
  moreover have "message_received N True send_ok now addr MAIN_APP_INDEX dest
      (opcode_bytes BleWsSensorValues_opcode @ sensor_values_bytes v) = Inr (Some (Incoming send_ok ?msg))"
    by (rule report_received [OF assms(1,8)])
  moreover have "queue_step L st (Incoming send_ok ?msg) = Inr (st, [(ch, ?msg)])"
    by (rule report_sent [OF assms(6)]) (rule assms(7))
  ultimately show ?thesis using batch raw
    by (intro exI [of _ ?msg] exI [of _ batch] exI [of _ ?vals] conjI) simp_all
qed

definition stream_queue ::
    "(nat \<times> (nat \<times> generic_filter) list, (nat \<times> char subscriber) list, u32) queue_state" where
  "stream_queue =
     \<lparr>qs_messages = [], qs_filters = (1, [(0, sensor_filter)]), qs_subscribers = [(0, Stream CHR ''s'')]\<rparr>"

theorem report_reaches_memory_and_log_witness:
  "\<exists>msg batch.
     message_received nom_reference True (\<lambda>_ _. True) 100 (MeshAddr 5) MAIN_APP_INDEX (Dest_Addr 1)
       (opcode_bytes BleWsSensorValues_opcode @ sensor_values_bytes sample_values) =
         Inr (Some (Incoming (\<lambda>_ :: char. \<lambda>_. True) msg)) \<and>
     collect_round nom_reference api_reference [(MeshAddr 5, 7 :: u128)] [Sensor_Message msg, Batch_Timeout] =
       Some (Inr batch)"
proof -
  have stream: "sensor_stream slots_reference stream_queue CHR ''s''"
    by (simp add: sensor_stream_def stream_queue_def slots_reference_def)
  have dest: "destination_text (Dest_Addr 1) = Inr (mesh_addr_display (MeshAddr 1))" by simp
  have dev: "bt_get [(MeshAddr 5, 7 :: u128)] (MeshAddr 5) = Some 7" by (simp add: bt_get_def)
  have t: "celsius_try_from api_reference (bws_temperature sample_values) = Some 2000"
    and h: "humidity_try_from api_reference (bws_humidity sample_values) = Some 5000"
    by (simp_all add: api_reference_def sample_values_def)
  note all = report_reaches_memory_and_log [where send_ok = "\<lambda>_ _. True" and now = 100,
      OF nom_reference_ok api_reference_ok sample_libs sample_named sample_inv stream TrueI dest dev t h]
  then show ?thesis by (elim exE conjE) (intro exI conjI)
qed

lemma idle_updates:
  assumes "\<forall>op \<in> set ops. \<exists>err update. op = Op_Update err update"
  shows "run_steps (server_step U I L A) (ctx, False) ops = Inr ((ctx, False), [])"
  using assms by (induction ops) auto

lemma unwatched_shutdown: "shutdown False signals \<longleftrightarrow> Terminate \<in> set signals \<or> Interrupt \<in> set signals"
  by (induction "False" signals rule: shutdown.induct) (auto split: if_splits)

text \<open>
  C30: A failed update task leaves a server that goes on without it: after any database error in an
  update, the sensors in memory, and with them every overview, stay as they are whatever updates
  follow, and the error does not end the server, which stops at a signal only.
\<close>

theorem failed_update_goes_unnoticed:
  fixes signals :: "('j, 'e) shutdown_event list"
  assumes "uuid_ok U" and "id_table_ok I"
    and "update_one U I L A err update ctx = Inl (e, ctx1)"
    and "\<forall>op \<in> set later. \<exists>err update. op = Op_Update err update"
  shows "run_steps (server_step U I L A) (ctx, True) (Op_Update err update # later) =
           Inr ((ctx1, False), []) \<and>
         ctx_sensors ctx1 = ctx_sensors ctx \<and>
         (shutdown True (Update_Ended (Inr (Inl e)) # signals) \<longleftrightarrow>
            Terminate \<in> set signals \<or> Interrupt \<in> set signals)"
proof (intro conjI)
  show "run_steps (server_step U I L A) (ctx, True) (Op_Update err update # later) =
      Inr ((ctx1, False), [])"
    using assms(3) idle_updates [OF assms(4), of U I L A ctx1] by simp
  show "ctx_sensors ctx1 = ctx_sensors ctx"
    using update_one_Inl [OF assms(2,1,3)] by simp
  show "shutdown True (Update_Ended (Inr (Inl e)) # signals) \<longleftrightarrow>
      Terminate \<in> set signals \<or> Interrupt \<in> set signals"
    by (simp add: unwatched_shutdown)
qed

theorem failed_update_goes_unnoticed_witness:
  "\<exists>e ctx1. run_steps (server_step uuid_reference id_table_reference log_table_reference api_reference)
       (sample_context, True) [Op_Update (\<lambda>_. Some e) [], Op_Update (\<lambda>_. None) []] =
       Inr ((ctx1, False), [])"
proof -
  have "update_one uuid_reference id_table_reference log_table_reference api_reference
      (\<lambda>_. Some e) [] sample_context = Inl (Heed e, sample_context)" for e
    by (simp add: update_one_def update_find_def read_txn_def)
  from failed_update_goes_unnoticed [OF uuid_reference_ok id_table_reference_ok this,
      of "[Op_Update (\<lambda>_. None) []]"]
  show ?thesis by simp blast
qed

end
