(* ===== verification/Standstill.thy ===== *)
theory Standstill
  imports Pipeline
begin

text \<open>
  The tasks of the mesh side as they wait for each other over their channels of capacity one:
  the D-Bus thread that pushes messages, the message queue, the mesh loop and the collection
  task (\<open>src/mesh/mod.rs\<close>, \<open>src/mesh/message_queue.rs\<close>). One step is one turn of one task. It
  shows that the four can wait for each other for ever, and what a receiver that is gone does
  to the queue.

  \<open>mesh_step\<close> is an abstraction of \<open>LoopCtx::run\<close> and of the queue's task, not a translation of
  them. It has the sends to and the receives from the channels between the tasks and leaves out
  what else the loop waits for: the D-Bus calls of its arms and, at the end of the \<open>NodeAdded\<close>
  arm, the write lock of the connected nodes, which the collection task reads while it collects.
  Each of these can only make the loop wait longer or end it, so what the tasks do on their
  channels in a run of the program, as long as no receiver is gone, is a run of \<open>mesh_step\<close>, and
  what no run of \<open>mesh_step\<close> does, as to go on after the standstill, no run of the program does.
  The run that leads to the standstill is one of the program when the daemon answers the two
  calls of the \<open>NodeAdded\<close> arm before its first wait. The turns of the queue are \<open>queue_step\<close> itself, the calls of the arms are
  in \<open>Mesh_Loop\<close>.
\<close>

section \<open>Tasks and channels\<close>

text \<open>
  The queue task is in its \<open>select!\<close> or sends what a turn produced; a panic ends it.
\<close>

datatype ('q, 'c, 't) queue_task = Selecting 'q | Sending 'q "('c, 't) outputs" | Queue_Panicked panic

text \<open>
  The mesh loop is in its \<open>select!\<close>, sends the subscription of a \<open>pull_msg\<close> or waits for its
  answer.
\<close>

datatype 'c loop_task = Loop_Selecting | Subscribing generic_filter 'c | Awaiting_Reply 'c

datatype collection_task = Awaiting_Trigger | Collecting

record ('q, 'c, 't) mesh_state =
  queue_task :: "('q, 'c, 't) queue_task"
  loop_task :: "'c loop_task"
  collection_task :: collection_task
  msg_channel :: "'t generic_message list"
  subscription_channel :: "(generic_filter \<times> 'c subscriber) list"
  sensor_channel :: "'t generic_message list"
  trigger_channel :: nat
  replies :: "('c, 't) outputs"

text \<open>\<open>sensors\<close> is the channel of the sensor subscription; all receivers are alive.\<close>

inductive mesh_step ::
    "('k, 'm, 's, 'c) slots \<Rightarrow> 'c \<Rightarrow> (('m, 's, 't) queue_state, 'c, 't) mesh_state \<Rightarrow>
     (('m, 's, 't) queue_state, 'c, 't) mesh_state \<Rightarrow> bool"
  for L and sensors where
  daemon_pushes: "msg_channel s = [] \<Longrightarrow> mesh_step L sensors s (s\<lparr>msg_channel := [msg]\<rparr>)"
| queue_message:
    "queue_task s = Selecting st \<Longrightarrow> msg_channel s = msg # msgs \<Longrightarrow>
     queue_step L st (Incoming (\<lambda>_ _. True) msg) = Inr (st', outs) \<Longrightarrow>
     mesh_step L sensors s (s\<lparr>msg_channel := msgs, queue_task := Sending st' outs\<rparr>)"
| queue_subscription:
    "queue_task s = Selecting st \<Longrightarrow> subscription_channel s = (flt, sub) # subs \<Longrightarrow>
     queue_step L st (Subscribe (\<lambda>_ _. True) flt sub) = Inr (st', outs) \<Longrightarrow>
     mesh_step L sensors s (s\<lparr>subscription_channel := subs, queue_task := Sending st' outs\<rparr>)"
| queue_message_panics:
    "queue_task s = Selecting st \<Longrightarrow> msg_channel s = msg # msgs \<Longrightarrow>
     queue_step L st (Incoming (\<lambda>_ _. True) msg) = Inl p \<Longrightarrow>
     mesh_step L sensors s (s\<lparr>msg_channel := msgs, queue_task := Queue_Panicked p\<rparr>)"
| queue_subscription_panics:
    "queue_task s = Selecting st \<Longrightarrow> subscription_channel s = (flt, sub) # subs \<Longrightarrow>
     queue_step L st (Subscribe (\<lambda>_ _. True) flt sub) = Inl p \<Longrightarrow>
     mesh_step L sensors s (s\<lparr>subscription_channel := subs, queue_task := Queue_Panicked p\<rparr>)"
| queue_sends_report:
    "queue_task s = Sending st ((sensors, msg) # outs) \<Longrightarrow> sensor_channel s = [] \<Longrightarrow>
     mesh_step L sensors s (s\<lparr>sensor_channel := [msg], queue_task := Sending st outs\<rparr>)"
| queue_sends_reply:
    "queue_task s = Sending st ((ch, msg) # outs) \<Longrightarrow> ch \<noteq> sensors \<Longrightarrow>
     mesh_step L sensors s (s\<lparr>replies := replies s @ [(ch, msg)], queue_task := Sending st outs\<rparr>)"
| queue_sent:
    "queue_task s = Sending st [] \<Longrightarrow> mesh_step L sensors s (s\<lparr>queue_task := Selecting st\<rparr>)"
| loop_ticks:
    "loop_task s = Loop_Selecting \<Longrightarrow> trigger_channel s = 0 \<Longrightarrow>
     mesh_step L sensors s (s\<lparr>trigger_channel := 1\<rparr>)"
| loop_pulls:
    "loop_task s = Loop_Selecting \<Longrightarrow> ch \<noteq> sensors \<Longrightarrow>
     mesh_step L sensors s (s\<lparr>loop_task := Subscribing flt ch\<rparr>)"
| loop_subscribes:
    "loop_task s = Subscribing flt ch \<Longrightarrow> subscription_channel s = [] \<Longrightarrow>
     mesh_step L sensors s
       (s\<lparr>subscription_channel := [(flt, Oneshot (Some ch))], loop_task := Awaiting_Reply ch\<rparr>)"
| loop_answered:
    "loop_task s = Awaiting_Reply ch \<Longrightarrow> (ch, msg) \<in> set (replies s) \<Longrightarrow>
     mesh_step L sensors s (s\<lparr>loop_task := Loop_Selecting\<rparr>)"
| collector_triggered:
    "collection_task s = Awaiting_Trigger \<Longrightarrow> trigger_channel s = Suc n \<Longrightarrow>
     mesh_step L sensors s (s\<lparr>trigger_channel := n, collection_task := Collecting\<rparr>)"
| collector_receives:
    "collection_task s = Collecting \<Longrightarrow> sensor_channel s = msg # msgs \<Longrightarrow>
     mesh_step L sensors s (s\<lparr>sensor_channel := msgs\<rparr>)"
| collector_done:
    "collection_task s = Collecting \<Longrightarrow> mesh_step L sensors s (s\<lparr>collection_task := Awaiting_Trigger\<rparr>)"

text \<open>Each channel holds at most one value, as it was made with capacity one.\<close>

definition channels_bounded :: "('q, 'c, 't) mesh_state \<Rightarrow> bool" where
  "channels_bounded s \<longleftrightarrow>
     length (msg_channel s) \<le> 1 \<and> length (subscription_channel s) \<le> 1 \<and>
     length (sensor_channel s) \<le> 1 \<and> trigger_channel s \<le> 1"

lemma channels_bounded_step:
  "channels_bounded s \<Longrightarrow> mesh_step L sensors s s' \<Longrightarrow> channels_bounded s'"
  by (erule mesh_step.cases) (auto simp: channels_bounded_def)

interpretation mesh: kept "mesh_step L sensors" channels_bounded for L sensors
  by unfold_locales (rule channels_bounded_step)

lemmas then_step = rtranclp.rtrancl_into_rtrancl

section \<open>Going on\<close>

text \<open>
  As long as the loop is in its \<open>select!\<close> nothing stands still for good: a tick triggers the
  collection task, which empties the sensor channel, so the queue can finish its turn.
\<close>

lemma collector_can_start:
  assumes "loop_task s = Loop_Selecting"
  shows "\<exists>s'. (mesh_step L sensors)\<^sup>*\<^sup>* s s' \<and> collection_task s' = Collecting \<and>
           sensor_channel s' = sensor_channel s \<and> queue_task s' = queue_task s \<and>
           loop_task s' = Loop_Selecting"
proof (cases "collection_task s")
  case Collecting
  then show ?thesis using assms by (intro exI [of _ s]) simp
next
  case Awaiting_Trigger
  have tick: "(mesh_step L sensors)\<^sup>*\<^sup>* s (s\<lparr>trigger_channel := max 1 (trigger_channel s)\<rparr>)"
  proof (cases "trigger_channel s")
    case 0
    then show ?thesis using loop_ticks [OF assms 0, of L sensors] by simp
  next
    case (Suc n)
    then have "s\<lparr>trigger_channel := max 1 (trigger_channel s)\<rparr> = s" by simp
    then show ?thesis by (simp only: rtranclp.rtrancl_refl)
  qed
  obtain n where n: "max 1 (trigger_channel s) = Suc n" by (cases "trigger_channel s") simp_all
  let ?s' = "s\<lparr>trigger_channel := n, collection_task := Collecting\<rparr>"
  have "mesh_step L sensors (s\<lparr>trigger_channel := max 1 (trigger_channel s)\<rparr>) ?s'"
    using collector_triggered [of "s\<lparr>trigger_channel := max 1 (trigger_channel s)\<rparr>" n L sensors]
      Awaiting_Trigger n by simp
  then show ?thesis using then_step [OF tick] assms by (intro exI [of _ ?s'] conjI) simp_all
qed

lemma sensor_channel_can_empty:
  assumes "channels_bounded s" and "loop_task s = Loop_Selecting"
  shows "\<exists>s'. (mesh_step L sensors)\<^sup>*\<^sup>* s s' \<and> sensor_channel s' = [] \<and>
           queue_task s' = queue_task s \<and> loop_task s' = Loop_Selecting"
proof (cases "sensor_channel s")
  case Nil
  then show ?thesis using assms by (intro exI [of _ s]) simp
next
  case (Cons msg msgs)
  have msgs: "msgs = []" using assms(1) Cons by (simp add: channels_bounded_def)
  obtain s' where s': "(mesh_step L sensors)\<^sup>*\<^sup>* s s'" "collection_task s' = Collecting"
    "sensor_channel s' = [msg]" "queue_task s' = queue_task s" "loop_task s' = Loop_Selecting"
    using collector_can_start [OF assms(2), of L sensors] Cons msgs by (elim exE conjE) (rule that, simp_all)
  show ?thesis
    using then_step [OF s'(1) collector_receives [OF s'(2,3)]] s'(4,5)
    by (intro exI [of _ "s'\<lparr>sensor_channel := []\<rparr>"] conjI) simp_all
qed

lemma queue_can_go_on:
  assumes "channels_bounded s" and "loop_task s = Loop_Selecting" and "queue_task s = Sending st outs"
  shows "\<exists>s'. (mesh_step L sensors)\<^sup>*\<^sup>* s s' \<and> queue_task s' = Selecting st \<and>
           loop_task s' = Loop_Selecting"
  using assms
proof (induction outs arbitrary: s)
  case Nil
  have "mesh_step L sensors s (s\<lparr>queue_task := Selecting st\<rparr>)" by (rule queue_sent) (rule Nil)
  then show ?case using Nil by (intro exI [of _ "s\<lparr>queue_task := Selecting st\<rparr>"] conjI) auto
next
  case (Cons out outs)
  obtain ch msg where out: "out = (ch, msg)" by force
  have "\<exists>s1. (mesh_step L sensors)\<^sup>*\<^sup>* s s1 \<and> queue_task s1 = Sending st outs \<and>
      loop_task s1 = Loop_Selecting"
  proof (cases "ch = sensors")
    case True
    obtain s' where s': "(mesh_step L sensors)\<^sup>*\<^sup>* s s'" "sensor_channel s' = []"
      "queue_task s' = Sending st ((sensors, msg) # outs)" "loop_task s' = Loop_Selecting"
      using sensor_channel_can_empty [OF Cons.prems(1,2), of L sensors] Cons.prems(3) out True
      by (elim exE conjE) (rule that, simp_all)
    show ?thesis
      using then_step [OF s'(1) queue_sends_report [OF s'(3,2)]] s'(4)
      by (intro exI [of _ "s'\<lparr>sensor_channel := [msg], queue_task := Sending st outs\<rparr>"] conjI) simp_all
  next
    case False
    have "mesh_step L sensors s (s\<lparr>replies := replies s @ [(ch, msg)], queue_task := Sending st outs\<rparr>)"
      using Cons.prems(3) False out by (intro queue_sends_reply) simp_all
    then show ?thesis
      using Cons.prems(2)
      by (intro exI [of _ "s\<lparr>replies := replies s @ [(ch, msg)], queue_task := Sending st outs\<rparr>"] conjI) auto
  qed
  then obtain s1 where s1: "(mesh_step L sensors)\<^sup>*\<^sup>* s s1" "queue_task s1 = Sending st outs"
    "loop_task s1 = Loop_Selecting"
    by (elim exE conjE) (rule that)
  have "channels_bounded s1" by (rule mesh.for_ever [OF Cons.prems(1) s1(1)])
  from Cons.IH [OF this s1(3,2)] show ?case
    using rtranclp_trans [OF s1(1)] by (elim exE conjE) (intro exI conjI)
qed

section \<open>Standing still\<close>

text \<open>
  Each of the three tasks waits for the next one: the loop for an answer of the queue, the queue
  for a place in the sensor channel, the collection task for a trigger of the loop.
\<close>

definition standstill ::
    "'c \<Rightarrow> 'c \<Rightarrow> 't generic_message \<Rightarrow> ('q, 'c, 't) mesh_state \<Rightarrow> bool" where
  "standstill sensors ch msg s \<longleftrightarrow>
     loop_task s = Awaiting_Reply ch \<and> (\<forall>m. (ch, m) \<notin> set (replies s)) \<and>
     (\<exists>st outs. queue_task s = Sending st ((sensors, msg) # outs)) \<and> sensor_channel s \<noteq> [] \<and>
     collection_task s = Awaiting_Trigger \<and> trigger_channel s = 0"

lemma standstill_step:
  assumes "standstill sensors ch msg s" and "mesh_step L sensors s s'"
  shows "standstill sensors ch msg s'"
  using assms(2,1) by (cases rule: mesh_step.cases) (auto simp: standstill_def)

interpretation still: kept "mesh_step L sensors" "standstill sensors ch msg" for L sensors ch msg
  by unfold_locales (rule standstill_step)

text \<open>A report from the daemon takes the queue into the sending of it.\<close>

lemma report_to_queue:
  assumes "queue_task s = Selecting st" and "msg_channel s = []" and "sensor_stream L st sensors"
  shows "(mesh_step L sensors)\<^sup>*\<^sup>* s
           (s\<lparr>msg_channel := [], queue_task := Sending st [(sensors, report_message now addr v)]\<rparr>)"
proof -
  let ?m = "report_message now addr v"
  have push: "mesh_step L sensors s (s\<lparr>msg_channel := [?m]\<rparr>)" (is "mesh_step L sensors s ?s1")
    using assms(2) by (rule daemon_pushes)
  have take: "mesh_step L sensors ?s1
      (?s1\<lparr>msg_channel := [], queue_task := Sending st [(sensors, ?m)]\<rparr>)"
    using assms(1) report_sent [OF assms(3), of "\<lambda>_ _. True"] by (intro queue_message) simp_all
  show ?thesis
    using then_step [OF r_into_rtranclp [where r = "mesh_step L sensors", OF push] take] by simp
qed

lemma report_through:
  assumes "queue_task s = Selecting st" and "msg_channel s = []" and "sensor_stream L st sensors"
    and "sensor_channel s = []"
  shows "(mesh_step L sensors)\<^sup>*\<^sup>* s
           (s\<lparr>msg_channel := [], sensor_channel := [report_message now addr v], queue_task := Selecting st\<rparr>)"
proof -
  let ?m = "report_message now addr v"
  let ?s1 = "s\<lparr>msg_channel := [], queue_task := Sending st [(sensors, ?m)]\<rparr>"
  let ?s2 = "?s1\<lparr>sensor_channel := [?m], queue_task := Sending st []\<rparr>"
  have put: "mesh_step L sensors ?s1 ?s2"
    using assms(4) by (intro queue_sends_report) simp_all
  have ready: "mesh_step L sensors ?s2 (?s2\<lparr>queue_task := Selecting st\<rparr>)"
    by (rule queue_sent) simp
  show ?thesis
    using then_step [OF then_step [OF report_to_queue [OF assms(1-3)] put] ready] by simp
qed

definition standing :: "'c \<Rightarrow> 'c \<Rightarrow> ('q, 'c, 't) mesh_state \<Rightarrow> bool" where
  "standing sensors ch s \<longleftrightarrow>
     loop_task s = Awaiting_Reply ch \<and> collection_task s = Awaiting_Trigger \<and>
     trigger_channel s = 0 \<and> (\<nexists>st. queue_task s = Selecting st)"

lemma standstill_for_ever:
  assumes "standstill sensors ch msg s" and "(mesh_step L sensors)\<^sup>*\<^sup>* s s'"
  shows "standing sensors ch s'"
  using still.for_ever [OF assms] by (auto simp: standstill_def standing_def)

section \<open>Properties\<close>

text \<open>
  C7: Two reports between two ticks can stop the mesh side for ever. When everything is idle and the
  collection task waits for its trigger, two reports fill the sensor channel and leave the
  queue waiting; if a node is added then, the loop's wait for the node's answer never ends,
  whatever the tasks and the daemon do from there: the loop triggers no more collection, the
  collection task empties no channel, and the queue takes neither messages nor subscriptions.
\<close>

theorem late_reports_stop_the_mesh:
  assumes "sensor_stream L st sensors" and "ch \<noteq> sensors"
    and "queue_task s = Selecting st" and "loop_task s = Loop_Selecting"
    and "collection_task s = Awaiting_Trigger" and "trigger_channel s = 0"
    and "msg_channel s = []" and "subscription_channel s = []" and "sensor_channel s = []"
    and "\<forall>m. (ch, m) \<notin> set (replies s)"
  shows "\<exists>s'. (mesh_step L sensors)\<^sup>*\<^sup>* s s' \<and>
           subscription_channel s' = [(flt, Oneshot (Some ch))] \<and>
           sensor_channel s' = [report_message now1 addr1 v1] \<and>
           (\<forall>s''. (mesh_step L sensors)\<^sup>*\<^sup>* s' s'' \<longrightarrow>
              loop_task s'' = Awaiting_Reply ch \<and> collection_task s'' = Awaiting_Trigger \<and>
              trigger_channel s'' = 0 \<and> (\<nexists>st. queue_task s'' = Selecting st))"
proof -
  let ?s1 = "s\<lparr>msg_channel := [], sensor_channel := [report_message now1 addr1 v1],
               queue_task := Selecting st\<rparr>"
  let ?s2 = "?s1\<lparr>msg_channel := [], queue_task := Sending st [(sensors, report_message now2 addr2 v2)]\<rparr>"
  let ?s3 = "?s2\<lparr>loop_task := Subscribing flt ch\<rparr>"
  let ?s4 = "?s3\<lparr>subscription_channel := [(flt, Oneshot (Some ch))], loop_task := Awaiting_Reply ch\<rparr>"
  have first: "(mesh_step L sensors)\<^sup>*\<^sup>* s ?s1" by (rule report_through [OF assms(3,7,1,9)])
  have second: "(mesh_step L sensors)\<^sup>*\<^sup>* ?s1 ?s2"
    using assms(1) by (intro report_to_queue) simp_all
  have pull: "mesh_step L sensors ?s2 ?s3"
    using assms(2,4) by (intro loop_pulls) simp_all
  have sub: "mesh_step L sensors ?s3 ?s4"
    using assms(8) by (intro loop_subscribes) simp_all
  have run: "(mesh_step L sensors)\<^sup>*\<^sup>* s ?s4"
    by (rule then_step [OF then_step [OF rtranclp_trans [OF first second] pull] sub])
  have "standstill sensors ch (report_message now2 addr2 v2) ?s4"
    using assms by (simp add: standstill_def)
  then have "\<forall>s''. (mesh_step L sensors)\<^sup>*\<^sup>* ?s4 s'' \<longrightarrow> standing sensors ch s''"
    by (intro allI impI) (rule standstill_for_ever)
  then show ?thesis
    unfolding standing_def by (intro exI [of _ ?s4] conjI run) simp_all
qed

definition idle_mesh ::
    "((nat \<times> (nat \<times> generic_filter) list, (nat \<times> char subscriber) list, u32) queue_state, char, u32) mesh_state" where
  "idle_mesh = \<lparr>queue_task = Selecting stream_queue, loop_task = Loop_Selecting,
     collection_task = Awaiting_Trigger, msg_channel = [], subscription_channel = [],
     sensor_channel = [], trigger_channel = 0, replies = []\<rparr>"

theorem late_reports_stop_the_mesh_witness:
  "\<exists>s. (mesh_step slots_reference CHR ''s'')\<^sup>*\<^sup>* idle_mesh s \<and>
       (\<forall>s'. (mesh_step slots_reference CHR ''s'')\<^sup>*\<^sup>* s s' \<longrightarrow> loop_task s' = Awaiting_Reply CHR ''r'')"
proof -
  have stream: "sensor_stream slots_reference stream_queue CHR ''s''"
    by (simp add: sensor_stream_def stream_queue_def slots_reference_def)
  have "CHR ''r'' \<noteq> CHR ''s''" by simp
  from late_reports_stop_the_mesh [OF stream this, of idle_mesh]
  show ?thesis by (simp add: idle_mesh_def) blast
qed

definition SEND_FAILED :: panic where
  "SEND_FAILED = Todo ''Closed tx, need to implement retry logic looping over filters''"

text \<open>The stream subscriptions in a multiset of waiting ones; no turn of the queue takes one out.\<close>

fun is_stream :: "'c subscriber \<Rightarrow> bool" where
  "is_stream (Stream ch) = True"
| "is_stream (Oneshot tx) = False"

definition streams ::
    "(generic_filter \<times> 'c subscriber) multiset \<Rightarrow> (generic_filter \<times> 'c subscriber) multiset" where
  "streams W = filter_mset (\<lambda>(_, sub). is_stream sub) W"

lemma streams_simps [simp]:
  "streams {#} = {#}"
  "streams (add_mset (flt, Stream ch) W) = add_mset (flt, Stream ch) (streams W)"
  "streams (add_mset (flt, Oneshot tx) W) = streams W"
  "streams (W + W') = streams W + streams W'"
  by (simp_all add: streams_def)

lemma incoming_streams:
  assumes inv: "queue_inv L st" and step: "queue_step L st (Incoming send_ok msg) = Inr (st', outs)"
  shows "streams (waiting L st') = streams (waiting L st)"
proof (cases "match_filter L st msg")
  case None
  then show ?thesis using step by auto
next
  case (Some k)
  then obtain f where kf: "(k, f) \<in> set (filters_iter L (qs_filters st))"
    using match_filter_Some [OF Some] by (elim exE conjE) (rule that)
  note rm = queue_inv_remove(2) [OF inv kf]
  show ?thesis
    using step Some rm by (auto split: option.splits subscriber.splits if_splits)
qed

lemma queue_step_streams:
  assumes inv: "queue_inv L st" and step: "queue_step L st e = Inr (st', outs)"
  shows "streams (waiting L st') = streams (waiting L st) + streams (mset (subscribed e))"
proof (cases e)
  case (Incoming send_ok msg)
  then show ?thesis using incoming_streams [OF inv, of send_ok msg] step by simp
next
  case (Subscribe send_ok f chan)
  show ?thesis
  proof (cases chan)
    case (Oneshot tx)
    show ?thesis
      by (rule try_pull_one_cases [of st f send_ok tx])
         (use inv step Subscribe Oneshot in \<open>auto simp: queue_inv_add\<close>)
  next
    case (Stream tx)
    then show ?thesis
      using inv step Subscribe by (auto simp: result_iff try_pull_many_def queue_inv_add)
  qed
qed

lemma queue_run_streams:
  assumes "queue_inv L st" and "run_steps (queue_step L) st es = Inr (st', outs)"
  shows "streams (waiting L st') =
           streams (waiting L st) + streams (mset (concat (List.map subscribed es)))"
  using assms
proof (induction es arbitrary: st outs)
  case (Cons e es)
  then obtain st1 outs1 outs2 where step: "queue_step L st e = Inr (st1, outs1)"
    and rest: "run_steps (queue_step L) st1 es = Inr (st', outs2)"
    by (auto simp: result_iff)
  show ?case
    using queue_step_streams [OF Cons.prems(1) step]
      Cons.IH [OF queue_step_inv [OF Cons.prems(1) step] rest] by simp
qed simp

text \<open>A message that finds a stream whose receiver is gone first panics the queue.\<close>

lemma gone_receiver_panics:
  assumes "match_filter L st msg = Some k" and "subs_get L (qs_subscribers st) k = Some (Stream ch)"
    and "\<not> send_ok ch msg"
  shows "queue_step L st (Incoming send_ok msg) = Inl SEND_FAILED"
  using assms by (simp add: SEND_FAILED_def)

lemma find_first:
  "\<forall>x \<in> set xs. \<not> P x \<Longrightarrow> P y \<Longrightarrow> List.find P (xs @ y # ys) = Some y"
  by (induction xs) auto

lemma all_receivers_gone:
  assumes inv: "queue_inv L st" and some: "(f, sub) \<in># waiting L st" "is_match f msg"
    and gone: "\<forall>(f, sub) \<in># waiting L st. is_match f msg \<longrightarrow> (\<exists>ch. sub = Stream ch \<and> \<not> send_ok ch msg)"
  shows "queue_step L st (Incoming send_ok msg) = Inl SEND_FAILED"
proof -
  obtain k where k: "match_filter L st msg = Some k"
    using match_filter_None [of L st msg] some by (cases "match_filter L st msg") auto
  then obtain g where g: "(k, g) \<in> set (filters_iter L (qs_filters st))" "is_match g msg"
    using match_filter_Some [OF k] by (elim exE conjE) (rule that)
  obtain s where s: "subs_get L (qs_subscribers st) k = Some s"
    using inv g(1) by (force simp: queue_inv_def)
  have "(g, s) \<in># waiting L st" using queue_inv_remove(2) [OF inv g(1)] s by simp
  then obtain ch where "s = Stream ch" "\<not> send_ok ch msg" using gone g(2) by auto
  then show ?thesis using gone_receiver_panics [OF k] s by simp
qed

text \<open>
  C36: An error of the mesh loop leaves a subscription behind that ends the queue. Once a loop has
  subscribed to the reports, its subscription is still there after any run that does not panic,
  whatever the queue handles and whoever subscribes again: the waiting streams are exactly all
  that ever subscribed, so a restarted loop's subscription comes beside the old one and does
  not replace it. When the receivers of all subscriptions a report matches are gone, as after
  the error until the restart, the report panics the queue; and so it does after the restart
  when the slot map visits the old subscription before the others that match.
\<close>

theorem stale_subscription_stops_queue:
  assumes "slots_ok L" and "run_steps (queue_step L) (queue_default L) es = Inr (st, outs)"
    and "(sensor_filter, Stream old) \<in> set (concat (List.map subscribed es))"
    and "\<not> send_ok old (report_message now addr v)"
  shows "(sensor_filter, Stream old) \<in># waiting L st \<and>
         streams (waiting L st) = streams (mset (concat (List.map subscribed es))) \<and>
         ((\<forall>(f, sub) \<in># waiting L st. is_match f (report_message now addr v) \<longrightarrow>
             (\<exists>ch. sub = Stream ch \<and> \<not> send_ok ch (report_message now addr v))) \<longrightarrow>
          queue_step L st (Incoming send_ok (report_message now addr v)) = Inl SEND_FAILED) \<and>
         (\<forall>xs k ys. filters_iter L (qs_filters st) = xs @ (k, sensor_filter) # ys \<and>
             subs_get L (qs_subscribers st) k = Some (Stream old) \<and>
             (\<forall>(k, f) \<in> set xs. \<not> is_match f (report_message now addr v)) \<longrightarrow>
          queue_step L st (Incoming send_ok (report_message now addr v)) = Inl SEND_FAILED)"
proof -
  let ?m = "report_message now addr v"
  have init: "queue_inv L (queue_default L)" by (rule queue_inv_default [OF assms(1)])
  have inv: "queue_inv L st" using queue.inv_run [OF init _ assms(2)] by simp
  have all: "streams (waiting L st) = streams (mset (concat (List.map subscribed es)))"
    using queue_run_streams [OF init assms(2)] by (simp add: waiting_default [OF assms(1)])
  have "(sensor_filter, Stream old) \<in># streams (mset (concat (List.map subscribed es)))"
    using assms(3) by (simp add: streams_def)
  then have stays: "(sensor_filter, Stream old) \<in># waiting L st"
    unfolding all [symmetric] by (simp add: streams_def)
  have "queue_step L st (Incoming send_ok ?m) = Inl SEND_FAILED"
    if "filters_iter L (qs_filters st) = xs @ (k, sensor_filter) # ys"
      "subs_get L (qs_subscribers st) k = Some (Stream old)"
      "\<forall>(k, f) \<in> set xs. \<not> is_match f ?m" for xs k ys
  proof -
    have "List.find (\<lambda>(_, flt). is_match flt ?m) (xs @ (k, sensor_filter) # ys) = Some (k, sensor_filter)"
      by (rule find_first) (use that(3) in auto, simp add: sensor_filter_matches)
    then have "match_filter L st ?m = Some k" by (simp add: match_filter_def that(1))
    then show ?thesis
      by (rule gone_receiver_panics [where send_ok = send_ok and ch = old]) (rule that(2) assms(4))+
  qed
  with stays all all_receivers_gone [where send_ok = send_ok, OF inv stays sensor_filter_matches] show ?thesis
    by (intro conjI impI allI) (assumption | simp)+
qed

text \<open>Two loops have subscribed, the receiver of the first one is gone.\<close>

theorem stale_subscription_stops_queue_witness:
  "\<exists>st. run_steps (queue_step slots_reference) (queue_default slots_reference)
          [Subscribe (\<lambda>_ _. True) sensor_filter (Stream CHR ''s''),
           Subscribe (\<lambda>_ _. True) sensor_filter (Stream CHR ''t'')] = Inr (st, []) \<and>
     (sensor_filter, Stream CHR ''s'') \<in># waiting slots_reference st \<and>
     queue_step slots_reference st
       (Incoming (\<lambda>ch _. ch \<noteq> CHR ''s'') (report_message (100 :: u32) (MeshAddr 5) sample_values)) =
       Inl SEND_FAILED"
proof -
  let ?es = "[Subscribe (\<lambda>_ _. True) sensor_filter (Stream CHR ''s''),
              Subscribe (\<lambda>_ _. True) sensor_filter (Stream CHR ''t'')]
    :: (char, u32) queue_event list"
  let ?st = "\<lparr>qs_messages = [], qs_filters = (2, [(0, sensor_filter), (1, sensor_filter)]),
              qs_subscribers = [(1, Stream CHR ''t''), (0, Stream CHR ''s'')]\<rparr>
    :: (nat \<times> (nat \<times> generic_filter) list, (nat \<times> char subscriber) list, u32) queue_state"
  have run: "run_steps (queue_step slots_reference) (queue_default slots_reference) ?es = Inr (?st, [])"
    by (simp add: queue_default_def slots_reference_def try_pull_many_def iter_filter_def
        add_subscriber_def)
  have old: "(sensor_filter, Stream CHR ''s'') \<in> set (concat (List.map subscribed ?es))" by simp
  have gone: "\<not> CHR ''s'' \<noteq> CHR ''s''" by simp
  note stale = stale_subscription_stops_queue [OF slots_reference_ok run old,
      where send_ok = "\<lambda>ch _. ch \<noteq> CHR ''s''" and now = 100 and addr = "MeshAddr 5" and v = sample_values,
      OF gone]
  have first: "filters_iter slots_reference (qs_filters ?st) = [] @ (0, sensor_filter) # [(1, sensor_filter)]"
    "subs_get slots_reference (qs_subscribers ?st) 0 = Some (Stream CHR ''s'')"
    by (simp_all add: slots_reference_def)
  have "queue_step slots_reference ?st
      (Incoming (\<lambda>ch _. ch \<noteq> CHR ''s'') (report_message 100 (MeshAddr 5) sample_values)) = Inl SEND_FAILED"
    using stale [THEN conjunct2, THEN conjunct2, THEN conjunct2, rule_format,
        of "[]" 0 "[(1, sensor_filter)]"] first
    by simp
  then show ?thesis
    using run stale [THEN conjunct1] by (intro exI [of _ ?st] conjI)
qed

end
