(* ===== verification/Changes.thy ===== *)
theory Changes
  imports Server
begin

text \<open>
  The subscription to changes, \<open>subscribe_to_changes\<close> in \<open>src/rpc.rs\<close>: the stream of
  overviews a client gets from the broadcast channel of the context. \<open>tokio\<close>'s channel is a
  parameter; when values are broadcast and when the client's stream is polled is a list of
  events.
\<close>

section \<open>The broadcast channel\<close>

text \<open>
  \<open>bc_recv cap sent pos\<close> is what a receiver gets that has already taken \<open>pos\<close> of the values
  \<open>sent\<close> since it subscribed: a value, or how many it has missed, and its new position.
\<close>

record 'o broadcast =
  bc_recv :: "nat \<Rightarrow> 'o list \<Rightarrow> nat \<Rightarrow> (nat + 'o) \<times> nat"

text \<open>
  The documented behaviour: the channel keeps the last \<open>cap\<close> values; a receiver that still can
  have its next value gets it, one that cannot is told how many it missed and goes on with the
  oldest value that is kept.
\<close>

definition broadcast_ok :: "'o broadcast \<Rightarrow> bool" where
  "broadcast_ok B \<longleftrightarrow>
     (\<forall>cap sent pos. 0 < cap \<longrightarrow> pos < length sent \<longrightarrow>
        bc_recv B cap sent pos =
          (if length sent - pos \<le> cap then (Inr (sent ! pos), Suc pos)
           else (Inl (length sent - cap - pos), length sent - cap)))"

definition broadcast_reference :: "'o broadcast" where
  "broadcast_reference = \<lparr>bc_recv = (\<lambda>cap sent pos.
     if length sent - pos \<le> cap then (Inr (sent ! pos), Suc pos)
     else (Inl (length sent - cap - pos), length sent - cap))\<rparr>"

lemma broadcast_reference_ok: "broadcast_ok broadcast_reference"
  by (simp add: broadcast_ok_def broadcast_reference_def)

section \<open>The handler\<close>

text \<open>The capacity \<open>Context::create\<close> asks for.\<close>

definition BROADCAST_CAPACITY :: nat where
  "BROADCAST_CAPACITY = 1"

datatype 'o change_event = Broadcast 'o | Polled

text \<open>A poll of the stream takes one item when there is one; a missed value is an error status.\<close>

fun subscribe_to_changes ::
    "'o broadcast \<Rightarrow> 'o list \<Rightarrow> nat \<Rightarrow> 'o change_event list \<Rightarrow> (rpc_status + 'o) list" where
  "subscribe_to_changes B sent pos [] = []"
| "subscribe_to_changes B sent pos (Broadcast resp # events) =
     subscribe_to_changes B (sent @ [resp]) pos events"
| "subscribe_to_changes B sent pos (Polled # events) =
     (if pos < length sent
      then (let (item, pos) = bc_recv B BROADCAST_CAPACITY sent pos
            in map_sum (\<lambda>_. Status_Internal ''tx dropped'') (\<lambda>resp. resp) item #
               subscribe_to_changes B sent pos events)
      else subscribe_to_changes B sent pos events)"

section \<open>What a client sees\<close>

definition broadcasts :: "'o change_event list \<Rightarrow> 'o list" where
  "broadcasts events =
     List.map_filter (\<lambda>e. case e of Broadcast resp \<Rightarrow> Some resp | Polled \<Rightarrow> None) events"

lemma broadcasts_simps [simp]:
  "broadcasts [] = []"
  "broadcasts (Broadcast resp # events) = resp # broadcasts events"
  "broadcasts (Polled # events) = broadcasts events"
  by (simp_all add: broadcasts_def List.map_filter_simps)

text \<open>The client polls at least once between any two broadcasts.\<close>

fun keeps_up :: "bool \<Rightarrow> 'o change_event list \<Rightarrow> bool" where
  "keeps_up behind [] \<longleftrightarrow> True"
| "keeps_up behind (Broadcast resp # events) \<longleftrightarrow> \<not> behind \<and> keeps_up True events"
| "keeps_up behind (Polled # events) \<longleftrightarrow> keeps_up False events"

lemma keeping_up_sees_all:
  assumes "broadcast_ok B" and "keeps_up (pos < length sent) events"
    and "length sent \<le> Suc pos" and "pos \<le> length sent"
  shows "subscribe_to_changes B sent pos (events @ [Polled]) =
           List.map Inr (drop pos sent @ broadcasts events)"
  using assms(2-4)
proof (induction events arbitrary: sent pos)
  case Nil
  then show ?case
    using assms(1)
    by (auto simp: broadcast_ok_def BROADCAST_CAPACITY_def Cons_nth_drop_Suc [symmetric])
next
  case (Cons e events)
  then show ?case
    using assms(1)
    by (cases e)
       (auto simp: broadcast_ok_def BROADCAST_CAPACITY_def Cons_nth_drop_Suc [symmetric] not_less)
qed

lemma falling_behind_is_told:
  assumes "broadcast_ok B" and "\<not> keeps_up (pos < length sent) events \<or> Suc pos < length sent"
    and "pos \<le> length sent"
  shows "Inl (Status_Internal ''tx dropped'') \<in>
           set (subscribe_to_changes B sent pos (events @ [Polled]))"
  using assms(2,3)
proof (induction events arbitrary: sent pos)
  case Nil
  then show ?case using assms(1) by (auto simp: broadcast_ok_def BROADCAST_CAPACITY_def)
next
  case (Cons e events)
  show ?case
  proof (cases e)
    case (Broadcast resp)
    then show ?thesis
      using Cons.prems Cons.IH [of pos "sent @ [resp]"] by (auto simp: less_Suc_eq_le)
  next
    case Polled
    show ?thesis
    proof (cases "Suc pos < length sent")
      case True
      then show ?thesis using Polled assms(1) by (auto simp: broadcast_ok_def BROADCAST_CAPACITY_def)
    next
      case False
      with Cons.prems Polled have later: "\<not> keeps_up False events" by simp
      have "pos = length sent \<or> length sent = Suc pos" using False Cons.prems(2) by auto
      then show ?thesis
        using Polled later assms(1) Cons.IH [of pos sent] Cons.IH [of "Suc pos" sent]
        by (elim disjE) (simp_all add: broadcast_ok_def BROADCAST_CAPACITY_def)
    qed
  qed
qed

text \<open>
  C18: A subscriber sees every overview, in order, exactly when it keeps up. If its stream is polled
  at least once between any two broadcasts it gets all of them as they were broadcast; if two
  come between polls it gets an internal error instead of the first, which claims that the
  sender is gone.
\<close>

theorem subscriber_sees_all_or_error:
  assumes "broadcast_ok B"
  shows "(keeps_up False events \<longleftrightarrow>
            subscribe_to_changes B [] 0 (events @ [Polled]) = List.map Inr (broadcasts events)) \<and>
         (\<not> keeps_up False events \<longleftrightarrow>
            Inl (Status_Internal ''tx dropped'') \<in> set (subscribe_to_changes B [] 0 (events @ [Polled])))"
proof (cases "keeps_up False events")
  case True
  then show ?thesis using keeping_up_sees_all [OF assms, of 0 "[]" events] by auto
next
  case False
  then have "Inl (Status_Internal ''tx dropped'') \<in> set (subscribe_to_changes B [] 0 (events @ [Polled]))"
    using falling_behind_is_told [OF assms, of 0 "[]" events] by simp
  then show ?thesis using False by auto
qed

theorem subscriber_sees_all_or_error_witness:
  "subscribe_to_changes broadcast_reference [] 0 ([Broadcast CHR ''a'', Polled, Broadcast CHR ''b''] @ [Polled]) =
     [Inr CHR ''a'', Inr CHR ''b''] \<and>
   Inl (Status_Internal ''tx dropped'') \<in>
     set (subscribe_to_changes broadcast_reference [] 0 ([Broadcast CHR ''a'', Broadcast CHR ''b''] @ [Polled]))"
  using subscriber_sees_all_or_error [OF broadcast_reference_ok, of "[Broadcast CHR ''a'', Polled, Broadcast CHR ''b'']"]
    subscriber_sees_all_or_error [OF broadcast_reference_ok, of "[Broadcast CHR ''a'', Broadcast CHR ''b'']"]
  by simp

end
