(* ===== verification/Proxies.thy ===== *)
theory Proxies
  imports Mesh_Objects
begin

text \<open>
  The interfaces of the mesh daemon, \<open>src/mesh/proxies.rs\<close>: one datatype per declared trait,
  with a constructor per method and its arguments, and the calls of the mesh loop written out
  with all of their arguments. The code that makes a bus message of a call is generated by
  \<open>zbus\<close>.
\<close>

section \<open>Options\<close>

record send_options =
  force_segmented :: bool

definition SendOptions_default :: send_options where
  "SendOptions_default = \<lparr>force_segmented = False\<rparr>"

record scan_options =
  scan_seconds :: u16

definition ScanOptions_default :: scan_options where
  "ScanOptions_default = \<lparr>scan_seconds = 0\<rparr>"

datatype bluez_token = BluezToken "64 word"

section \<open>The traits\<close>

text \<open>An object path is its string; a map of options is an association list of texts.\<close>

type_synonym dbus_options = "(string \<times> string) list"

datatype network1 =
    Network1_attach string bluez_token
  | Network1_cancel
  | Network1_create_network string "u8 list"
  | Network1_import string "u8 list" "u8 list" "u8 list" net_index dbus_options u32 u16
  | Network1_join string "u8 list"
  | Network1_leave bluez_token

datatype node1 =
    Node1_send string mesh_addr app_index send_options "u8 list"
  | Node1_dev_key_send string mesh_addr bool net_index send_options "u8 list"
  | Node1_add_net_key string mesh_addr app_index net_index bool
  | Node1_add_app_key string mesh_addr app_index net_index bool
  | Node1_addresses

datatype management1 =
    Management1_unprovisioned_scan scan_options
  | Management1_unprovisioned_scan_cancel
  | Management1_add_node "u8 list" dbus_options
  | Management1_create_app_key net_index app_index
  | Management1_import_app_key net_index app_index "u8 list"
  | Management1_create_subnet net_index

text \<open>A call and the object it is made on: the network interface is at the declared default path.\<close>

datatype proxy_call =
    On_Network1 (object_path: string) network1
  | On_Node1 (object_path: string) node1
  | On_Management1 (object_path: string) management1

definition DEFAULT_PATH :: string where
  "DEFAULT_PATH = ''/org/bluez/mesh''"

section \<open>The calls of the loop\<close>

text \<open>\<open>node_path\<close> is the object the daemon returned, \<open>as_bytes\<close> the bytes of a UUID.\<close>

fun to_proxy :: "('u \<Rightarrow> u8 list) \<Rightarrow> string \<Rightarrow> 'u dbus_call \<Rightarrow> proxy_call" where
  "to_proxy as_bytes node_path (Create_Network uuid) =
     On_Network1 DEFAULT_PATH (Network1_create_network MAIN_PATH (as_bytes uuid))"
| "to_proxy as_bytes node_path (Create_App_Key net_index app_index) =
     On_Management1 node_path (Management1_create_app_key net_index app_index)"
| "to_proxy as_bytes node_path Addresses = On_Node1 node_path Node1_addresses"
| "to_proxy as_bytes node_path Unprovisioned_Scan =
     On_Management1 node_path (Management1_unprovisioned_scan ScanOptions_default)"
| "to_proxy as_bytes node_path (Add_Node uuid) =
     On_Management1 node_path (Management1_add_node (as_bytes uuid) [])"
| "to_proxy as_bytes node_path (Send addr app_index data) =
     On_Node1 node_path (Node1_send ELEMENT_PATH addr app_index SendOptions_default data)"
| "to_proxy as_bytes node_path (Dev_Key_Send addr remote net_index data) =
     On_Node1 node_path (Node1_dev_key_send ELEMENT_PATH addr remote net_index SendOptions_default data)"
| "to_proxy as_bytes node_path (Add_App_Key addr app_index net_index update) =
     On_Node1 node_path (Node1_add_app_key ELEMENT_PATH addr app_index net_index update)"

definition attach_call :: "bluez_token \<Rightarrow> proxy_call" where
  "attach_call token = On_Network1 DEFAULT_PATH (Network1_attach MAIN_PATH token)"

text \<open>
  The paths of the server's own objects in a call; the element is one of the objects announced
  to the daemon, with the interface it needs.
\<close>

fun own_paths :: "proxy_call \<Rightarrow> string list" where
  "own_paths (On_Network1 path (Network1_attach app token)) = [app]"
| "own_paths (On_Network1 path (Network1_create_network app uuid)) = [app]"
| "own_paths (On_Node1 path (Node1_send element addr app_index options data)) = [element]"
| "own_paths (On_Node1 path (Node1_dev_key_send element addr remote net_index options data)) = [element]"
| "own_paths (On_Node1 path (Node1_add_app_key element addr app_index net_index update)) = [element]"
| "own_paths c = []"

lemma calls_name_announced_objects:
  assumes "path \<in> set (own_paths (to_proxy as_bytes node_path c))"
  shows "path = MAIN_PATH \<or>
         (\<exists>interfaces. to_managed_objects service path = Some interfaces \<and>
            interfaces ''org.bluez.mesh.Element1'' \<noteq> None)"
  using assms by (cases c) (simp_all add: to_managed_objects_def ELEMENT_PATH_def)

end
