(* ===== verification/Interleaving.thy ===== *)
theory Interleaving
  imports Server
begin

text \<open>
  Handlers running at the same time: each is a sequence of phases on the shared context, one
  database transaction or one use of the sensors lock each, and the runtime may switch between
  handlers after any phase. A handler alone does what its composed definition says; what holds
  in every interleaving is proved by induction over the steps.
\<close>

section \<open>Handlers as phases\<close>

datatype ('u, 'v, 'e) job =
    Find "update_txn \<Rightarrow> 'e option" "('u, 'v sensor_state) btree_map"
  | Store "update_txn \<Rightarrow> 'e option" "('u, 'v sensor_state) btree_map" "'u list"
  | Log "update_txn \<Rightarrow> 'e option" "('u, 'v sensor_state) btree_map"
  | Memory "('u, 'v sensor_state) btree_map"
  | Check_Label "label_txn \<Rightarrow> 'e option" 'u "string option"
  | Store_Label "label_txn \<Rightarrow> 'e option" 'u "string option"
  | Set_Label 'u "string option"
  | Finished
  | Failed

text \<open>One phase: the context it leaves and what the handler does next.\<close>

fun advance_job ::
    "('u::linorder, 'q) uuid_lib \<Rightarrow> ('e, 'i) id_table \<Rightarrow> ('e, 'l) log_table \<Rightarrow> ('t, 'c, 'p, 'h) api \<Rightarrow>
     ('u, ('t, 'c, 'p, 'h) sensor_values, 'i, 'l) server_context \<Rightarrow>
     ('u, ('t, 'c, 'p, 'h) sensor_values, 'e) job \<Rightarrow>
     ('u, ('t, 'c, 'p, 'h) sensor_values, 'i, 'l) server_context \<times>
     ('u, ('t, 'c, 'p, 'h) sensor_values, 'e) job" where
  "advance_job U I L A ctx (Find err update) =
     (ctx, case update_find U I err update ctx of Inl e \<Rightarrow> Failed | Inr new \<Rightarrow> Store err update new)"
| "advance_job U I L A ctx (Store err update new) =
     (case update_store U I err new ctx of
        Inl e \<Rightarrow> (ctx, Failed) | Inr ctx \<Rightarrow> (ctx, Log err update))"
| "advance_job U I L A ctx (Log err update) =
     (case update_log U L A err update ctx of
        Inl e \<Rightarrow> (ctx, Failed) | Inr ctx \<Rightarrow> (ctx, Memory update))"
| "advance_job U I L A ctx (Memory update) = (fst (update_memory U A update ctx), Finished)"
| "advance_job U I L A ctx (Check_Label err uid new_label) =
     (ctx, case label_check U I err uid ctx of
             Inl status \<Rightarrow> Failed | Inr _ \<Rightarrow> Store_Label err uid new_label)"
| "advance_job U I L A ctx (Store_Label err uid new_label) =
     (case label_store U I err uid new_label ctx of
        Inl status \<Rightarrow> (ctx, Failed) | Inr ctx \<Rightarrow> (ctx, Set_Label uid new_label))"
| "advance_job U I L A ctx (Set_Label uid new_label) =
     (fst (label_memory U A uid new_label ctx), Finished)"
| "advance_job U I L A ctx Finished = (ctx, Finished)"
| "advance_job U I L A ctx Failed = (ctx, Failed)"

text \<open>A new handler arrives at its first phase; a running one advances.\<close>

fun initial_job :: "('u::linorder, 'v, 'e) job \<Rightarrow> bool" where
  "initial_job (Find err update) \<longleftrightarrow> bt_ok update"
| "initial_job (Check_Label err uid new_label) \<longleftrightarrow> True"
| "initial_job _ \<longleftrightarrow> False"

inductive interleaved ::
    "('u::linorder, 'q) uuid_lib \<Rightarrow> ('e, 'i) id_table \<Rightarrow> ('e, 'l) log_table \<Rightarrow> ('t, 'c, 'p, 'h) api \<Rightarrow>
     ('u, ('t, 'c, 'p, 'h) sensor_values, 'i, 'l) server_context \<Rightarrow>
     ('u, ('t, 'c, 'p, 'h) sensor_values, 'i, 'l) server_context \<Rightarrow>
     ('u, ('t, 'c, 'p, 'h) sensor_values, 'e) job list \<Rightarrow> bool"
  for U I L A ctx0 where
  start: "interleaved U I L A ctx0 ctx0 []"
| arrive: "interleaved U I L A ctx0 ctx jobs \<Longrightarrow> initial_job job \<Longrightarrow>
    interleaved U I L A ctx0 ctx (job # jobs)"
| phase: "interleaved U I L A ctx0 ctx jobs \<Longrightarrow> n < length jobs \<Longrightarrow>
    advance_job U I L A ctx (jobs ! n) = (ctx', job') \<Longrightarrow>
    interleaved U I L A ctx0 ctx' (jobs[n := job'])"

section \<open>A handler alone\<close>

text \<open>The handler run to its end without another one in between.\<close>

definition run_alone where
  "run_alone U I L A ctx job =
     ((\<lambda>(ctx, job). advance_job U I L A ctx job) ^^ 4) (ctx, job)"

lemma update_alone:
  "run_alone U I L A ctx (Find err update) =
     (case update_one U I L A err update ctx of
        Inl (e, ctx') \<Rightarrow> (ctx', Failed) | Inr (ctx', sent) \<Rightarrow> (ctx', Finished))"
  by (auto simp: run_alone_def update_one_def numeral_eq_Suc update_memory_def modify_sensors_def
      Let_def split: sum.split)

lemma label_alone:
  assumes "clr_id req = Some q"
  shows "run_alone U I L A ctx
           (Check_Label err (uuid_from_proto U q) (map_option label_name (clr_label req))) =
         (case change_label U I A err req ctx of
            Inl status \<Rightarrow> (ctx, Failed) | Inr (ctx', sent) \<Rightarrow> (ctx', Finished))"
  using assms
  by (auto simp: run_alone_def change_label_def get_id_def numeral_eq_Suc label_memory_def
      modify_sensors_def Let_def split: sum.split)

section \<open>What every interleaving keeps\<close>

text \<open>The sensors the database knows, and what a phase relies on: those it touches are stored.\<close>

definition stored :: "('e, 'i) id_table \<Rightarrow> ('u, 'v, 'i, 'l) server_context \<Rightarrow> u128 set" where
  "stored I ctx = known I (db_env (ctx_db ctx))"

lemma stored_ids: "k \<in> stored I ctx \<longleftrightarrow> ctx_ids I ctx k \<noteq> None"
  by (simp only: stored_def known_ids)

lemma stored_cong: "ctx_ids I ctx = ctx_ids I ctx' \<Longrightarrow> stored I ctx = stored I ctx'"
  by (rule set_eqI) (simp only: stored_ids)

fun job_ok ::
    "('u::linorder, 'q) uuid_lib \<Rightarrow> u128 set \<Rightarrow> ('u, 'v, 'e) job \<Rightarrow> bool" where
  "job_ok U S (Find err update) \<longleftrightarrow> bt_ok update"
| "job_ok U S (Store err update new) \<longleftrightarrow> bt_ok update \<and>
     as_u128 U ` set (bt_keys update) \<subseteq> as_u128 U ` set new \<union> S"
| "job_ok U S (Log err update) \<longleftrightarrow> bt_ok update \<and> as_u128 U ` set (bt_keys update) \<subseteq> S"
| "job_ok U S (Memory update) \<longleftrightarrow> bt_ok update \<and> as_u128 U ` set (bt_keys update) \<subseteq> S"
| "job_ok U S _ \<longleftrightarrow> True"

definition shared_ok ::
    "('u::linorder, 'q) uuid_lib \<Rightarrow> ('e, 'i) id_table \<Rightarrow> id_db \<Rightarrow> ('u, 'v, 'i, 'l) server_context \<Rightarrow> bool" where
  "shared_ok U I logs ctx \<longleftrightarrow>
     bt_ok (ctx_sensors ctx) \<and> opened_logs ctx = logs \<and>
     as_u128 U ` set (bt_keys (ctx_sensors ctx)) \<subseteq> stored I ctx"

lemma job_ok_grows: "job_ok U S job \<Longrightarrow> S \<subseteq> S' \<Longrightarrow> job_ok U S' job"
  by (cases job) auto

lemma initial_job_ok: "initial_job job \<Longrightarrow> job_ok U S job"
  by (cases job) auto

lemma set_states_keys:
  assumes "bt_ok sensors" and "distinct (List.map fst update)"
  shows "set (bt_keys (fold (\<lambda>(addr, state). set_state addr state) update sensors)) =
           set (bt_keys sensors) \<union> set (bt_keys update)"
proof (rule set_eqI)
  fix u
  have "map_of update u = None \<longleftrightarrow> u \<notin> set (bt_keys update)"
    by (simp only: bt_get_None [symmetric] bt_get_def)
  then show "u \<in> set (bt_keys (fold (\<lambda>(addr, state). set_state addr state) update sensors)) \<longleftrightarrow>
      u \<in> set (bt_keys sensors) \<union> set (bt_keys update)"
    using set_states_get [OF assms, of u] bt_get_None [of sensors u]
      bt_get_None [of "fold (\<lambda>(addr, state). set_state addr state) update sensors" u]
    by (auto split: option.splits)
qed

lemma set_label_keys:
  assumes "bt_ok sensors"
  shows "set (bt_keys (set_label uid new sensors)) = set (bt_keys sensors)"
proof (rule set_eqI)
  fix u
  show "u \<in> set (bt_keys (set_label uid new sensors)) \<longleftrightarrow> u \<in> set (bt_keys sensors)"
    using set_label_get [OF assms, of uid new u] bt_get_None [of sensors u]
      bt_get_None [of "set_label uid new sensors" u]
    by (auto split: if_splits)
qed

lemma label_store_stored:
  assumes "id_table_ok I" and "label_store U I err uid new ctx = Inr ctx'"
  shows "ctx_sensors ctx' = ctx_sensors ctx \<and> opened_logs ctx' = opened_logs ctx \<and>
         stored I ctx' = insert (as_u128 U uid) (stored I ctx)"
proof -
  obtain txn where put: "put_addr U I (db_env (ctx_db ctx)) uid \<lparr>entry_label = new\<rparr> = Inr txn"
    and ctx': "ctx' = ctx\<lparr>ctx_db := (ctx_db ctx)\<lparr>db_env := txn\<rparr>\<rparr>"
    using assms(2) by (auto simp: label_store_def status_of_def write_txn_def commit_txn_def result_iff)
  show ?thesis using put_addr_Inr [OF assms(1) put] ctx' by (auto simp: stored_ids split: if_splits)
qed

lemma update_find_stored:
  assumes "id_table_ok I" and "update_find U I err update ctx = Inr new"
  shows "as_u128 U ` set (bt_keys update) \<subseteq> as_u128 U ` set new \<union> stored I ctx"
  using update_find_Inr [OF assms] by (auto simp: stored_ids)

lemma update_store_stored:
  assumes "id_table_ok I" and "update_store U I err new ctx = Inr ctx'"
  shows "stored I ctx' = as_u128 U ` set new \<union> stored I ctx"
  using update_store_Inr [OF assms] by (auto simp: stored_ids split: if_splits)

lemma update_log_stored:
  assumes "log_table_ok L" and "uuid_ok U" and "named (opened_logs ctx)"
    and "update_log U L A err update ctx = Inr ctx'"
  shows "stored I ctx' = stored I ctx"
  using update_log_Inr [OF assms] by (auto simp: stored_def known_def)

text \<open>One phase of any handler keeps the shared state well formed and forgets no sensor.\<close>

lemma advance_job_keeps:
  assumes libs: "server_libs U I L" and names: "named logs"
    and shared: "shared_ok U I logs ctx" and job: "job_ok U (stored I ctx) job"
    and step: "advance_job U I L A ctx job = (ctx', job')"
  shows "shared_ok U I logs ctx' \<and> stored I ctx \<subseteq> stored I ctx' \<and> job_ok U (stored I ctx') job'"
proof -
  have I: "id_table_ok I" and L: "log_table_ok L" and U: "uuid_ok U"
    using libs by (simp_all add: server_libs_def)
  have ok: "bt_ok (ctx_sensors ctx)" and logs: "named (opened_logs ctx)"
    using shared names by (simp_all add: shared_ok_def)
  note shared' = shared [unfolded shared_ok_def]
  show ?thesis
  proof (cases job)
    case (Find err update)
    then show ?thesis
      using step shared job update_find_stored [OF I, of U err update ctx]
      by (auto split: sum.splits)
  next
    case (Store err update new)
    show ?thesis
    proof (cases "update_store U I err new ctx")
      case (Inl e)
      then show ?thesis using step shared Store by auto
    next
      case (Inr ctx1)
      have "ctx_sensors ctx1 = ctx_sensors ctx" "opened_logs ctx1 = opened_logs ctx"
        using update_store_Inr [OF I Inr] by blast+
      moreover have "ctx' = ctx1" "job' = Log err update" using step Store Inr by simp_all
      ultimately show ?thesis
        using shared' job Store update_store_stored [OF I Inr] by (auto simp: shared_ok_def)
    qed
  next
    case (Log err update)
    show ?thesis
    proof (cases "update_log U L A err update ctx")
      case (Inl e)
      then show ?thesis using step shared Log by auto
    next
      case (Inr ctx1)
      have "ctx_sensors ctx1 = ctx_sensors ctx" "opened_logs ctx1 = opened_logs ctx"
        using update_log_Inr [OF L U logs Inr] by blast+
      moreover have "ctx' = ctx1" "job' = Memory update" using step Log Inr by simp_all
      ultimately show ?thesis
        using shared' job Log update_log_stored [OF L U logs Inr, of I] by (auto simp: shared_ok_def)
    qed
  next
    case (Memory update)
    have d: "distinct (List.map fst update)"
      using bt_ok_distinct [of update] job Memory by (simp add: bt_keys_def)
    let ?sensors = "fold (\<lambda>(addr, state). set_state addr state) update (ctx_sensors ctx)"
    have ctx': "ctx' = ctx\<lparr>ctx_sensors := ?sensors\<rparr>" and job': "job' = Finished"
      using step Memory by (auto simp: update_memory_def modify_sensors_def Let_def)
    have "bt_ok ?sensors" using set_states_get [OF ok d] by blast
    then show ?thesis
      using shared' job Memory set_states_keys [OF ok d] ctx' job'
      by (auto simp: shared_ok_def stored_def)
  next
    case (Store_Label err uid new)
    show ?thesis
    proof (cases "label_store U I err uid new ctx")
      case (Inl e)
      then show ?thesis using step shared Store_Label by auto
    next
      case (Inr ctx1)
      then show ?thesis
        using step shared' Store_Label label_store_stored [OF I Inr] by (auto simp: shared_ok_def)
    qed
  next
    case (Set_Label uid new)
    have ctx': "ctx' = ctx\<lparr>ctx_sensors := set_label uid new (ctx_sensors ctx)\<rparr>" and job': "job' = Finished"
      using step Set_Label by (auto simp: label_memory_def modify_sensors_def Let_def)
    have "bt_ok (set_label uid new (ctx_sensors ctx))" using set_label_get [OF ok] by blast
    then show ?thesis
      using shared' set_label_keys [OF ok] ctx' job' by (auto simp: shared_ok_def stored_def)
  next
    case (Check_Label err uid new)
    then show ?thesis using step shared by (auto split: sum.splits)
  qed (use step shared in auto)
qed

lemma interleaved_keeps:
  assumes libs: "server_libs U I L" and names: "named logs" and "shared_ok U I logs ctx0"
    and "interleaved U I L A ctx0 ctx jobs"
  shows "shared_ok U I logs ctx \<and> stored I ctx0 \<subseteq> stored I ctx \<and>
         (\<forall>job \<in> set jobs. job_ok U (stored I ctx) job)"
  using assms(4)
proof (induction rule: interleaved.induct)
  case start
  then show ?case using assms(3) by simp
next
  case (arrive ctx jobs job)
  then show ?case by (simp add: initial_job_ok)
next
  case (phase ctx jobs n ctx' job')
  then have "job_ok U (stored I ctx) (jobs ! n)" by simp
  with phase have one: "shared_ok U I logs ctx'" "stored I ctx \<subseteq> stored I ctx'" "job_ok U (stored I ctx') job'"
    using advance_job_keeps [OF libs names] by blast+
  have "job_ok U (stored I ctx') job" if "job \<in> set (jobs[n := job'])" for job
  proof -
    from that have "job = job' \<or> job \<in> set jobs"
      using set_update_subset_insert [of jobs n job'] by auto
    then show ?thesis
    proof
      assume "job \<in> set jobs"
      then have "job_ok U (stored I ctx) job" using phase.IH by simp
      then show ?thesis using one(2) by (rule job_ok_grows)
    qed (use one(3) in simp)
  qed
  moreover have "stored I ctx0 \<subseteq> stored I ctx'" using phase.IH one(2) by auto
  ultimately show ?case using one(1) by simp
qed

text \<open>
  C10: However the handlers interleave, with whatever database errors and however many run at once,
  the shared state stays well formed: the sensors in memory are in the order of their keys and
  all of them are stored, no stored sensor is forgotten, and the logs are those opened at the
  start.
\<close>

theorem interleaved_handlers_safe:
  assumes "server_libs U I L"
    and "Context_create U I err (Db_open U I de oe ce re env) = Inr ctx0"
    and "interleaved U I L A ctx0 ctx jobs"
  shows "bt_ok (ctx_sensors ctx) \<and>
         (\<forall>u \<in> set (bt_keys (ctx_sensors ctx)). as_u128 U u \<in> stored I ctx) \<and>
         known I env \<subseteq> stored I ctx \<and> opened_logs ctx = opened_logs ctx0"
proof -
  have I: "id_table_ok I" and U: "uuid_ok U" using assms(1) by (simp_all add: server_libs_def)
  note start = Context_create_Inr [OF I U assms(2)]
  have "as_u128 U u \<in> stored I ctx0" if "u \<in> set (bt_keys (ctx_sensors ctx0))" for u
  proof -
    have "bt_get (ctx_sensors ctx0) u \<noteq> None" using that by (simp add: bt_get_None)
    then obtain s where s: "bt_get (ctx_sensors ctx0) u = Some s"
      by (cases "bt_get (ctx_sensors ctx0) u") simp_all
    have "labels_agree U I ctx0" using start by (simp add: server_inv_def)
    then have "\<exists>e. ctx_ids I ctx0 (as_u128 U u) = Some e \<and> s_label s = entry_label e"
      using s unfolding labels_agree_def by (elim allE impE)
    then show ?thesis by (auto simp: stored_ids)
  qed
  moreover have "bt_ok (ctx_sensors ctx0)" using start by (simp add: server_inv_def)
  ultimately have "shared_ok U I (opened_logs ctx0) ctx0" unfolding shared_ok_def by blast
  moreover have "named (opened_logs ctx0)" "stored I ctx0 = known I env"
    using start by (simp_all add: stored_def)
  ultimately have "shared_ok U I (opened_logs ctx0) ctx" "known I env \<subseteq> stored I ctx"
    using interleaved_keeps [OF assms(1) _ _ assms(3)] by metis+
  then show ?thesis unfolding shared_ok_def by blast
qed

theorem interleaved_handlers_safe_witness:
  "\<exists>ctx jobs. interleaved uuid_reference id_table_reference log_table_reference api_reference
       sample_context ctx jobs \<and>
     jobs = [Store (\<lambda>_. None) [(9, Unconnected)] [9]] \<and> 7 \<in> stored id_table_reference ctx"
proof -
  let ?upd = "[(9 :: u128, Unconnected :: (u32, i16, u32, u16) sensor_values sensor_state)]"
  let ?run = "interleaved uuid_reference id_table_reference log_table_reference api_reference sample_context"
  have "?run sample_context [Find (\<lambda>_. None) ?upd]"
    by (rule interleaved.arrive [OF interleaved.start]) (simp add: bt_ok_def)
  from interleaved.phase [OF this, of 0] have
    run: "?run sample_context [Store (\<lambda>_. None) ?upd [9]]"
    by (simp add: update_defs context_defs)
  have "7 \<in> known id_table_reference sample_env"
    by (simp add: known_def context_defs in_order_def bt_ok_def)
  then have "7 \<in> stored id_table_reference sample_context"
    using interleaved_handlers_safe [OF sample_libs sample_create run] by blast
  with run show ?thesis
    by (intro exI [of _ sample_context] exI [of _ "[Store (\<lambda>_. None) ?upd [9]]"] conjI) simp_all
qed

end
