(* ===== verification/Dummy.thy ===== *)
theory Dummy
  imports Sensor
begin

text \<open>
  The simulated sensors, \<open>src/dummy.rs\<close>. What the random generator returns is an argument
  of each step; \<open>in_ranges\<close> are the ranges it is asked for. Additions and subtractions are
  on machine integers; \<open>no_overflow\<close> says when they are exact, as a debug build checks.
\<close>

section \<open>The model\<close>

record fluctuating_sensor =
  fs_humidity :: u16
  fs_temperature :: i16
  fs_pressure :: u32

definition FluctuatingSensor_default :: fluctuating_sensor where
  "FluctuatingSensor_default =
     \<lparr>fs_humidity = 5000, fs_temperature = 2000, fs_pressure = 10000000\<rparr>"

text \<open>\<open>clamp\<close> at an ordered type; \<open>i16\<close> is ordered by its signed value.\<close>

definition clamp_by :: "('a \<Rightarrow> 'a \<Rightarrow> bool) \<Rightarrow> 'a \<Rightarrow> 'a \<Rightarrow> 'a \<Rightarrow> 'a" where
  "clamp_by lt n lo hi = (if lt n lo then lo else if lt hi n then hi else n)"

record rolls =
  roll_temperature :: i16
  roll_pressure_up :: bool
  roll_pressure :: u32
  roll_humidity_up :: bool
  roll_humidity :: u16

definition in_ranges :: "rolls \<Rightarrow> bool" where
  "in_ranges r \<longleftrightarrow>
     - 100 \<le> sint (roll_temperature r) \<and> sint (roll_temperature r) < 100 \<and>
     100 \<le> roll_pressure r \<and> roll_pressure r < 1000 \<and>
     20 \<le> roll_humidity r \<and> roll_humidity r < 90"

definition fluctuate :: "rolls \<Rightarrow> fluctuating_sensor \<Rightarrow> fluctuating_sensor" where
  "fluctuate r self =
     \<lparr>fs_humidity =
        clamp_by (<)
          (if roll_humidity_up r then fs_humidity self + roll_humidity r
           else fs_humidity self - roll_humidity r) 2000 9000,
      fs_temperature =
        clamp_by (\<lambda>a b. sint a < sint b) (fs_temperature self + roll_temperature r) 0 3000,
      fs_pressure =
        clamp_by (<)
          (if roll_pressure_up r then fs_pressure self + roll_pressure r
           else fs_pressure self - roll_pressure r) 900000 1100000\<rparr>"

definition advance ::
    "('tm, 'c, 'p, 'h) api \<Rightarrow> rolls \<Rightarrow> 'tm \<Rightarrow> fluctuating_sensor \<Rightarrow>
     panic + fluctuating_sensor \<times> ('tm, 'c, 'p, 'h) sensor_values" where
  "advance A r timestamp self =
     (let self = fluctuate r self
      in case humidity_try_from A (fs_humidity self) of
           None \<Rightarrow> Inl Unwrap_Failed
         | Some humidity \<Rightarrow>
             (case celsius_try_from A (fs_temperature self) of
                None \<Rightarrow> Inl Unwrap_Failed
              | Some temperature \<Rightarrow>
                  Inr (self, \<lparr>sv_timestamp = timestamp, sv_temperature = temperature,
                              sv_pressure = pascal_from A (fs_pressure self),
                              sv_humidity = humidity\<rparr>)))"

text \<open>
  The task: every sensor of the range advances each round, until the receiver is gone. A round
  gives the time and the rolls of each sensor, in order.
\<close>

fun advance_all ::
    "('tm, 'c, 'p, 'h) api \<Rightarrow> 'tm \<Rightarrow> (rolls \<times> 'u::linorder \<times> fluctuating_sensor) list \<Rightarrow>
     ('u, ('tm, 'c, 'p, 'h) sensor_values sensor_state) btree_map \<Rightarrow>
     panic + ('u \<times> fluctuating_sensor) list \<times> ('u, ('tm, 'c, 'p, 'h) sensor_values sensor_state) btree_map" where
  "advance_all A now [] states = Inr ([], states)"
| "advance_all A now ((r, addr, sensor) # sensors) states =
     and_then (advance A r now sensor) (\<lambda>(sensor, values).
     and_then (advance_all A now sensors (bt_insert addr (Connected values) states)) (\<lambda>(sensors, states).
     Inr ((addr, sensor) # sensors, states)))"

definition dummy_init :: "(nat \<Rightarrow> 'u) \<Rightarrow> nat \<Rightarrow> ('u \<times> fluctuating_sensor) list" where
  "dummy_init from_u128 n = List.map (\<lambda>i. (from_u128 i, FluctuatingSensor_default)) [0..<n]"

fun dummy_rounds ::
    "('tm, 'c, 'p, 'h) api \<Rightarrow> ('tm \<times> rolls list \<times> bool) list \<Rightarrow> ('u::linorder \<times> fluctuating_sensor) list \<Rightarrow>
     panic + ('u, ('tm, 'c, 'p, 'h) sensor_values sensor_state) btree_map list" where
  "dummy_rounds A [] sensors = Inr []"
| "dummy_rounds A ((now, rolls, receiver_alive) # rounds) sensors =
     and_then (advance_all A now (zip rolls sensors) []) (\<lambda>(sensors, states).
       if receiver_alive
       then and_then (dummy_rounds A rounds sensors) (\<lambda>sent. Inr (states # sent))
       else Inr [])"

section \<open>Bounds\<close>

text \<open>The values the code means a sensor to have, and the exactness of a step's arithmetic.\<close>

definition plausible :: "fluctuating_sensor \<Rightarrow> bool" where
  "plausible s \<longleftrightarrow>
     2000 \<le> fs_humidity s \<and> fs_humidity s \<le> 9000 \<and>
     0 \<le> sint (fs_temperature s) \<and> sint (fs_temperature s) \<le> 3000 \<and>
     900000 \<le> fs_pressure s \<and> fs_pressure s \<le> 1100000"

definition no_overflow :: "rolls \<Rightarrow> fluctuating_sensor \<Rightarrow> bool" where
  "no_overflow r s \<longleftrightarrow>
     (if roll_humidity_up r then unat (fs_humidity s) + unat (roll_humidity r) < 2 ^ 16
      else roll_humidity r \<le> fs_humidity s) \<and>
     sint (fs_temperature s + roll_temperature r) = sint (fs_temperature s) + sint (roll_temperature r) \<and>
     (if roll_pressure_up r then unat (fs_pressure s) + unat (roll_pressure r) < 2 ^ 32
      else roll_pressure r \<le> fs_pressure s)"

lemma fluctuate_plausible: "plausible (fluctuate r s)"
  by (auto simp: plausible_def fluctuate_def clamp_by_def not_less)

lemma sint_add_small:
  fixes a b :: i16
  assumes "- (2 ^ 14) \<le> sint a" "sint a < 2 ^ 14" "- (2 ^ 14) \<le> sint b" "sint b < 2 ^ 14"
  shows "sint (a + b) = sint a + sint b"
  using assms by (simp add: sint_word_ariths(1) signed_take_bit_int_eq_self)

definition reachable_sensor :: "fluctuating_sensor \<Rightarrow> bool" where
  "reachable_sensor s \<longleftrightarrow> s = FluctuatingSensor_default \<or> plausible s"

lemma reachable_no_overflow:
  assumes "in_ranges r" and "reachable_sensor s"
  shows "no_overflow r s"
proof -
  have h: "2000 \<le> unat (fs_humidity s)" "unat (fs_humidity s) \<le> 9000"
    and t: "0 \<le> sint (fs_temperature s)" "sint (fs_temperature s) \<le> 3000"
    and p: "900000 \<le> unat (fs_pressure s)" "unat (fs_pressure s) \<le> 10000000"
    using assms(2)
    by (auto simp: reachable_sensor_def plausible_def FluctuatingSensor_default_def word_le_nat_alt)
  have rh: "20 \<le> unat (roll_humidity r)" "unat (roll_humidity r) < 90"
    and rt: "- 100 \<le> sint (roll_temperature r)" "sint (roll_temperature r) < 100"
    and rp: "100 \<le> unat (roll_pressure r)" "unat (roll_pressure r) < 1000"
    using assms(1) by (simp_all add: in_ranges_def word_le_nat_alt word_less_nat_alt)
  have "sint (fs_temperature s + roll_temperature r) = sint (fs_temperature s) + sint (roll_temperature r)"
    by (rule sint_add_small) (use t rt in simp_all)
  then show ?thesis
    using h p rh rp by (simp add: no_overflow_def word_le_nat_alt)
qed

lemma fluctuate_reachable: "reachable_sensor (fold fluctuate rs FluctuatingSensor_default)"
proof (cases rs rule: rev_cases)
  case Nil
  then show ?thesis by (simp add: reachable_sensor_def)
next
  case (snoc ys y)
  then show ?thesis by (simp add: reachable_sensor_def fluctuate_plausible)
qed

lemma first_pressure:
  assumes "in_ranges r"
  shows "fs_pressure (fluctuate r FluctuatingSensor_default) = 1100000"
proof -
  have r: "unat (roll_pressure r) < 1000"
    using assms by (simp add: in_ranges_def word_less_nat_alt)
  have "unat (10000000 + roll_pressure r) = 10000000 + unat (roll_pressure r)"
    using r by (simp add: unat_word_ariths(1))
  moreover have "unat (10000000 - roll_pressure r) = 10000000 - unat (roll_pressure r)"
    using r by (subst unat_sub) (simp_all add: word_le_nat_alt)
  ultimately show ?thesis
    using r
    by (auto simp: fluctuate_def clamp_by_def FluctuatingSensor_default_def word_less_nat_alt)
qed

text \<open>
  C24: Simulated sensors stay in their ranges: after any number of rounds no addition or subtraction
  of a step overflows, every value reported is between 20 and 90 percent humidity, 0 and 30
  degrees and 90 and 110 kilopascal, and the task does not panic if the measurement types accept
  these values. The first report of every sensor has the largest pressure, because a sensor
  starts far above its range.
\<close>

theorem dummy_values_in_range:
  assumes "\<forall>r \<in> set rs. in_ranges r" and "in_ranges r"
    and "\<And>n. 2000 \<le> n \<Longrightarrow> n \<le> 9000 \<Longrightarrow> humidity_try_from A n \<noteq> None"
    and "\<And>n. 0 \<le> sint n \<Longrightarrow> sint n \<le> 3000 \<Longrightarrow> celsius_try_from A n \<noteq> None"
  shows "let s = fold fluctuate rs FluctuatingSensor_default
         in no_overflow r s \<and> plausible (fluctuate r s) \<and>
            (\<exists>vals. advance A r now s = Inr (fluctuate r s, vals)) \<and>
            (rs = [] \<longrightarrow> fs_pressure (fluctuate r s) = 1100000)"
proof -
  let ?s = "fold fluctuate rs FluctuatingSensor_default"
  have pl: "plausible (fluctuate r ?s)" by (rule fluctuate_plausible)
  obtain h where h: "humidity_try_from A (fs_humidity (fluctuate r ?s)) = Some h"
    using assms(3) [of "fs_humidity (fluctuate r ?s)"] pl by (auto simp: plausible_def)
  obtain c where c: "celsius_try_from A (fs_temperature (fluctuate r ?s)) = Some c"
    using assms(4) [of "fs_temperature (fluctuate r ?s)"] pl by (auto simp: plausible_def)
  have "\<exists>vals. advance A r now ?s = Inr (fluctuate r ?s, vals)"
    using h c by (simp add: advance_def Let_def)
  then show ?thesis
    using reachable_no_overflow [OF assms(2) fluctuate_reachable] pl first_pressure [OF assms(2)]
    by (simp add: Let_def)
qed

definition sample_rolls :: rolls where
  "sample_rolls = \<lparr>roll_temperature = - 100, roll_pressure_up = False, roll_pressure = 999,
     roll_humidity_up = True, roll_humidity = 89\<rparr>"

theorem dummy_values_in_range_witness:
  "no_overflow sample_rolls (fold fluctuate [sample_rolls] FluctuatingSensor_default) \<and>
   plausible (fluctuate sample_rolls (fold fluctuate [sample_rolls] FluctuatingSensor_default))"
proof -
  have "in_ranges sample_rolls" by (simp add: in_ranges_def sample_rolls_def)
  moreover have "humidity_try_from api_reference n \<noteq> None" if "n \<le> 9000" for n
  proof -
    have "n \<le> 10000" using that by (simp add: word_le_nat_alt)
    then show ?thesis by (simp add: api_reference_def)
  qed
  ultimately show ?thesis
    using dummy_values_in_range [of "[sample_rolls]" sample_rolls api_reference "0 :: u32"]
    by (simp add: Let_def api_reference_def)
qed

end
