(* ===== verification/Spec2Isabelle.thy ===== *)
theory Spec2Isabelle
  imports Standstill Changes Proxies Interleaving Dummy
begin

text \<open>
  \<^bold>\<open>A verification development of \<open>ble-ws-central\<close>\<close>, the central server of a set of Bluetooth
  mesh weather stations. The server registers with the mesh daemon of \<open>BlueZ\<close> over D-Bus,
  provisions new stations, asks the connected ones for their values every thirty seconds,
  keeps the last values in memory and all of them in a database, and serves both over gRPC; it
  can publish them over MQTT.

  \<^bold>\<open>Parts of the program and the theories that model them\<close> (paths under \<open>src/\<close>)

  \<^item> \<open>mesh/proto/\<close>, the mesh messages: \<open>Wire\<close> has bytes and the two crates that read and write
    them, \<open>Proto\<close> opcodes, addresses, statuses, the parsers and the packet traits (the locales
    \<open>packet\<close>, \<open>to_packet\<close> and \<open>parse_packet\<close>), \<open>Packets\<close> the packets of \<open>sig.rs\<close> and
    \<open>vendor.rs\<close>, each an interpretation of the traits.
  \<^item> \<open>mesh/message_queue.rs\<close>: \<open>Message_Queue\<close>. Filters and messages are records, the state of
    the task is \<open>queue_state\<close>, a turn of its \<open>select!\<close> is \<open>queue_step\<close>, which returns a panic or
    the new state and the messages sent. \<open>Queue_Facts\<close> has its invariant, \<open>Queue_Refinement\<close>
    the abstract mailbox it implements.
  \<^item> \<open>mesh/provisioner.rs\<close>: \<open>Provisioner\<close>, one function per D-Bus call on the address counter.
  \<^item> \<open>mesh/mod.rs\<close>: \<open>Mesh_Loop\<close> has \<open>LoopCtx::run\<close> arm by arm, \<open>try_attach\<close> and the task of
    \<open>listen\<close>, with the proxies they build and the D-Bus calls as outputs (facts in \<open>Mesh_Loop_Facts\<close>); \<open>Sensor\<close> and
    \<open>Collector\<close> have the conversion of reports and the collection task; \<open>Mesh_Objects\<close> the
    objects the daemon calls; \<open>Proxies\<close> the interfaces of the daemon (\<open>mesh/proxies.rs\<close>).
  \<^item> \<open>db.rs\<close>: \<open>Store\<close>, facts in \<open>Store_Facts\<close>. A transaction is a copy of the tables that a commit
    puts back.
  \<^item> \<open>main.rs\<close> (\<open>Context\<close>), \<open>tasks.rs\<close> (\<open>update\<close>) and \<open>rpc.rs\<close>: \<open>Service\<close>, facts in
    \<open>Service_Facts\<close>; the state is \<open>server_context\<close>, the sensors in memory with the database.
    \<open>Server\<close> runs whole handlers one after another, \<open>Interleaving\<close> their phases in any
    order, \<open>Backup\<close> reads the logs, \<open>Changes\<close> is the stream of changes.
  \<^item> \<open>tokio-mqtt/\<close> and \<open>mqtt_publish\<close> of \<open>tasks.rs\<close>: \<open>Mqtt_Codec\<close> and \<open>Mqtt_Client\<close>.
  \<^item> \<open>dummy.rs\<close>: \<open>Dummy\<close>. \<open>config.rs\<close>, \<open>opt.rs\<close>, \<open>run\<close> and \<open>main\<close>: \<open>Startup\<close>.
  \<^item> Components together: \<open>Pipeline\<close> follows a report from the daemon to memory and log,
    \<open>Standstill\<close> is the tasks of the mesh side with the channels between them. Its step relation
    \<open>mesh_step\<close> allows more than the code: it leaves out the loop's waits for D-Bus calls and for
    the lock of the connected nodes, so what it never does, the code never does.

  \<open>Prelude\<close> holds what they share: panics and results, \<open>BTreeMap\<close> and \<open>BTreeSet\<close> as lists in
  key order (the interface \<open>ordered_map\<close>), effects as outputs before a result (\<open>action\<close>), runs
  of a step function (\<open>stepping\<close>) and of a step relation (\<open>kept\<close>), and the rule collections
  \<open>result_iff\<close> and \<open>action_simps\<close>.
\<close>

text \<open>
  \<^bold>\<open>What the theorems show\<close>

  \<^item> Messages. The parsers accept exactly the encodings, what is encoded parses back, except
    for SIG model identifiers, whose bytes come back swapped.
  \<^item> The queue refines a mailbox of stored messages and waiting subscriptions while every
    receiver is alive and a new stream finds at most one stored match. Beyond that: messages
    are conserved in all runs, a one-shot is answered once, and the exact behaviour with stale
    indices, dropped receivers and forgotten subscriptions, which can panic. The
    subscription of a loop is never removed, whatever comes later.
  \<^item> Mesh loop, provisioner and collector. Addresses are consecutive, the connected nodes are
    the added ones, requests are sent to all of them in order, and a batch has every connected
    device with its last valid report.
  \<^item> Server. In every run of whole handlers the overview asked for is the one broadcast last;
    an update does what it should to memory, table and logs; backups are complete and end; in
    any interleaving of phases the shared state stays well formed, although a label can get
    lost to the clients. A
    sensor that is new after the start is not logged until the next one.
  \<^item> Clients. A subscriber sees all changes exactly when it keeps up; MQTT packets are read
    when they are short and arrive whole; a part of one stops the decoder, and of a long one the
    last bytes are read as the next packet.
  \<^item> Startup. A new token is used whole, and what the next start makes of the file depends on
    how much of it the one write took.
  \<^item> The whole. A delivered report reaches memory and log with the numbers of its payload; two
    late reports and a new node make the mesh tasks wait for each other for ever; a failed
    update task goes unnoticed.

  \<^bold>\<open>What is a parameter.\<close> Code outside the repository is an argument with its documented
  behaviour as a named hypothesis, and a concrete instance that meets it: the parser
  combinators of \<open>nom\<close> (\<open>nom_ok\<close>) and the buffers of \<open>bytes\<close> (\<open>bytes_ok\<close>), the slot maps
  (\<open>slots_ok\<close>), the tables of \<open>heed\<close> (\<open>id_table_ok\<close>, \<open>log_table_ok\<close>), UUIDs (\<open>uuid_ok\<close>), the
  measurement types of \<open>ble-ws-api\<close> (\<open>api_ok\<close>), the broadcast channel (\<open>broadcast_ok\<close>), and the
  packets of the \<open>mqtt\<close> crate (\<open>is_frame\<close>: the length field, and that a whole packet is read;
  nothing is assumed of a part of a packet). Answers of the daemon, of files and of the network,
  the clock, random numbers, and which database calls or sends fail are arguments.

  \<^bold>\<open>Bounds and fuel.\<close> Integers are words of the width of the code, \<open>usize\<close> that of a 64-bit
  target. Loops without an end in the code are recursions over a list of what they receive, and
  a list that is used up means still waiting. The backup loop is a partial function whose
  termination is a theorem; reading a packet stream ends because the buffer gets shorter. No
  definition uses fuel.
\<close>

text \<open>
  \<^bold>\<open>Not modelled.\<close>

  \<^item> Logging, sleeps and timer periods: a tick is an event. The three seconds of a batch are its
    timeout event.
  \<^item> The threads and the bus connection \<open>listen\<close> sets up, the property getters of the D-Bus
    objects, and the calls of the provisioning agent that do nothing.
  \<^item> Code generated by macros: the serialisation of D-Bus arguments, gRPC and protocol buffers,
    JSON, error messages, the parsing of the command line and of environment variables.
  \<^item> Sockets and TLS of the MQTT client, and the topic and client identifier checks of the
    \<open>mqtt\<close> crate beyond whether a name is accepted.
  \<^item> Text is ASCII: Unicode white space around a token is not trimmed here.
  \<^item> Fairness: \<open>Standstill\<close> and \<open>Interleaving\<close> allow every order of steps; they show what can
    happen and what holds in all orders, not what happens in the end.
\<close>

end
